theory Spec2Isabelle
  imports Main
begin

section \<open>Weekly low-lecture compliance engine (lectureRoutes)\<close>

text \<open>
  A shallow embedding of the lecture routes of the tutoring backend: the week-window
  computation, the evaluator \<open>checkLowLectureMembers\<close>, the on-demand route
  \<open>GET /low-lecture-members\<close> and the lecture submission route \<open>POST /\<close>.

  Conventions of the embedding.
  \<^item> A \<open>Date\<close> is its time value, the milliseconds since the epoch in UTC (an \<open>int\<close>).
    The local-time methods of \<open>Date\<close> are those of ECMAScript, written over the two
    operations that depend on the zone of the process, \<open>LocalTime\<close> and \<open>UTC\<close>.  Both are
    parameters (\<open>localTime\<close>, \<open>utcTime\<close>): the process runs under \<open>TZ = Africa/Cairo\<close>, a
    zone with daylight saving time, and nothing is assumed of the zone unless a theorem
    says so.
  \<^item> A JavaScript string is a \<open>string\<close>.  \<open>String.prototype.toLowerCase\<close> and
    \<open>String.prototype.trim\<close> are parameters as well, so that a theorem holds for the
    functions of the platform on every string.  The empty string is the falsy string.
  \<^item> An array path of a document is a list; an absent one reads as the empty list.
  \<^item> Collections of the document store are lists in natural order; a document is
    written back by its \<open>_id\<close>.
  \<^item> Every awaited store operation may fail, and at most one does: an operation is given
    the number of store operations that succeed before the failing one (\<open>None\<close>: none
    fails).  The \<open>abortTransaction\<close> of a \<open>catch\<close> block comes after the failure and
    succeeds.
  \<^item> All reads and writes of a handler go through one session of the store, which is a
    transaction: they work on a copy that replaces the store at \<open>commitTransaction\<close>
    and is dropped at \<open>abortTransaction\<close>.  This is the behaviour of the document store,
    which is not part of the program; it is taken as given, not proved.
  \<^item> \<open>new Date()\<close> is an input of the operation that reads the clock.
\<close>

subsection \<open>The platform\<close>

type_synonym date = int

text \<open>
  The functions of the JavaScript platform that the routes call and whose result depends
  on Unicode tables or on the time zone database.  \<open>localTime\<close> is \<open>LocalTime(t)\<close>, the
  local time value of an instant; \<open>utcTime\<close> is \<open>UTC(t)\<close>, the instant that a local time
  value names.
\<close>

record runtime =
  toLowerCase :: "string \<Rightarrow> string"
  trim :: "string \<Rightarrow> string"
  localTime :: "date \<Rightarrow> int"
  utcTime :: "int \<Rightarrow> date"

subsection \<open>Strings\<close>

text \<open>\<open>a || b\<close> on strings: the empty string is falsy.\<close>

definition orElse :: "string \<Rightarrow> string \<Rightarrow> string" where
  "orElse a b = (if a = [] then b else a)"

definition digitChar :: "nat \<Rightarrow> char" where
  "digitChar d = ''0123456789'' ! d"

fun showNat :: "nat \<Rightarrow> string" where
  "showNat n = (if n < 10 then [digitChar n] else showNat (n div 10) @ [digitChar (n mod 10)])"

definition showInt :: "int \<Rightarrow> string" where
  "showInt i = (if i < 0 then CHR ''-'' # showNat (nat (- i)) else showNat (nat i))"

subsection \<open>Dates\<close>

definition msPerDay :: int where
  "msPerDay = 86400000"

text \<open>\<open>getDay\<close>: the day of the week of the local time, 0 is Sunday, 6 is Saturday.\<close>

definition getDay :: "runtime \<Rightarrow> date \<Rightarrow> int" where
  "getDay rt t = (localTime rt t div msPerDay + 4) mod 7"

text \<open>
  \<open>d.setDate(d.getDate() + k)\<close>: the local time value \<open>k\<close> calendar days later at the same
  time of day (\<open>MakeDate(MakeDay(year, month, date + k), TimeWithinDay(t))\<close>), read as
  an instant.
\<close>

definition addDays :: "runtime \<Rightarrow> date \<Rightarrow> int \<Rightarrow> date" where
  "addDays rt t k = utcTime rt (localTime rt t + k * msPerDay)"

text \<open>
  \<open>d.setHours(h, m, s, ms)\<close>: the local day of \<open>d\<close> with the given time of day
  (\<open>MakeDate(Day(t), MakeTime(h, m, s, ms))\<close>), read as an instant.
\<close>

definition setHours :: "runtime \<Rightarrow> date \<Rightarrow> int \<Rightarrow> int \<Rightarrow> int \<Rightarrow> int \<Rightarrow> date" where
  "setHours rt t h m s ms =
     utcTime rt ((localTime rt t div msPerDay) * msPerDay + h * 3600000 + m * 60000 + s * 1000 + ms)"

text \<open>The local time of day of an instant, and the offset of the zone at an instant.\<close>

definition timeOfDay :: "runtime \<Rightarrow> date \<Rightarrow> int" where
  "timeOfDay rt t = localTime rt t mod msPerDay"

definition zoneOffset :: "runtime \<Rightarrow> date \<Rightarrow> int" where
  "zoneOffset rt t = localTime rt t - t"

subsection \<open>The week window (checkLowLectureMembers, lines 353-367)\<close>

definition daysToPreviousSaturday :: "runtime \<Rightarrow> date \<Rightarrow> int" where
  "daysToPreviousSaturday rt now =
     (let dayOfWeek = getDay rt now;
          d = (dayOfWeek + 1) mod 7
      in if d = 0 then 7 else d)"

definition previousSaturday :: "runtime \<Rightarrow> date \<Rightarrow> date" where
  "previousSaturday rt now = addDays rt now (- daysToPreviousSaturday rt now)"

definition weekStart :: "runtime \<Rightarrow> date \<Rightarrow> date" where
  "weekStart rt now = setHours rt (addDays rt (previousSaturday rt now) (- 7)) 0 0 0 0"

definition weekEnd :: "runtime \<Rightarrow> date \<Rightarrow> date" where
  "weekEnd rt now = setHours rt (addDays rt (previousSaturday rt now) (- 1)) 23 59 59 999"

text \<open>The route recomputes the start of the window itself (lines 608-619).\<close>

definition routeWeekStart :: "runtime \<Rightarrow> date \<Rightarrow> date" where
  "routeWeekStart rt now =
     (let dayOfWeek = getDay rt now;
          d0 = (dayOfWeek + 1) mod 7;
          d = (if d0 = 0 then 7 else d0);
          prevSat = addDays rt now (- d)
      in setHours rt (addDays rt prevSat (- 7)) 0 0 0 0)"

subsection \<open>String literals of the source\<close>

text \<open>
  The Arabic literals of the source, as their UTF-8 bytes; the comment gives the meaning.
\<close>

definition nameUnavailable :: string where
  \<comment> \<open>the default of a student name (name not available)\<close>
  "nameUnavailable =
     [CHR 0xD8, CHR 0xA7, CHR 0xD8, CHR 0xB3, CHR 0xD9, CHR 0x85, CHR 0x20, CHR 0xD8,
      CHR 0xBA, CHR 0xD9, CHR 0x8A, CHR 0xD8, CHR 0xB1, CHR 0x20, CHR 0xD9, CHR 0x85,
      CHR 0xD8, CHR 0xAA, CHR 0xD9, CHR 0x88, CHR 0xD9, CHR 0x81, CHR 0xD8, CHR 0xB1]"

definition levelUnspecified :: string where
  \<comment> \<open>the default of an academic level (not specified)\<close>
  "levelUnspecified =
     [CHR 0xD8, CHR 0xBA, CHR 0xD9, CHR 0x8A, CHR 0xD8, CHR 0xB1, CHR 0x20, CHR 0xD9,
      CHR 0x85, CHR 0xD8, CHR 0xAD, CHR 0xD8, CHR 0xAF, CHR 0xD8, CHR 0xAF]"

definition lowMsg1 :: string where
  \<comment> \<open>the weekly number of lectures of student\<close>
  "lowMsg1 =
     [CHR 0xD8, CHR 0xB9, CHR 0xD8, CHR 0xAF, CHR 0xD8, CHR 0xAF, CHR 0x20, CHR 0xD8,
      CHR 0xA7, CHR 0xD9, CHR 0x84, CHR 0xD9, CHR 0x85, CHR 0xD8, CHR 0xAD, CHR 0xD8,
      CHR 0xA7, CHR 0xD8, CHR 0xB6, CHR 0xD8, CHR 0xB1, CHR 0xD8, CHR 0xA7, CHR 0xD8,
      CHR 0xAA, CHR 0x20, CHR 0xD8, CHR 0xA7, CHR 0xD9, CHR 0x84, CHR 0xD8, CHR 0xA3,
      CHR 0xD8, CHR 0xB3, CHR 0xD8, CHR 0xA8, CHR 0xD9, CHR 0x88, CHR 0xD8, CHR 0xB9,
      CHR 0xD9, CHR 0x8A, CHR 0xD8, CHR 0xA9, CHR 0x20, CHR 0xD9, CHR 0x84, CHR 0xD9,
      CHR 0x84, CHR 0xD8, CHR 0xB7, CHR 0xD8, CHR 0xA7, CHR 0xD9, CHR 0x84, CHR 0xD8,
      CHR 0xA8, CHR 0x20]"

definition lowMsg2 :: string where
  \<comment> \<open>in subject\<close>
  "lowMsg2 =
     [CHR 0x20, CHR 0xD9, CHR 0x81, CHR 0xD9, CHR 0x8A, CHR 0x20, CHR 0xD9, CHR 0x85,
      CHR 0xD8, CHR 0xA7, CHR 0xD8, CHR 0xAF, CHR 0xD8, CHR 0xA9, CHR 0x20]"

definition lowMsg3 :: string where
  \<comment> \<open>is below the minimum (\<close>
  "lowMsg3 =
     [CHR 0x20, CHR 0xD8, CHR 0xA3, CHR 0xD9, CHR 0x82, CHR 0xD9, CHR 0x84, CHR 0x20,
      CHR 0xD9, CHR 0x85, CHR 0xD9, CHR 0x86, CHR 0x20, CHR 0xD8, CHR 0xA7, CHR 0xD9,
      CHR 0x84, CHR 0xD8, CHR 0xAD, CHR 0xD8, CHR 0xAF, CHR 0x20, CHR 0xD8, CHR 0xA7,
      CHR 0xD9, CHR 0x84, CHR 0xD8, CHR 0xA3, CHR 0xD8, CHR 0xAF, CHR 0xD9, CHR 0x86,
      CHR 0xD9, CHR 0x89, CHR 0x20, CHR 0x28]"

definition foundMsg1 :: string where
  \<comment> \<open>found\<close>
  "foundMsg1 =
     [CHR 0xD8, CHR 0xAA, CHR 0xD9, CHR 0x85, CHR 0x20, CHR 0xD8, CHR 0xA7, CHR 0xD9,
      CHR 0x84, CHR 0xD8, CHR 0xB9, CHR 0xD8, CHR 0xAB, CHR 0xD9, CHR 0x88, CHR 0xD8,
      CHR 0xB1, CHR 0x20, CHR 0xD8, CHR 0xB9, CHR 0xD9, CHR 0x84, CHR 0xD9, CHR 0x89,
      CHR 0x20]"

definition foundMsg2 :: string where
  \<comment> \<open>members with lectures below the minimum\<close>
  "foundMsg2 =
     [CHR 0x20, CHR 0xD8, CHR 0xB9, CHR 0xD8, CHR 0xB6, CHR 0xD9, CHR 0x88, CHR 0x20,
      CHR 0xD9, CHR 0x84, CHR 0xD8, CHR 0xAF, CHR 0xD9, CHR 0x8A, CHR 0xD9, CHR 0x87,
      CHR 0xD9, CHR 0x85, CHR 0x20, CHR 0xD9, CHR 0x85, CHR 0xD8, CHR 0xAD, CHR 0xD8,
      CHR 0xA7, CHR 0xD8, CHR 0xB6, CHR 0xD8, CHR 0xB1, CHR 0xD8, CHR 0xA7, CHR 0xD8,
      CHR 0xAA, CHR 0x20, CHR 0xD8, CHR 0xA3, CHR 0xD9, CHR 0x82, CHR 0xD9, CHR 0x84,
      CHR 0x20, CHR 0xD9, CHR 0x85, CHR 0xD9, CHR 0x86, CHR 0x20, CHR 0xD8, CHR 0xA7,
      CHR 0xD9, CHR 0x84, CHR 0xD8, CHR 0xAD, CHR 0xD8, CHR 0xAF, CHR 0x20, CHR 0xD8,
      CHR 0xA7, CHR 0xD9, CHR 0x84, CHR 0xD8, CHR 0xA3, CHR 0xD8, CHR 0xAF, CHR 0xD9,
      CHR 0x86, CHR 0xD9, CHR 0x89]"

definition allMeetMsg :: string where
  \<comment> \<open>all members reach the weekly minimum\<close>
  "allMeetMsg =
     [CHR 0xD8, CHR 0xAC, CHR 0xD9, CHR 0x85, CHR 0xD9, CHR 0x8A, CHR 0xD8, CHR 0xB9,
      CHR 0x20, CHR 0xD8, CHR 0xA7, CHR 0xD9, CHR 0x84, CHR 0xD8, CHR 0xA3, CHR 0xD8,
      CHR 0xB9, CHR 0xD8, CHR 0xB6, CHR 0xD8, CHR 0xA7, CHR 0xD8, CHR 0xA1, CHR 0x20,
      CHR 0xD9, CHR 0x8A, CHR 0xD8, CHR 0xAD, CHR 0xD9, CHR 0x82, CHR 0xD9, CHR 0x82,
      CHR 0xD9, CHR 0x88, CHR 0xD9, CHR 0x86, CHR 0x20, CHR 0xD8, CHR 0xA7, CHR 0xD9,
      CHR 0x84, CHR 0xD8, CHR 0xAD, CHR 0xD8, CHR 0xAF, CHR 0x20, CHR 0xD8, CHR 0xA7,
      CHR 0xD9, CHR 0x84, CHR 0xD8, CHR 0xA3, CHR 0xD8, CHR 0xAF, CHR 0xD9, CHR 0x86,
      CHR 0xD9, CHR 0x89, CHR 0x20, CHR 0xD9, CHR 0x85, CHR 0xD9, CHR 0x86, CHR 0x20,
      CHR 0xD8, CHR 0xA7, CHR 0xD9, CHR 0x84, CHR 0xD9, CHR 0x85, CHR 0xD8, CHR 0xAD,
      CHR 0xD8, CHR 0xA7, CHR 0xD8, CHR 0xB6, CHR 0xD8, CHR 0xB1, CHR 0xD8, CHR 0xA7,
      CHR 0xD8, CHR 0xAA, CHR 0x20, CHR 0xD8, CHR 0xA7, CHR 0xD9, CHR 0x84, CHR 0xD8,
      CHR 0xA3, CHR 0xD8, CHR 0xB3, CHR 0xD8, CHR 0xA8, CHR 0xD9, CHR 0x88, CHR 0xD8,
      CHR 0xB9, CHR 0xD9, CHR 0x8A, CHR 0xD8, CHR 0xA9]"

definition addedMsg1 :: string where
  \<comment> \<open>a new lecture was added by\<close>
  "addedMsg1 =
     [CHR 0xD8, CHR 0xAA, CHR 0xD9, CHR 0x85, CHR 0xD8, CHR 0xAA, CHR 0x20, CHR 0xD8,
      CHR 0xA5, CHR 0xD8, CHR 0xB6, CHR 0xD8, CHR 0xA7, CHR 0xD9, CHR 0x81, CHR 0xD8,
      CHR 0xA9, CHR 0x20, CHR 0xD9, CHR 0x85, CHR 0xD8, CHR 0xAD, CHR 0xD8, CHR 0xA7,
      CHR 0xD8, CHR 0xB6, CHR 0xD8, CHR 0xB1, CHR 0xD8, CHR 0xA9, CHR 0x20, CHR 0xD8,
      CHR 0xAC, CHR 0xD8, CHR 0xAF, CHR 0xD9, CHR 0x8A, CHR 0xD8, CHR 0xAF, CHR 0xD8,
      CHR 0xA9, CHR 0x20, CHR 0xD8, CHR 0xA8, CHR 0xD9, CHR 0x88, CHR 0xD8, CHR 0xA7,
      CHR 0xD8, CHR 0xB3, CHR 0xD8, CHR 0xB7, CHR 0xD8, CHR 0xA9, CHR 0x20]"

subsection \<open>Documents\<close>

text \<open>
  The documents of the four collections, with the fields the lecture routes read or
  write.  Array paths of a document are lists: an absent array path reads as the empty
  list, so the \<open>!Array.isArray(..)\<close> disjunct of a guard of the source is the
  empty-list case, and \<open>user.lectures = []\<close> changes nothing.  An absent string reads as
  the empty string, except \<open>studentEmail\<close> of a lecture, which the source tests for
  presence.  \<open>lowLectureWeekCount\<close> is a count (the source writes only 0 and successors to
  it); an absent count reads as 0.
\<close>

record lecture =
  lecture_id :: string
  lecture_link :: string
  lecture_name :: string
  lecture_subject :: string
  lecture_studentEmail :: "string option"
  lecture_createdAt :: date

record subject =
  subject_name :: string
  subject_minLectures :: int

record student =
  student_name :: string
  student_email :: string
  student_academicLevel :: string
  student_subjects :: "subject list"

record user =
  user_id :: string
  user_email :: string
  user_role :: string
  user_students :: "student list"
  user_lectures :: "lecture list"
  user_lectureCount :: nat
  user_lowLectureWeekCount :: nat
  user_lastLowLectureWeek :: "date option"

record joinRequest =
  jr_id :: string
  jr_email :: string
  jr_name :: string
  jr_status :: string
  jr_volunteerHours :: nat

record lectureDetails =
  ld_link :: "string option"
  ld_name :: "string option"
  ld_subject :: "string option"
  ld_studentEmail :: "string option"
  ld_minLectures :: "int option"
  ld_currentLectures :: "nat option"

record notification =
  notif_userId :: string
  notif_message :: string
  notif_type :: string
  notif_lectureDetails :: lectureDetails

text \<open>The members of a result; a stored report holds the same objects.\<close>

record underTargetSubject =
  uts_name :: string
  uts_minLectures :: int
  uts_deliveredLectures :: nat

record underTargetStudent =
  ust_studentName :: string
  ust_studentEmail :: string
  ust_academicLevel :: string
  ust_underTargetSubjects :: "underTargetSubject list"

text \<open>
  A lecture as a member lists it: \<open>_id.toString()\<close> is the id and
  \<open>createdAt.toISOString()\<close> is represented by the instant it prints.
\<close>

record lectureView =
  lv_id :: string
  lv_name :: string
  lv_subject :: string
  lv_studentEmail :: "string option"
  lv_link :: string
  lv_createdAt :: date

record member =
  member_id :: string
  member_name :: string
  member_email :: string
  member_lowLectureWeekCount :: nat
  member_underTargetStudents :: "underTargetStudent list"
  member_lectures :: "lectureView list"

record report =
  report_weekStart :: date
  report_weekEnd :: date
  report_members :: "member list"
  report_totalUsersProcessed :: nat
  report_membersWithLowLectures :: nat
  report_createdAt :: date

record store =
  users :: "user list"
  joinRequests :: "joinRequest list"
  notifications :: "notification list"
  reports :: "report list"

record debugInfo =
  debug_totalUsersProcessed :: nat
  debug_weekStart :: date
  debug_weekEnd :: date
  debug_membersWithLowLectures :: nat

record result =
  res_success :: bool
  res_message :: string
  res_members :: "member list"
  res_debug :: debugInfo

subsection \<open>Store operations that may fail, and the session\<close>

datatype error = StoreError

type_synonym faults = "nat option"

fun storeOp :: "faults \<Rightarrow> error + faults" where
  "storeOp None = Inr None"
| "storeOp (Some 0) = Inl StoreError"
| "storeOp (Some (Suc k)) = Inr (Some k)"

definition bindE :: "error + 'a \<Rightarrow> ('a \<Rightarrow> error + 'b) \<Rightarrow> error + 'b" where
  "bindE m k = (case m of Inl e \<Rightarrow> Inl e | Inr x \<Rightarrow> k x)"

text \<open>A \<open>for\<close> loop whose body may throw: the first error ends it.\<close>

fun foldE :: "('a \<Rightarrow> 's \<Rightarrow> error + 's) \<Rightarrow> 'a list \<Rightarrow> 's \<Rightarrow> error + 's" where
  "foldE f [] s = Inr s"
| "foldE f (x # xs) s = bindE (f x s) (foldE f xs)"

text \<open>
  A session (a transaction) works on its own copy of the store: its reads see its own
  writes, and the copy replaces the store when the transaction commits.
\<close>

type_synonym session = "store \<times> faults"

definition await :: "session \<Rightarrow> error + session" where
  "await \<sigma> = bindE (storeOp (snd \<sigma>)) (\<lambda>f. Inr (fst \<sigma>, f))"

definition saveUser :: "user \<Rightarrow> store \<Rightarrow> store" where
  "saveUser u db = db\<lparr>users := map (\<lambda>v. if user_id v = user_id u then u else v) (users db)\<rparr>"

definition saveJoinRequest :: "joinRequest \<Rightarrow> store \<Rightarrow> store" where
  "saveJoinRequest j db =
     db\<lparr>joinRequests := map (\<lambda>v. if jr_id v = jr_id j then j else v) (joinRequests db)\<rparr>"

definition saveNotification :: "notification \<Rightarrow> store \<Rightarrow> store" where
  "saveNotification n db = db\<lparr>notifications := notifications db @ [n]\<rparr>"

definition saveReport :: "report \<Rightarrow> store \<Rightarrow> store" where
  "saveReport r db = db\<lparr>reports := reports db @ [r]\<rparr>"

text \<open>An awaited write (\<open>doc.save({ session })\<close>, \<open>deleteMany\<close>): one store operation, then its effect.\<close>

definition awaitWrite :: "(store \<Rightarrow> store) \<Rightarrow> session \<Rightarrow> error + session" where
  "awaitWrite w \<sigma> = bindE (await \<sigma>) (\<lambda>\<sigma>'. Inr (w (fst \<sigma>'), snd \<sigma>'))"

subsection \<open>Queries\<close>

definition findOneJoinRequest :: "string \<Rightarrow> joinRequest list \<Rightarrow> joinRequest option" where
  "findOneJoinRequest email js = find (\<lambda>j. jr_email j = email) js"

definition lowLectureType :: string where
  "lowLectureType = ''low_lecture_count_per_subject''"

text \<open>
  The filter \<open>{ userId, type: 'low_lecture_count_per_subject', 'lectureDetails.subject',
  'lectureDetails.studentEmail' }\<close> of \<open>Notification.findOne\<close> and
  \<open>Notification.deleteMany\<close>.
\<close>

definition lowNotificationFilter :: "string \<Rightarrow> string \<Rightarrow> string \<Rightarrow> notification \<Rightarrow> bool" where
  "lowNotificationFilter uid subj email n =
     (notif_userId n = uid \<and> notif_type n = lowLectureType
      \<and> ld_subject (notif_lectureDetails n) = Some subj
      \<and> ld_studentEmail (notif_lectureDetails n) = Some email)"

text \<open>\<open>LowLectureReport.findOne({ weekStart }).sort({ createdAt: -1 })\<close>.\<close>

fun latestReport :: "report list \<Rightarrow> report option" where
  "latestReport [] = None"
| "latestReport (r # rs) =
     (case latestReport rs of
        None \<Rightarrow> Some r
      | Some r' \<Rightarrow> if report_createdAt r < report_createdAt r' then Some r' else Some r)"

definition findLatestReport :: "date \<Rightarrow> report list \<Rightarrow> report option" where
  "findLatestReport wkStart rs = latestReport (filter (\<lambda>r. report_weekStart r = wkStart) rs)"

subsection \<open>checkLowLectureMembers (lines 343-603)\<close>

text \<open>The predicate of \<open>user.lectures.filter\<close> (lines 428-447).\<close>

definition lectureMatches :: "runtime \<Rightarrow> date \<Rightarrow> date \<Rightarrow> student \<Rightarrow> subject \<Rightarrow> lecture \<Rightarrow> bool" where
  "lectureMatches rt wkStart wkEnd student subject lecture =
     (let matchesTimeFrame =
            (wkStart \<le> lecture_createdAt lecture \<and> lecture_createdAt lecture \<le> wkEnd);
          matchesStudent =
            (case lecture_studentEmail lecture of
               None \<Rightarrow> False
             | Some e \<Rightarrow> e \<noteq> [] \<and> trim rt (toLowerCase rt e) = trim rt (toLowerCase rt (student_email student)));
          matchesSubject = (lecture_subject lecture = subject_name subject)
      in matchesTimeFrame \<and> matchesStudent \<and> matchesSubject)"

definition lectureCount :: "runtime \<Rightarrow> date \<Rightarrow> date \<Rightarrow> user \<Rightarrow> student \<Rightarrow> subject \<Rightarrow> nat" where
  "lectureCount rt wkStart wkEnd user student subject =
     length (filter (lectureMatches rt wkStart wkEnd student subject) (user_lectures user))"

definition lowLectureNotification :: "runtime \<Rightarrow> user \<Rightarrow> student \<Rightarrow> subject \<Rightarrow> nat \<Rightarrow> notification" where
  "lowLectureNotification rt user student subject count =
     \<lparr>notif_userId = user_id user,
      notif_message = lowMsg1 @ student_name student @ lowMsg2 @ subject_name subject @ lowMsg3
        @ showNat count @ ''/'' @ showInt (subject_minLectures subject) @ '')'',
      notif_type = lowLectureType,
      notif_lectureDetails =
        \<lparr>ld_link = None, ld_name = None,
         ld_subject = Some (subject_name subject),
         ld_studentEmail = Some (trim rt (toLowerCase rt (student_email student))),
         ld_minLectures = Some (subject_minLectures subject),
         ld_currentLectures = Some count\<rparr>\<rparr>"

text \<open>
  The body of the loop over \<open>student.subjects\<close> (lines 414-496).  Its state is
  \<open>studentUnderTargetSubjects\<close> and the session.
\<close>

definition processSubject ::
  "runtime \<Rightarrow> bool \<Rightarrow> date \<Rightarrow> date \<Rightarrow> user \<Rightarrow> student \<Rightarrow> subject
   \<Rightarrow> underTargetSubject list \<times> session \<Rightarrow> error + underTargetSubject list \<times> session" where
  "processSubject rt isCronJob wkStart wkEnd user student subject = (\<lambda>(studentUnderTargetSubjects, \<sigma>).
     let count = lectureCount rt wkStart wkEnd user student subject in
     if int count < subject_minLectures subject then
       let pushed = studentUnderTargetSubjects @
             [\<lparr>uts_name = subject_name subject,
               uts_minLectures = subject_minLectures subject,
               uts_deliveredLectures = count\<rparr>]
       in if isCronJob then
            bindE (await \<sigma>) (\<lambda>\<sigma>1.
              case find (lowNotificationFilter (user_id user) (subject_name subject)
                          (trim rt (toLowerCase rt (student_email student))))
                        (notifications (fst \<sigma>1)) of
                Some notificationExists \<Rightarrow> Inr (pushed, \<sigma>1)
              | None \<Rightarrow>
                  bindE (awaitWrite (saveNotification (lowLectureNotification rt user student subject count)) \<sigma>1)
                    (\<lambda>\<sigma>2. Inr (pushed, \<sigma>2)))
          else Inr (pushed, \<sigma>)
     else Inr (studentUnderTargetSubjects, \<sigma>))"

text \<open>
  The body of the loop over \<open>user.students\<close> (lines 397-509).  Its state is
  \<open>userUnderTargetStudents\<close> and the session.
\<close>

definition processStudent ::
  "runtime \<Rightarrow> bool \<Rightarrow> date \<Rightarrow> date \<Rightarrow> user \<Rightarrow> student
   \<Rightarrow> underTargetStudent list \<times> session \<Rightarrow> error + underTargetStudent list \<times> session" where
  "processStudent rt isCronJob wkStart wkEnd user student = (\<lambda>(userUnderTargetStudents, \<sigma>).
     if student_subjects student = [] then Inr (userUnderTargetStudents, \<sigma>)
     else
       bindE (foldE (processSubject rt isCronJob wkStart wkEnd user student) (student_subjects student) ([], \<sigma>))
         (\<lambda>(studentUnderTargetSubjects, \<sigma>').
            if studentUnderTargetSubjects \<noteq> [] then
              Inr (userUnderTargetStudents @
                     [\<lparr>ust_studentName = orElse (student_name student) nameUnavailable,
                       ust_studentEmail = trim rt (toLowerCase rt (student_email student)),
                       ust_academicLevel = orElse (student_academicLevel student) levelUnspecified,
                       ust_underTargetSubjects = studentUnderTargetSubjects\<rparr>], \<sigma>')
            else Inr (userUnderTargetStudents, \<sigma>')))"

definition lectureView :: "lecture \<Rightarrow> lectureView" where
  "lectureView lecture =
     \<lparr>lv_id = lecture_id lecture,
      lv_name = lecture_name lecture,
      lv_subject = lecture_subject lecture,
      lv_studentEmail = lecture_studentEmail lecture,
      lv_link = lecture_link lecture,
      lv_createdAt = lecture_createdAt lecture\<rparr>"

text \<open>
  The body of the loop over the users (lines 371-548), in three parts.  Its state is
  \<open>lowLectureMembers\<close> and the session.
\<close>

text \<open>Lines 385-389 and 541-546: the counter of a volunteer who meets the requirements.\<close>

definition resetCounter :: "bool \<Rightarrow> user \<Rightarrow> session \<Rightarrow> error + session" where
  "resetCounter isCronJob user \<sigma> =
     (if isCronJob \<and> 0 < user_lowLectureWeekCount user then
        awaitWrite (saveUser (user\<lparr>user_lowLectureWeekCount := 0, user_lastLowLectureWeek := None\<rparr>)) \<sigma>
      else Inr \<sigma>)"

text \<open>
  Lines 512-537: the volunteer has under-target students.  The counter is incremented on
  the document in memory before the member is built from it.
\<close>

definition flagUser ::
  "bool \<Rightarrow> date \<Rightarrow> user \<Rightarrow> joinRequest \<Rightarrow> underTargetStudent list
   \<Rightarrow> member list \<times> session \<Rightarrow> error + member list \<times> session" where
  "flagUser isCronJob wkStart user joinRequest userUnderTargetStudents = (\<lambda>(lowLectureMembers, \<sigma>).
     let counting =
           (isCronJob \<and>
            (case user_lastLowLectureWeek user of None \<Rightarrow> True | Some w \<Rightarrow> w < wkStart));
         user' =
           (if counting then
              user\<lparr>user_lowLectureWeekCount := user_lowLectureWeekCount user + 1,
                   user_lastLowLectureWeek := Some wkStart\<rparr>
            else user)
     in bindE (if counting then awaitWrite (saveUser user') \<sigma> else Inr \<sigma>)
          (\<lambda>\<sigma>'. Inr (lowLectureMembers @
                   [\<lparr>member_id = user_id user',
                     member_name = orElse (jr_name joinRequest) (user_email user'),
                     member_email = user_email user',
                     member_lowLectureWeekCount = user_lowLectureWeekCount user',
                     member_underTargetStudents = userUnderTargetStudents,
                     member_lectures = map lectureView (user_lectures user')\<rparr>], \<sigma>')))"

text \<open>Lines 381-547: a volunteer with an approved join request.\<close>

definition evaluateUser ::
  "runtime \<Rightarrow> bool \<Rightarrow> date \<Rightarrow> date \<Rightarrow> user \<Rightarrow> joinRequest
   \<Rightarrow> member list \<times> session \<Rightarrow> error + member list \<times> session" where
  "evaluateUser rt isCronJob wkStart wkEnd user joinRequest = (\<lambda>(lowLectureMembers, \<sigma>).
     if user_students user = [] then
       bindE (resetCounter isCronJob user \<sigma>) (\<lambda>\<sigma>'. Inr (lowLectureMembers, \<sigma>'))
     else
       bindE (foldE (processStudent rt isCronJob wkStart wkEnd user) (user_students user) ([], \<sigma>))
         (\<lambda>(userUnderTargetStudents, \<sigma>1).
            if userUnderTargetStudents \<noteq> [] then
              flagUser isCronJob wkStart user joinRequest userUnderTargetStudents
                (lowLectureMembers, \<sigma>1)
            else
              bindE (resetCounter isCronJob user \<sigma>1) (\<lambda>\<sigma>'. Inr (lowLectureMembers, \<sigma>'))))"

text \<open>Lines 371-379: the join request of the volunteer decides whether it is evaluated.\<close>

definition processUser ::
  "runtime \<Rightarrow> bool \<Rightarrow> date \<Rightarrow> date \<Rightarrow> user \<Rightarrow> member list \<times> session \<Rightarrow> error + member list \<times> session" where
  "processUser rt isCronJob wkStart wkEnd user = (\<lambda>(lowLectureMembers, \<sigma>).
     bindE (await \<sigma>) (\<lambda>\<sigma>1.
       case findOneJoinRequest (trim rt (toLowerCase rt (user_email user))) (joinRequests (fst \<sigma>1)) of
         None \<Rightarrow> Inr (lowLectureMembers, \<sigma>1)
       | Some joinRequest \<Rightarrow>
           if jr_status joinRequest \<noteq> ''Approved'' then Inr (lowLectureMembers, \<sigma>1)
           else evaluateUser rt isCronJob wkStart wkEnd user joinRequest (lowLectureMembers, \<sigma>1)))"

definition resultMessage :: "nat \<Rightarrow> string" where
  "resultMessage n = (if 0 < n then foundMsg1 @ showNat n @ foundMsg2 else allMeetMsg)"

text \<open>
  The \<open>try\<close> block: \<open>now\<close> is the clock at line 353 and \<open>stamp\<close> the clock at line 559.
\<close>

definition runEvaluation :: "runtime \<Rightarrow> bool \<Rightarrow> date \<Rightarrow> date \<Rightarrow> session \<Rightarrow> error + result \<times> session" where
  "runEvaluation rt isCronJob now stamp \<sigma> =
     bindE (await \<sigma>) (\<lambda>\<sigma>1.
       let found = filter (\<lambda>u. user_role u = ''user'') (users (fst \<sigma>1));
           wkStart = weekStart rt now;
           wkEnd = weekEnd rt now
       in bindE (foldE (processUser rt isCronJob wkStart wkEnd) found ([], \<sigma>1))
            (\<lambda>(lowLectureMembers, \<sigma>2).
               bindE (if isCronJob then
                        awaitWrite (saveReport
                          \<lparr>report_weekStart = wkStart,
                           report_weekEnd = wkEnd,
                           report_members = lowLectureMembers,
                           report_totalUsersProcessed = length found,
                           report_membersWithLowLectures = length lowLectureMembers,
                           report_createdAt = stamp\<rparr>) \<sigma>2
                      else Inr \<sigma>2)
                 (\<lambda>\<sigma>3. bindE (await \<sigma>3) (\<lambda>\<sigma>4.
                    Inr (\<lparr>res_success = True,
                          res_message = resultMessage (length lowLectureMembers),
                          res_members = lowLectureMembers,
                          res_debug = \<lparr>debug_totalUsersProcessed = length found,
                                       debug_weekStart = wkStart,
                                       debug_weekEnd = wkEnd,
                                       debug_membersWithLowLectures = length lowLectureMembers\<rparr>\<rparr>,
                         \<sigma>4)))))"

text \<open>
  The whole function.  \<open>startSession\<close> is awaited before the \<open>try\<close>; the last store
  operation of the \<open>try\<close> block is \<open>commitTransaction\<close>, which publishes the copy of the
  session; the \<open>catch\<close> aborts the transaction, which drops the copy, and rethrows.
\<close>

definition checkLowLectureMembers ::
  "runtime \<Rightarrow> bool \<Rightarrow> date \<Rightarrow> date \<Rightarrow> faults \<Rightarrow> store \<Rightarrow> (error + result) \<times> store" where
  "checkLowLectureMembers rt isCronJob now stamp f db =
     (case storeOp f of
        Inl e \<Rightarrow> (Inl e, db)
      | Inr f1 \<Rightarrow>
          (case runEvaluation rt isCronJob now stamp (db, f1) of
             Inl e \<Rightarrow> (Inl e, db)
           | Inr (res, \<sigma>) \<Rightarrow> (Inr res, fst \<sigma>)))"

subsection \<open>Responses of the routes\<close>

text \<open>
  The status of a response and what its body carries.  The message text of a 4xx
  response is represented by the constructor that names the failed check.  \<open>Unhandled\<close>
  is an error thrown outside the \<open>try\<close> of a handler.
\<close>

datatype rejection =
    MissingFields
  | InvalidLink
  | InvalidName
  | InvalidSubject
  | InvalidStudentEmail
  | StudentNotFound

datatype missing = UserMissing | JoinRequestMissing

datatype response =
    Unauthorized
  | Forbidden
  | BadRequest rejection
  | NotFound missing
  | ServerError error
  | Unhandled error
  | Json result
  | LectureAdded lecture nat nat

subsection \<open>GET /low-lecture-members (lines 606-653)\<close>

text \<open>
  \<open>auth\<close> is what \<open>authMiddleware\<close> decodes from the token (user id and role), \<open>None\<close>
  when the token is missing or invalid.  \<open>now\<close> is the clock of the route, \<open>now'\<close> and
  \<open>stamp\<close> are the clocks of the evaluator it may call.
\<close>

definition getLowLectureMembers ::
  "runtime \<Rightarrow> (string \<times> string) option \<Rightarrow> date \<Rightarrow> date \<Rightarrow> date \<Rightarrow> faults \<Rightarrow> store \<Rightarrow> response \<times> store" where
  "getLowLectureMembers rt auth now now' stamp f db =
     (case auth of
        None \<Rightarrow> (Unauthorized, db)
      | Some (userId, userRole) \<Rightarrow>
          if userRole \<noteq> ''admin'' then (Forbidden, db)
          else
            (case storeOp f of
               Inl e \<Rightarrow> (ServerError e, db)
             | Inr f1 \<Rightarrow>
                 (case findLatestReport (routeWeekStart rt now) (reports db) of
                    Some report \<Rightarrow>
                      (Json \<lparr>res_success = True,
                             res_message = resultMessage (length (report_members report)),
                             res_members = report_members report,
                             res_debug = \<lparr>debug_totalUsersProcessed = report_totalUsersProcessed report,
                                          debug_weekStart = report_weekStart report,
                                          debug_weekEnd = report_weekEnd report,
                                          debug_membersWithLowLectures = report_membersWithLowLectures report\<rparr>\<rparr>,
                       db)
                  | None \<Rightarrow>
                      (case checkLowLectureMembers rt False now' stamp f1 db of
                         (Inl e, db') \<Rightarrow> (ServerError e, db')
                       | (Inr res, db') \<Rightarrow> (Json res, db')))))"

subsection \<open>POST / : add a lecture (lines 42-171)\<close>

record lectureRequest =
  req_link :: string
  req_name :: string
  req_subject :: string
  req_studentEmail :: string

text \<open>The checks of the \<open>validator\<close> library are parameters of the route.\<close>

record validators =
  isURL :: "string \<Rightarrow> bool"
  isEmail :: "string \<Rightarrow> bool"
  isLength :: "string \<Rightarrow> nat \<Rightarrow> nat \<Rightarrow> bool"

definition deleteLowNotifications :: "string \<Rightarrow> string \<Rightarrow> string \<Rightarrow> store \<Rightarrow> store" where
  "deleteLowNotifications uid subj email db =
     db\<lparr>notifications := filter (\<lambda>n. \<not> lowNotificationFilter uid subj email n) (notifications db)\<rparr>"

definition lectureAddedNotification :: "string \<Rightarrow> user \<Rightarrow> lectureRequest \<Rightarrow> string \<Rightarrow> notification" where
  "lectureAddedNotification userId user req normalizedStudentEmail =
     \<lparr>notif_userId = userId,
      notif_message = addedMsg1 @ user_email user @ '': '' @ req_name req @ '' ('' @ req_subject req
        @ '') - '' @ req_link req,
      notif_type = ''lecture_added'',
      notif_lectureDetails =
        \<lparr>ld_link = Some (req_link req), ld_name = Some (req_name req),
         ld_subject = Some (req_subject req),
         ld_studentEmail = Some normalizedStudentEmail,
         ld_minLectures = None, ld_currentLectures = None\<rparr>\<rparr>"

text \<open>
  The \<open>try\<close> block.  An early \<open>return\<close> awaits \<open>abortTransaction\<close> and answers
  (\<open>Inl\<close>); the last line answers after \<open>commitTransaction\<close> (\<open>Inr\<close>, with the
  session).  \<open>newId\<close> is the \<open>_id\<close> the store gives the pushed lecture and \<open>now\<close> the
  clock at line 116.
\<close>

definition reject :: "response \<Rightarrow> session \<Rightarrow> error + (response + response \<times> session)" where
  "reject r \<sigma> = bindE (await \<sigma>) (\<lambda>\<sigma>'. Inr (Inl r))"

definition postLecture ::
  "runtime \<Rightarrow> validators \<Rightarrow> string \<Rightarrow> lectureRequest \<Rightarrow> string \<Rightarrow> date \<Rightarrow> session
   \<Rightarrow> error + (response + response \<times> session)" where
  "postLecture rt v userId req newId now \<sigma> =
     (let link = req_link req; name = req_name req; subject = req_subject req;
          studentEmail = req_studentEmail req
      in
      if link = [] \<or> name = [] \<or> subject = [] \<or> studentEmail = [] then
        reject (BadRequest MissingFields) \<sigma>
      else if \<not> isURL v link then reject (BadRequest InvalidLink) \<sigma>
      else if \<not> isLength v name 1 100 then reject (BadRequest InvalidName) \<sigma>
      else if \<not> isLength v subject 1 100 then reject (BadRequest InvalidSubject) \<sigma>
      else if \<not> isEmail v studentEmail then reject (BadRequest InvalidStudentEmail) \<sigma>
      else
        let normalizedStudentEmail = trim rt (toLowerCase rt studentEmail) in
        bindE (await \<sigma>) (\<lambda>\<sigma>1.
          case find (\<lambda>u. user_id u = userId) (users (fst \<sigma>1)) of
            None \<Rightarrow> reject (NotFound UserMissing) \<sigma>1
          | Some user \<Rightarrow>
              if \<not> list_ex (\<lambda>s. toLowerCase rt (student_email s) = normalizedStudentEmail)
                     (user_students user)
              then reject (BadRequest StudentNotFound) \<sigma>1
              else
                bindE (await \<sigma>1) (\<lambda>\<sigma>2.
                  case findOneJoinRequest (trim rt (toLowerCase rt (user_email user)))
                         (joinRequests (fst \<sigma>2)) of
                    None \<Rightarrow> reject (NotFound JoinRequestMissing) \<sigma>2
                  | Some joinRequest \<Rightarrow>
                      let lecture =
                            \<lparr>lecture_id = newId, lecture_link = link, lecture_name = name,
                             lecture_subject = subject,
                             lecture_studentEmail = Some normalizedStudentEmail,
                             lecture_createdAt = now\<rparr>;
                          user' = user\<lparr>user_lectures := user_lectures user @ [lecture],
                                       user_lectureCount := user_lectureCount user + 1\<rparr>;
                          joinRequest' =
                            joinRequest\<lparr>jr_volunteerHours := jr_volunteerHours joinRequest + 2\<rparr>
                      in
                      bindE (awaitWrite (deleteLowNotifications userId subject normalizedStudentEmail) \<sigma>2)
                        (\<lambda>\<sigma>3.
                      bindE (awaitWrite (saveNotification
                               (lectureAddedNotification userId user req normalizedStudentEmail)) \<sigma>3)
                        (\<lambda>\<sigma>4.
                      bindE (awaitWrite (saveUser user') \<sigma>4) (\<lambda>\<sigma>5.
                      bindE (awaitWrite (saveJoinRequest joinRequest') \<sigma>5) (\<lambda>\<sigma>6.
                      bindE (await \<sigma>6) (\<lambda>\<sigma>7.
                        Inr (Inr (LectureAdded lecture (user_lectureCount user')
                                    (jr_volunteerHours joinRequest'), \<sigma>7))))))))))"

text \<open>
  The handler: \<open>startSession\<close> is awaited before the \<open>try\<close>; the \<open>catch\<close> aborts the
  transaction and answers 500.
\<close>

definition addLecture ::
  "runtime \<Rightarrow> validators \<Rightarrow> (string \<times> string) option \<Rightarrow> lectureRequest \<Rightarrow> string \<Rightarrow> date \<Rightarrow> faults
   \<Rightarrow> store \<Rightarrow> response \<times> store" where
  "addLecture rt v auth req newId now f db =
     (case auth of
        None \<Rightarrow> (Unauthorized, db)
      | Some (userId, userRole) \<Rightarrow>
          (case storeOp f of
             Inl e \<Rightarrow> (Unhandled e, db)
           | Inr f0 \<Rightarrow>
               (case postLecture rt v userId req newId now (db, f0) of
                  Inl e \<Rightarrow> (ServerError e, db)
                | Inr (Inl r) \<Rightarrow> (r, db)
                | Inr (Inr (r, \<sigma>)) \<Rightarrow> (r, fst \<sigma>))))"

subsection \<open>Zones\<close>

text \<open>
  What the theorems on the week window ask of the zone.  A local time that is set names
  an instant of the calendar day it was set to (a skipped local time moves within its
  day); every Saturday has its 00:00:00.000 and every Friday its 23:59:59.999; and the
  local clock is never set back by a day or more.  \<open>Africa/Cairo\<close> changes its clock at
  the start of a Friday and at the end of a Thursday.
\<close>

definition regularZone :: "runtime \<Rightarrow> bool" where
  "regularZone rt =
     ((\<forall>l. localTime rt (utcTime rt l) div msPerDay = l div msPerDay)
      \<and> (\<forall>d. (d + 4) mod 7 = 6 \<longrightarrow> localTime rt (utcTime rt (d * msPerDay)) = d * msPerDay)
      \<and> (\<forall>d. (d + 4) mod 7 = 5 \<longrightarrow>
               localTime rt (utcTime rt (d * msPerDay + (msPerDay - 1)))
               = d * msPerDay + (msPerDay - 1))
      \<and> (\<forall>t u. localTime rt t + msPerDay \<le> localTime rt u \<longrightarrow> t < u))"

subsection \<open>The evaluation as a function of the documents\<close>

text \<open>
  What one run computes, written without the loops and the session, in the words of the
  specification: the delivered count of a (student, subject) pair, the under-target
  entries of a student, the under-target students of a volunteer, the flagged members.
  The theorems below prove that \<open>checkLowLectureMembers\<close> computes these.

  \<open>sameStudentEmail\<close> is the comparison of the source (the lecture has a non-empty
  \<open>studentEmail\<close>, and both sides are equal once lower-cased and trimmed);
  \<open>claimedSameEmail\<close> is the comparison as claim C1 words it (equal up to case).
\<close>

definition sameStudentEmail :: "runtime \<Rightarrow> string option \<Rightarrow> string \<Rightarrow> bool" where
  "sameStudentEmail rt lectureEmail studentEmail =
     (case lectureEmail of
        None \<Rightarrow> False
      | Some e \<Rightarrow> e \<noteq> [] \<and> trim rt (toLowerCase rt e) = trim rt (toLowerCase rt studentEmail))"


definition deliveredInWeek ::
  "(string option \<Rightarrow> string \<Rightarrow> bool) \<Rightarrow> date \<Rightarrow> date \<Rightarrow> user \<Rightarrow> student \<Rightarrow> subject \<Rightarrow> nat" where
  "deliveredInWeek same wkStart wkEnd u st sb =
     length [l \<leftarrow> user_lectures u.
               wkStart \<le> lecture_createdAt l \<and> lecture_createdAt l \<le> wkEnd
               \<and> same (lecture_studentEmail l) (student_email st)
               \<and> lecture_subject l = subject_name sb]"

definition underTargetEntry :: "subject \<Rightarrow> nat \<Rightarrow> underTargetSubject" where
  "underTargetEntry sb n =
     \<lparr>uts_name = subject_name sb, uts_minLectures = subject_minLectures sb,
      uts_deliveredLectures = n\<rparr>"

definition underTargetSubjectsOf ::
  "(string option \<Rightarrow> string \<Rightarrow> bool) \<Rightarrow> date \<Rightarrow> date \<Rightarrow> user \<Rightarrow> student \<Rightarrow> underTargetSubject list" where
  "underTargetSubjectsOf same wkStart wkEnd u st =
     [underTargetEntry sb (deliveredInWeek same wkStart wkEnd u st sb).
        sb \<leftarrow> student_subjects st,
        int (deliveredInWeek same wkStart wkEnd u st sb) < subject_minLectures sb]"

definition underTargetStudentsOf ::
  "runtime \<Rightarrow> (string option \<Rightarrow> string \<Rightarrow> bool) \<Rightarrow> date \<Rightarrow> date \<Rightarrow> user \<Rightarrow> underTargetStudent list" where
  "underTargetStudentsOf rt same wkStart wkEnd u =
     [\<lparr>ust_studentName = orElse (student_name st) nameUnavailable,
       ust_studentEmail = trim rt (toLowerCase rt (student_email st)),
       ust_academicLevel = orElse (student_academicLevel st) levelUnspecified,
       ust_underTargetSubjects = underTargetSubjectsOf same wkStart wkEnd u st\<rparr>.
        st \<leftarrow> user_students u, underTargetSubjectsOf same wkStart wkEnd u st \<noteq> []]"

text \<open>The membership record of a volunteer, and whether it lets the volunteer be evaluated.\<close>

definition membershipOf :: "runtime \<Rightarrow> joinRequest list \<Rightarrow> user \<Rightarrow> joinRequest option" where
  "membershipOf rt js u = findOneJoinRequest (trim rt (toLowerCase rt (user_email u))) js"

definition approved :: "runtime \<Rightarrow> joinRequest list \<Rightarrow> user \<Rightarrow> bool" where
  "approved rt js u =
     (case membershipOf rt js u of None \<Rightarrow> False | Some j \<Rightarrow> jr_status j = ''Approved'')"

definition underTarget :: "runtime \<Rightarrow> date \<Rightarrow> date \<Rightarrow> user \<Rightarrow> bool" where
  "underTarget rt wkStart wkEnd u = (underTargetStudentsOf rt (sameStudentEmail rt) wkStart wkEnd u \<noteq> [])"

text \<open>The volunteer document at the end of a run that evaluates it.\<close>

definition dueForCount :: "date \<Rightarrow> user \<Rightarrow> bool" where
  "dueForCount wkStart u =
     (case user_lastLowLectureWeek u of None \<Rightarrow> True | Some w \<Rightarrow> w < wkStart)"

definition evaluatedUser :: "runtime \<Rightarrow> bool \<Rightarrow> date \<Rightarrow> date \<Rightarrow> joinRequest list \<Rightarrow> user \<Rightarrow> user" where
  "evaluatedUser rt isCronJob wkStart wkEnd js u =
     (if \<not> isCronJob \<or> \<not> approved rt js u then u
      else if underTarget rt wkStart wkEnd u then
        (if dueForCount wkStart u then
           u\<lparr>user_lowLectureWeekCount := user_lowLectureWeekCount u + 1,
             user_lastLowLectureWeek := Some wkStart\<rparr>
         else u)
      else if 0 < user_lowLectureWeekCount u then
        u\<lparr>user_lowLectureWeekCount := 0, user_lastLowLectureWeek := None\<rparr>
      else u)"

definition finalUser :: "runtime \<Rightarrow> bool \<Rightarrow> date \<Rightarrow> date \<Rightarrow> joinRequest list \<Rightarrow> user \<Rightarrow> user" where
  "finalUser rt isCronJob wkStart wkEnd js u =
     (if user_role u = ''user'' then evaluatedUser rt isCronJob wkStart wkEnd js u else u)"

definition flaggedMember :: "runtime \<Rightarrow> bool \<Rightarrow> date \<Rightarrow> date \<Rightarrow> joinRequest list \<Rightarrow> user \<Rightarrow> member list" where
  "flaggedMember rt isCronJob wkStart wkEnd js u =
     (case membershipOf rt js u of
        None \<Rightarrow> []
      | Some j \<Rightarrow>
          if jr_status j = ''Approved'' \<and> underTarget rt wkStart wkEnd u then
            [\<lparr>member_id = user_id u,
              member_name = orElse (jr_name j) (user_email u),
              member_email = user_email u,
              member_lowLectureWeekCount =
                user_lowLectureWeekCount (evaluatedUser rt isCronJob wkStart wkEnd js u),
              member_underTargetStudents = underTargetStudentsOf rt (sameStudentEmail rt) wkStart wkEnd u,
              member_lectures = map lectureView (user_lectures u)\<rparr>]
          else [])"

definition flaggedMembers :: "runtime \<Rightarrow> bool \<Rightarrow> date \<Rightarrow> date \<Rightarrow> store \<Rightarrow> member list" where
  "flaggedMembers rt isCronJob wkStart wkEnd db =
     concat (map (flaggedMember rt isCronJob wkStart wkEnd (joinRequests db))
               [u \<leftarrow> users db. user_role u = ''user''])"

text \<open>The keys of the stored under-target notifications: volunteer, subject, student.\<close>

definition lowKey :: "notification \<Rightarrow> string \<times> string option \<times> string option" where
  "lowKey n = (notif_userId n, ld_subject (notif_lectureDetails n),
               ld_studentEmail (notif_lectureDetails n))"

definition lowKeys :: "store \<Rightarrow> (string \<times> string option \<times> string option) list" where
  "lowKeys db = map lowKey [n \<leftarrow> notifications db. notif_type n = lowLectureType]"


subsection \<open>Auxiliary notions of the proofs\<close>

text \<open>
  The contribution of one subject and of one student to the lists the loops build, the
  effect of the loops on the store of the session, and the invariant of the loop over the
  volunteers.
\<close>

definition subjectEntry :: "runtime \<Rightarrow> date \<Rightarrow> date \<Rightarrow> user \<Rightarrow> student \<Rightarrow> subject \<Rightarrow> underTargetSubject list" where
  "subjectEntry rt ws we u st sb =
     (if int (deliveredInWeek (sameStudentEmail rt) ws we u st sb) < subject_minLectures sb
      then [underTargetEntry sb (deliveredInWeek (sameStudentEmail rt) ws we u st sb)] else [])"

definition studentEntry :: "runtime \<Rightarrow> date \<Rightarrow> date \<Rightarrow> user \<Rightarrow> student \<Rightarrow> underTargetStudent list" where
  "studentEntry rt ws we u st =
     (if underTargetSubjectsOf (sameStudentEmail rt) ws we u st \<noteq> [] then
        [\<lparr>ust_studentName = orElse (student_name st) nameUnavailable,
          ust_studentEmail = trim rt (toLowerCase rt (student_email st)),
          ust_academicLevel = orElse (student_academicLevel st) levelUnspecified,
          ust_underTargetSubjects = underTargetSubjectsOf (sameStudentEmail rt) ws we u st\<rparr>]
      else [])"

text \<open>
  What the loops over the students and subjects of a volunteer do to the store of the
  session: they append under-target notifications of that volunteer, and nothing else.
\<close>

definition notifiedFor :: "user \<Rightarrow> store \<Rightarrow> store \<Rightarrow> bool" where
  "notifiedFor u db db' =
     (users db' = users db \<and> joinRequests db' = joinRequests db \<and> reports db' = reports db
      \<and> (\<exists>ns. notifications db' = notifications db @ ns
               \<and> (\<forall>n \<in> set ns. notif_userId n = user_id u \<and> notif_type n = lowLectureType))
      \<and> (distinct (lowKeys db) \<longrightarrow> distinct (lowKeys db')))"

text \<open>The store after a volunteer: notifications of the volunteer are appended, and the
  document of the volunteer is written when the evaluation changes it.\<close>

definition userStep :: "user \<Rightarrow> user \<Rightarrow> store \<Rightarrow> store \<Rightarrow> bool" where
  "userStep u u' db db' =
     (\<exists>db1. notifiedFor u db db1 \<and> ((u' = u \<and> db' = db1) \<or> db' = saveUser u' db1))"

definition usersInv ::
  "runtime \<Rightarrow> bool \<Rightarrow> date \<Rightarrow> date \<Rightarrow> store \<Rightarrow> user list \<Rightarrow> member list \<times> session \<Rightarrow> bool" where
  "usersInv rt c ws we db0 ys t =
     (fst t = concat (map (flaggedMember rt c ws we (joinRequests db0)) ys)
      \<and> joinRequests (fst (snd t)) = joinRequests db0
      \<and> reports (fst (snd t)) = reports db0
      \<and> (distinct (map user_id (users db0)) \<longrightarrow>
           users (fst (snd t)) =
             map (\<lambda>v. if v \<in> set ys then evaluatedUser rt c ws we (joinRequests db0) v else v) (users db0))
      \<and> (\<exists>ns. notifications (fst (snd t)) = notifications db0 @ ns
             \<and> (\<forall>n \<in> set ns. notif_type n = lowLectureType
                   \<and> (\<exists>u \<in> set ys. approved rt (joinRequests db0) u \<and> notif_userId n = user_id u)))
      \<and> (distinct (lowKeys db0) \<longrightarrow> distinct (lowKeys (fst (snd t)))))"

text \<open>The report a scheduled run stores.\<close>

definition weekReport :: "runtime \<Rightarrow> bool \<Rightarrow> date \<Rightarrow> date \<Rightarrow> store \<Rightarrow> report" where
  "weekReport rt c now stamp db =
     \<lparr>report_weekStart = weekStart rt now,
      report_weekEnd = weekEnd rt now,
      report_members = flaggedMembers rt c (weekStart rt now) (weekEnd rt now) db,
      report_totalUsersProcessed = length [u \<leftarrow> users db. user_role u = ''user''],
      report_membersWithLowLectures = length (flaggedMembers rt c (weekStart rt now) (weekEnd rt now) db),
      report_createdAt = stamp\<rparr>"

subsection \<open>A platform for the examples\<close>

text \<open>
  The examples run on the following platform.  On strings of ASCII characters
  \<open>toLowerCase\<close> maps the letters A to Z to a to z and \<open>trim\<close> removes leading and
  trailing blanks, tabs and line terminators; the examples hold ASCII strings only.  The
  zone is that of the process, \<open>Africa/Cairo\<close>, with its rule for 2024: two hours
  ahead of UTC, and three hours ahead from 26 April, when the local clock goes from
  00:00 to 01:00, until 31 October, when it goes back from 24:00 to 23:00.  A local time
  that the clock skips names the instant it would name without the change, and a local
  time that the clock shows twice names the earlier instant, as \<open>UTC(t)\<close> of ECMAScript
  resolves them.
\<close>

definition asciiLowerChar :: "char \<Rightarrow> char" where
  "asciiLowerChar c =
     (case map_of (zip ''ABCDEFGHIJKLMNOPQRSTUVWXYZ'' ''abcdefghijklmnopqrstuvwxyz'') c of
        None \<Rightarrow> c
      | Some d \<Rightarrow> d)"

definition asciiLowerCase :: "string \<Rightarrow> string" where
  "asciiLowerCase s = map asciiLowerChar s"

definition asciiWhiteSpace :: "char \<Rightarrow> bool" where
  "asciiWhiteSpace c = (c \<in> set [CHR 0x20, CHR 0x09, CHR 0x0A, CHR 0x0B, CHR 0x0C, CHR 0x0D])"

definition asciiTrim :: "string \<Rightarrow> string" where
  "asciiTrim s = rev (dropWhile asciiWhiteSpace (rev (dropWhile asciiWhiteSpace s)))"

text \<open>25 April 2024 22:00 UTC and 31 October 2024 21:00 UTC.\<close>

definition cairoDstStart :: date where
  "cairoDstStart = 1714082400000"

definition cairoDstEnd :: date where
  "cairoDstEnd = 1730408400000"

definition cairoLocalTime :: "date \<Rightarrow> int" where
  "cairoLocalTime t =
     (if cairoDstStart \<le> t \<and> t < cairoDstEnd then t + 10800000 else t + 7200000)"

definition cairoUtcTime :: "int \<Rightarrow> date" where
  "cairoUtcTime l =
     (if l < cairoDstStart + 10800000 then l - 7200000
      else if l < cairoDstEnd + 10800000 then l - 10800000
      else l - 7200000)"

definition exRuntime :: runtime where
  "exRuntime = \<lparr>toLowerCase = asciiLowerCase, trim = asciiTrim,
                 localTime = cairoLocalTime, utcTime = cairoUtcTime\<rparr>"

subsection \<open>A small store\<close>

text \<open>
  The scenario of the specification: a volunteer with one student who is assigned Math
  with a minimum of three lectures a week.  The clock \<open>exNow\<close> is a Wednesday; the week
  it evaluates runs from 770400000 to 1375199999.  Three lectures are stored: one dated
  one millisecond before the week, one exactly at its start, one exactly at its end.
  The e-mail addresses of the documents differ in case from those of the lectures and of
  the join request.
\<close>

definition exNow :: date where
  "exNow = 1728000000"

definition exLecture :: "string \<Rightarrow> date \<Rightarrow> lecture" where
  "exLecture i t = \<lparr>lecture_id = i, lecture_link = ''http://x.com/1'', lecture_name = ''Algebra'',
                   lecture_subject = ''Math'', lecture_studentEmail = Some ''s@x.com'',
                   lecture_createdAt = t\<rparr>"

definition exSubject :: subject where
  "exSubject = \<lparr>subject_name = ''Math'', subject_minLectures = 3\<rparr>"

definition exStudent :: student where
  "exStudent = \<lparr>student_name = ''Sami'', student_email = ''S@x.com'', student_academicLevel = [],
                 student_subjects = [exSubject]\<rparr>"

definition exUser :: user where
  "exUser = \<lparr>user_id = ''u1'', user_email = ''V@x.com'', user_role = ''user'',
              user_students = [exStudent],
              user_lectures = [exLecture ''l0'' 770399999, exLecture ''l1'' 770400000,
                               exLecture ''l2'' 1375199999],
              user_lectureCount = 3,
              user_lowLectureWeekCount = 0, user_lastLowLectureWeek = None\<rparr>"

definition exJoinRequest :: joinRequest where
  "exJoinRequest = \<lparr>jr_id = ''j1'', jr_email = ''v@x.com'', jr_name = ''Vera'',
                     jr_status = ''Approved'', jr_volunteerHours = 6\<rparr>"

definition exStore :: store where
  "exStore = \<lparr>users = [exUser], joinRequests = [exJoinRequest], notifications = [], reports = []\<rparr>"





text \<open>
  A third store with three more volunteers: one approved without students whose counter
  stands at 2, one whose join request is pending, and one without a join request; the
  last two have the student of the first store and no lecture.
\<close>

definition exIdle :: user where
  "exIdle = \<lparr>user_id = ''u2'', user_email = ''idle@x.com'', user_role = ''user'',
              user_students = [], user_lectures = [], user_lectureCount = 0,
              user_lowLectureWeekCount = 2, user_lastLowLectureWeek = Some 172800000\<rparr>"

definition exPending :: user where
  "exPending = \<lparr>user_id = ''u3'', user_email = ''pending@x.com'', user_role = ''user'',
              user_students = [exStudent], user_lectures = [], user_lectureCount = 0,
              user_lowLectureWeekCount = 1, user_lastLowLectureWeek = Some 172800000\<rparr>"

definition exOrphan :: user where
  "exOrphan = \<lparr>user_id = ''u4'', user_email = ''orphan@x.com'', user_role = ''user'',
              user_students = [exStudent], user_lectures = [], user_lectureCount = 0,
              user_lowLectureWeekCount = 1, user_lastLowLectureWeek = Some 172800000\<rparr>"

definition exStore3 :: store where
  "exStore3 =
     \<lparr>users = [exUser, exIdle, exPending, exOrphan],
      joinRequests =
        [exJoinRequest,
         \<lparr>jr_id = ''j2'', jr_email = ''idle@x.com'', jr_name = ''Ida'',
          jr_status = ''Approved'', jr_volunteerHours = 0\<rparr>,
         \<lparr>jr_id = ''j3'', jr_email = ''pending@x.com'', jr_name = ''Pia'',
          jr_status = ''Pending'', jr_volunteerHours = 0\<rparr>],
      notifications = [], reports = []\<rparr>"

text \<open>The first store after one scheduled run, after a second run in the same week, and
  after a run one week later.\<close>

definition exOnce :: store where
  "exOnce = snd (checkLowLectureMembers exRuntime True exNow 5 None exStore)"

definition exAgain :: store where
  "exAgain = snd (checkLowLectureMembers exRuntime True exNow 6 None exOnce)"

definition exNext :: store where
  "exNext = snd (checkLowLectureMembers exRuntime True (exNow + 7 * msPerDay) 7 None exOnce)"

text \<open>
  The first store with three stored reports: two of the week evaluated at \<open>exNow\<close>,
  created at 10 and at 30, and a later-created one of another week.
\<close>

definition exReport :: "date \<Rightarrow> date \<Rightarrow> nat \<Rightarrow> report" where
  "exReport wkStart created n =
     \<lparr>report_weekStart = wkStart, report_weekEnd = wkStart + 7 * msPerDay - 1,
      report_members = [], report_totalUsersProcessed = n,
      report_membersWithLowLectures = 0, report_createdAt = created\<rparr>"

definition exCached :: store where
  "exCached = exStore\<lparr>reports := [exReport 770400000 10 4, exReport 770400000 30 7,
                                   exReport 172800000 50 9]\<rparr>"

text \<open>
  The first store after a scheduled run, to which the volunteer then submits a lecture
  for the notified pair; the validators accept every request.
\<close>

definition exValidators :: validators where
  "exValidators = \<lparr>isURL = (\<lambda>s. True), isEmail = (\<lambda>s. True), isLength = (\<lambda>s lo hi. True)\<rparr>"

definition exRequest :: lectureRequest where
  "exRequest = \<lparr>req_link = ''http://x.com/2'', req_name = ''Geometry'', req_subject = ''Math'',
                 req_studentEmail = ''S@X.com''\<rparr>"

section \<open>The week window\<close>

lemma mod7_shift: "((x::int) - 7 + 4) mod 7 = (x + 4) mod 7"
proof -
  have "x + 4 = x - 3 + 7" by simp
  then have "(x + 4) mod 7 = (x - 3 + 7) mod 7" by (rule arg_cong)
  also have "\<dots> = (x - 3) mod 7" by (simp only: mod_add_self2)
  finally show ?thesis by simp
qed

lemma mod7_pred: "((x::int) + 4) mod 7 = 6 \<Longrightarrow> (x - 1 + 4) mod 7 = 5"
  by presburger

lemma mod7_sat:
  fixes x :: int
  defines "g \<equiv> (x + 4) mod 7"
  shows "(x - (if (g + 1) mod 7 = 0 then 7 else (g + 1) mod 7) + 4) mod 7 = 6"
proof -
  have r: "0 \<le> g \<and> g < 7" by (simp add: g_def)
  then consider "g = 6" | "g = 0" | "g = 1" | "g = 2" | "g = 3" | "g = 4" | "g = 5"
    by arith
  then have k: "(g - (if (g + 1) mod 7 = 0 then 7 else (g + 1) mod 7)) mod 7 = 6"
    by cases simp_all
  have "(x - (if (g + 1) mod 7 = 0 then 7 else (g + 1) mod 7) + 4) mod 7
        = (x + 4 - (if (g + 1) mod 7 = 0 then 7 else (g + 1) mod 7)) mod 7"
    by (simp add: algebra_simps)
  also have "\<dots> = (g - (if (g + 1) mod 7 = 0 then 7 else (g + 1) mod 7)) mod 7"
    unfolding g_def by (simp only: mod_diff_left_eq)
  finally show ?thesis using k by simp
qed

lemma msPerDay_pos: "0 < msPerDay"
  by (simp add: msPerDay_def)

lemma getDay_range: "0 \<le> getDay rt t \<and> getDay rt t < 7"
  by (simp add: getDay_def)

lemma daysToPreviousSaturday_range:
  "1 \<le> daysToPreviousSaturday rt now \<and> daysToPreviousSaturday rt now \<le> 7"
proof -
  have "0 \<le> (getDay rt now + 1) mod 7 \<and> (getDay rt now + 1) mod 7 < 7" by simp
  then show ?thesis by (auto simp: daysToPreviousSaturday_def Let_def)
qed

lemma div_setHours:
  assumes "0 \<le> r" "r < msPerDay"
  shows "((q::int) * msPerDay + r) div msPerDay = q" and "(q * msPerDay + r) mod msPerDay = r"
  using assms msPerDay_pos by (simp_all add: div_pos_pos_trivial)

lemma day_of:
  assumes "q * msPerDay \<le> x" "x < q * msPerDay + msPerDay"
  shows "x div msPerDay = q"
proof -
  have "x = q * msPerDay + (x - q * msPerDay)" by simp
  moreover have "(q * msPerDay + (x - q * msPerDay)) div msPerDay = q"
    using assms by (intro div_setHours(1)) simp_all
  ultimately show ?thesis by simp
qed

lemma regularZone_day:
  "regularZone rt \<Longrightarrow> localTime rt (utcTime rt l) div msPerDay = l div msPerDay"
  by (simp add: regularZone_def)

lemma regularZone_saturday:
  "regularZone rt \<Longrightarrow> (d + 4) mod 7 = 6
   \<Longrightarrow> localTime rt (utcTime rt (d * msPerDay)) = d * msPerDay"
  by (simp add: regularZone_def)

lemma regularZone_friday:
  "regularZone rt \<Longrightarrow> (d + 4) mod 7 = 5
   \<Longrightarrow> localTime rt (utcTime rt (d * msPerDay + (msPerDay - 1))) = d * msPerDay + (msPerDay - 1)"
  by (simp add: regularZone_def)

lemma regularZone_order:
  "regularZone rt \<Longrightarrow> localTime rt t + msPerDay \<le> localTime rt u \<Longrightarrow> t < u"
  by (simp add: regularZone_def)

lemma div_addDays:
  assumes "regularZone rt"
  shows "localTime rt (addDays rt t k) div msPerDay = localTime rt t div msPerDay + k"
proof -
  have "localTime rt (addDays rt t k) div msPerDay = (localTime rt t + k * msPerDay) div msPerDay"
    unfolding addDays_def by (rule regularZone_day [OF assms])
  also have "\<dots> = localTime rt t div msPerDay + k"
    using msPerDay_pos by simp
  finally show ?thesis .
qed

lemma getDay_previousSaturday:
  assumes "regularZone rt"
  shows "(localTime rt (previousSaturday rt now) div msPerDay + 4) mod 7 = 6"
proof -
  define g where "g = getDay rt now"
  define x where "x = localTime rt now div msPerDay"
  have gx: "g = (x + 4) mod 7" by (simp add: g_def x_def getDay_def)
  have k: "daysToPreviousSaturday rt now = (if (g + 1) mod 7 = 0 then 7 else (g + 1) mod 7)"
    by (simp add: daysToPreviousSaturday_def Let_def g_def)
  have "(x - daysToPreviousSaturday rt now + 4) mod 7 = 6"
    unfolding k gx by (rule mod7_sat)
  then show ?thesis
    by (simp add: previousSaturday_def div_addDays [OF assms] x_def)
qed

text \<open>The two ends of the window as local times: the local day of the Saturday that
  \<open>previousSaturday\<close> is, less seven days, at 00:00:00.000, and less one day, at
  23:59:59.999.\<close>

lemma weekStart_utc:
  assumes "regularZone rt"
  shows "weekStart rt now
         = utcTime rt ((localTime rt (previousSaturday rt now) div msPerDay - 7) * msPerDay)"
  by (simp add: weekStart_def setHours_def div_addDays [OF assms])

lemma weekEnd_utc:
  assumes "regularZone rt"
  shows "weekEnd rt now
         = utcTime rt ((localTime rt (previousSaturday rt now) div msPerDay - 1) * msPerDay
                        + (msPerDay - 1))"
  by (simp add: weekEnd_def setHours_def div_addDays [OF assms]) (simp add: msPerDay_def)

lemma local_weekStart:
  assumes "regularZone rt"
  shows "localTime rt (weekStart rt now)
         = (localTime rt (previousSaturday rt now) div msPerDay - 7) * msPerDay"
proof -
  have "(localTime rt (previousSaturday rt now) div msPerDay - 7 + 4) mod 7 = 6"
    using getDay_previousSaturday [OF assms, of now] by (simp only: mod7_shift)
  then show ?thesis
    unfolding weekStart_utc [OF assms] by (rule regularZone_saturday [OF assms])
qed

lemma local_weekEnd:
  assumes "regularZone rt"
  shows "localTime rt (weekEnd rt now)
         = (localTime rt (previousSaturday rt now) div msPerDay - 1) * msPerDay + (msPerDay - 1)"
proof -
  have "(localTime rt (previousSaturday rt now) div msPerDay - 1 + 4) mod 7 = 5"
    using getDay_previousSaturday [OF assms, of now] by (rule mod7_pred)
  then show ?thesis
    unfolding weekEnd_utc [OF assms] by (rule regularZone_friday [OF assms])
qed

lemma div_weekStart:
  assumes "regularZone rt"
  shows "localTime rt (weekStart rt now) div msPerDay
         = localTime rt (previousSaturday rt now) div msPerDay - 7"
  unfolding local_weekStart [OF assms] using msPerDay_pos by simp

lemma div_weekEnd:
  assumes "regularZone rt"
  shows "localTime rt (weekEnd rt now) div msPerDay
         = localTime rt (previousSaturday rt now) div msPerDay - 1"
  unfolding local_weekEnd [OF assms]
  using div_setHours(1) [of "msPerDay - 1"] msPerDay_pos by simp

lemma mod_weekEnd:
  assumes "regularZone rt"
  shows "localTime rt (weekEnd rt now) mod msPerDay = msPerDay - 1"
  unfolding local_weekEnd [OF assms]
  using div_setHours(2) [of "msPerDay - 1"] msPerDay_pos by simp

lemma getDay_weekStart:
  assumes "regularZone rt"
  shows "getDay rt (weekStart rt now) = 6"
proof -
  have "getDay rt (weekStart rt now)
        = (localTime rt (previousSaturday rt now) div msPerDay - 7 + 4) mod 7"
    by (simp only: getDay_def div_weekStart [OF assms])
  also have "\<dots> = (localTime rt (previousSaturday rt now) div msPerDay + 4) mod 7"
    by (rule mod7_shift)
  finally show ?thesis by (simp only: getDay_previousSaturday [OF assms])
qed

lemma getDay_weekEnd:
  assumes "regularZone rt"
  shows "getDay rt (weekEnd rt now) = 5"
proof -
  have "getDay rt (weekEnd rt now)
        = (localTime rt (previousSaturday rt now) div msPerDay - 1 + 4) mod 7"
    by (simp only: getDay_def div_weekEnd [OF assms])
  also have "\<dots> = 5"
    using getDay_previousSaturday [OF assms, of now] by (rule mod7_pred)
  finally show ?thesis .
qed

lemma day_floor: "(x div msPerDay) * msPerDay \<le> (x::int)"
proof -
  have "x = (x div msPerDay) * msPerDay + x mod msPerDay" by simp
  moreover have "0 \<le> x mod msPerDay" using msPerDay_pos by simp
  ultimately show ?thesis by linarith
qed

lemma weekEnd_before_now:
  assumes "regularZone rt"
  shows "weekEnd rt now < now"
proof -
  define x where "x = localTime rt now div msPerDay"
  define d where "d = daysToPreviousSaturday rt now"
  have d: "1 \<le> d" using daysToPreviousSaturday_range [of rt now] by (simp add: d_def)
  have s: "localTime rt (previousSaturday rt now) div msPerDay = x - d"
    by (simp add: previousSaturday_def div_addDays [OF assms] x_def d_def)
  have e: "localTime rt (weekEnd rt now) + msPerDay = (x - d) * msPerDay + (msPerDay - 1)"
    unfolding local_weekEnd [OF assms] s by (simp add: algebra_simps)
  have "(x - d) * msPerDay + msPerDay \<le> x * msPerDay"
  proof -
    have "(x - d + 1) * msPerDay \<le> x * msPerDay"
      using d msPerDay_pos by (intro mult_right_mono) simp_all
    then show ?thesis by (simp add: algebra_simps)
  qed
  moreover have "x * msPerDay \<le> localTime rt now" unfolding x_def by (rule day_floor)
  ultimately have "localTime rt (weekEnd rt now) + msPerDay \<le> localTime rt now"
    using e by linarith
  then show ?thesis by (rule regularZone_order [OF assms])
qed

lemma local_span:
  assumes "regularZone rt"
  shows "localTime rt (weekEnd rt now) - localTime rt (weekStart rt now) = 7 * msPerDay - 1"
  unfolding local_weekEnd [OF assms] local_weekStart [OF assms] by (simp add: algebra_simps)

lemma weekStart_before_weekEnd:
  assumes "regularZone rt"
  shows "weekStart rt now < weekEnd rt now"
proof -
  have "localTime rt (weekStart rt now) + msPerDay \<le> localTime rt (weekEnd rt now)"
    using local_span [OF assms, of now] msPerDay_pos by linarith
  then show ?thesis by (rule regularZone_order [OF assms])
qed

lemma routeWeekStart_weekStart: "routeWeekStart rt now = weekStart rt now"
  by (simp add: routeWeekStart_def weekStart_def previousSaturday_def
      daysToPreviousSaturday_def Let_def)

text \<open>Two clocks whose windows start at the same instant have the same window.\<close>

lemma weekEnd_weekStart:
  assumes "regularZone rt" and "weekStart rt now2 = weekStart rt now1"
  shows "weekEnd rt now2 = weekEnd rt now1"
proof -
  have "(localTime rt (previousSaturday rt now2) div msPerDay - 7) * msPerDay
        = localTime rt (weekStart rt now2)"
    by (rule local_weekStart [OF assms(1), symmetric])
  also have "\<dots> = localTime rt (weekStart rt now1)"
    by (simp only: assms(2))
  also have "\<dots> = (localTime rt (previousSaturday rt now1) div msPerDay - 7) * msPerDay"
    by (rule local_weekStart [OF assms(1)])
  finally have "localTime rt (previousSaturday rt now2) div msPerDay
             = localTime rt (previousSaturday rt now1) div msPerDay"
    using msPerDay_pos by simp
  then show ?thesis by (simp only: weekEnd_utc [OF assms(1)])
qed

text \<open>A zone without clock changes is regular, whatever its offset.\<close>

lemma regularZone_fixed_offset:
  assumes "localTime rt = (\<lambda>t. t + off)" and "utcTime rt = (\<lambda>l. l - off)"
  shows "regularZone rt"
  using msPerDay_pos by (simp add: regularZone_def assms)

subsection \<open>The zone of the examples\<close>

lemma cairo_bounds: "t + 7200000 \<le> cairoLocalTime t \<and> cairoLocalTime t \<le> t + 10800000"
  by (simp add: cairoLocalTime_def)

lemma cairo_round_trip:
  assumes "l < 1714089600000 \<or> 1714093200000 \<le> l"
  shows "cairoLocalTime (cairoUtcTime l) = l"
  using assms by (auto simp: cairoLocalTime_def cairoUtcTime_def cairoDstStart_def cairoDstEnd_def)

lemma cairo_skipped:
  assumes "1714089600000 \<le> l" "l < 1714093200000"
  shows "cairoLocalTime (cairoUtcTime l) = l + 3600000"
  using assms by (auto simp: cairoLocalTime_def cairoUtcTime_def cairoDstStart_def cairoDstEnd_def)

lemma cairo_day: "cairoLocalTime (cairoUtcTime l) div msPerDay = l div msPerDay"
proof (cases "1714089600000 \<le> l \<and> l < 1714093200000")
  case False
  then have "l < 1714089600000 \<or> 1714093200000 \<le> l" by auto
  then show ?thesis by (simp only: cairo_round_trip)
next
  case True
  have k: "19839 * msPerDay = 1714089600000" by (simp add: msPerDay_def)
  have "l div msPerDay = 19839"
    using True by (intro day_of) (simp_all add: msPerDay_def)
  moreover have "(l + 3600000) div msPerDay = 19839"
    using True by (intro day_of) (simp_all add: msPerDay_def)
  ultimately show ?thesis using True by (simp add: cairo_skipped)
qed

lemma cairo_midnight:
  assumes "(d + 4) mod 7 = 6"
  shows "cairoLocalTime (cairoUtcTime (d * msPerDay)) = d * msPerDay"
proof (rule cairo_round_trip, rule ccontr)
  assume "\<not> (d * msPerDay < 1714089600000 \<or> 1714093200000 \<le> d * msPerDay)"
  then have "19839 * 86400000 \<le> d * 86400000" "d * 86400000 < 19840 * 86400000"
    by (simp_all add: msPerDay_def)
  then have "d = 19839" by simp
  with assms show False by simp
qed

lemma cairo_last_ms:
  "cairoLocalTime (cairoUtcTime (d * msPerDay + (msPerDay - 1))) = d * msPerDay + (msPerDay - 1)"
proof (rule cairo_round_trip, rule ccontr)
  assume "\<not> (d * msPerDay + (msPerDay - 1) < 1714089600000
             \<or> 1714093200000 \<le> d * msPerDay + (msPerDay - 1))"
  then have "19839 * 86400000 \<le> (d + 1) * 86400000 - 1"
    and "(d + 1) * 86400000 - 1 < 19839 * 86400000 + 3600000"
    by (simp_all add: msPerDay_def algebra_simps)
  then have "19839 * 86400000 < (d + 1) * 86400000" "(d + 1) * 86400000 < 19840 * 86400000"
    by simp_all
  then have "19839 < d + 1" "d + 1 < 19840" by simp_all
  then show False by simp
qed

lemma regularZone_exRuntime: "regularZone exRuntime"
proof -
  have "t < u" if "cairoLocalTime t + msPerDay \<le> cairoLocalTime u" for t u
    using that cairo_bounds [of t] cairo_bounds [of u] by (simp add: msPerDay_def)
  then show ?thesis
    by (simp add: regularZone_def exRuntime_def cairo_day cairo_midnight cairo_last_ms)
qed

text \<open>
  Claim C2 as it is worded fails.  The process runs in \<open>Africa/Cairo\<close>.  At the clock
  1714460400000 (Tuesday 30 April 2024, 10:00 local time) the window starts on Saturday
  20 April at 00:00:00.000, two hours ahead of UTC, and ends on Friday 26 April at
  23:59:59.999, three hours ahead of UTC, because the clock was set forward by an hour at
  the start of that Friday.  From the first to the last millisecond the window is an hour
  short of seven days.
\<close>

theorem dst_week_counterexample:
  "weekStart exRuntime 1714460400000 = 1713564000000
   \<and> weekEnd exRuntime 1714460400000 = 1714165199999
   \<and> weekEnd exRuntime 1714460400000 - weekStart exRuntime 1714460400000 + 1
       = 7 * msPerDay - 3600000
   \<and> weekEnd exRuntime 1714460400000 - weekStart exRuntime 1714460400000 \<noteq> 7 * msPerDay - 1"
  by (simp add: weekStart_def weekEnd_def previousSaturday_def daysToPreviousSaturday_def
      getDay_def addDays_def setHours_def msPerDay_def exRuntime_def cairoLocalTime_def
      cairoUtcTime_def cairoDstStart_def cairoDstEnd_def)

text \<open>
  Claim C2, as amended.  In a regular zone, for every \<open>now\<close>: the window starts on a
  Saturday at 00:00:00.000 local time and ends on the Friday six calendar days later at
  23:59:59.999 local time, so that on the local clock it is seven days less one
  millisecond long; the time that elapses between its ends is that length less the
  change of the zone offset between them; it ends before \<open>now\<close>; on a Saturday the day
  offset is 7; and the route computes the same start as the evaluator.
\<close>

theorem week_window:
  assumes "regularZone rt"
  shows "getDay rt (weekStart rt now) = 6 \<and> timeOfDay rt (weekStart rt now) = 0
   \<and> getDay rt (weekEnd rt now) = 5 \<and> timeOfDay rt (weekEnd rt now) = msPerDay - 1
   \<and> localTime rt (weekEnd rt now) div msPerDay = localTime rt (weekStart rt now) div msPerDay + 6
   \<and> localTime rt (weekEnd rt now) - localTime rt (weekStart rt now) = 7 * msPerDay - 1
   \<and> weekEnd rt now - weekStart rt now
       = 7 * msPerDay - 1 - (zoneOffset rt (weekEnd rt now) - zoneOffset rt (weekStart rt now))
   \<and> weekStart rt now < weekEnd rt now \<and> weekEnd rt now < now
   \<and> (getDay rt now = 6 \<longrightarrow> daysToPreviousSaturday rt now = 7)
   \<and> routeWeekStart rt now = weekStart rt now"
proof -
  have t0: "timeOfDay rt (weekStart rt now) = 0"
    by (simp add: timeOfDay_def local_weekStart [OF assms])
  have t1: "timeOfDay rt (weekEnd rt now) = msPerDay - 1"
    by (simp add: timeOfDay_def mod_weekEnd [OF assms])
  have dd: "localTime rt (weekEnd rt now) div msPerDay
            = localTime rt (weekStart rt now) div msPerDay + 6"
    by (simp add: div_weekStart [OF assms] div_weekEnd [OF assms])
  note span = local_span [OF assms, of now]
  have el: "weekEnd rt now - weekStart rt now
       = 7 * msPerDay - 1 - (zoneOffset rt (weekEnd rt now) - zoneOffset rt (weekStart rt now))"
    using span by (simp add: zoneOffset_def)
  have sat: "getDay rt now = 6 \<longrightarrow> daysToPreviousSaturday rt now = 7"
    by (simp add: daysToPreviousSaturday_def)
  show ?thesis
    using getDay_weekStart [OF assms] getDay_weekEnd [OF assms] weekEnd_before_now [OF assms]
      weekStart_before_weekEnd [OF assms] t0 t1 dd span el sat routeWeekStart_weekStart
    by simp
qed

theorem week_window_witness:
  "getDay exRuntime (weekStart exRuntime 1714460400000) = 6
   \<and> timeOfDay exRuntime (weekStart exRuntime 1714460400000) = 0
   \<and> getDay exRuntime (weekEnd exRuntime 1714460400000) = 5
   \<and> timeOfDay exRuntime (weekEnd exRuntime 1714460400000) = 86399999
   \<and> zoneOffset exRuntime (weekStart exRuntime 1714460400000) = 7200000
   \<and> zoneOffset exRuntime (weekEnd exRuntime 1714460400000) = 10800000
   \<and> weekEnd exRuntime 1714460400000 - weekStart exRuntime 1714460400000 = 601199999
   \<and> weekEnd exRuntime 1714460400000 < 1714460400000
   \<and> getDay exRuntime 1714212000000 = 6
   \<and> daysToPreviousSaturday exRuntime 1714212000000 = 7
   \<and> weekEnd exRuntime 1714212000000 = 1713563999999"
proof -
  have o: "zoneOffset exRuntime (weekStart exRuntime 1714460400000) = 7200000
        \<and> zoneOffset exRuntime (weekEnd exRuntime 1714460400000) = 10800000"
    by (simp add: zoneOffset_def weekStart_def weekEnd_def previousSaturday_def
        daysToPreviousSaturday_def getDay_def addDays_def setHours_def msPerDay_def exRuntime_def
        cairoLocalTime_def cairoUtcTime_def cairoDstStart_def cairoDstEnd_def)
  have s: "getDay exRuntime 1714212000000 = 6
        \<and> weekEnd exRuntime 1714212000000 = 1713563999999"
    by (simp add: weekEnd_def previousSaturday_def
        daysToPreviousSaturday_def getDay_def addDays_def setHours_def msPerDay_def exRuntime_def
        cairoLocalTime_def cairoUtcTime_def cairoDstStart_def cairoDstEnd_def)
  show ?thesis
    using week_window [OF regularZone_exRuntime, of 1714460400000]
      week_window [OF regularZone_exRuntime, of 1714212000000] o s
    by (simp add: msPerDay_def)
qed

section \<open>Errors and loops\<close>

lemma bindE_Inr_iff: "bindE m k = Inr y \<longleftrightarrow> (\<exists>x. m = Inr x \<and> k x = Inr y)"
  by (cases m) (simp_all add: bindE_def)

lemma bindE_Inl_iff: "bindE m k = Inl e \<longleftrightarrow> m = Inl e \<or> (\<exists>x. m = Inr x \<and> k x = Inl e)"
  by (cases m) (simp_all add: bindE_def)

lemma bindE_Inr [simp]: "bindE (Inr x) k = k x"
  by (simp add: bindE_def)

lemma bindE_Inl [simp]: "bindE (Inl e) k = Inl e"
  by (simp add: bindE_def)

lemma await_Inr: "await \<sigma> = Inr \<sigma>' \<Longrightarrow> fst \<sigma>' = fst \<sigma>"
  by (auto simp: await_def bindE_Inr_iff)

lemma await_no_fault: "snd \<sigma> = None \<Longrightarrow> await \<sigma> = Inr \<sigma>"
  by (cases \<sigma>) (simp add: await_def)

lemma awaitWrite_Inr: "awaitWrite w \<sigma> = Inr \<sigma>' \<Longrightarrow> fst \<sigma>' = w (fst \<sigma>)"
  by (auto simp: awaitWrite_def bindE_Inr_iff dest: await_Inr)

lemma awaitWrite_no_fault: "snd \<sigma> = None \<Longrightarrow> awaitWrite w \<sigma> = Inr (w (fst \<sigma>), None)"
  by (simp add: awaitWrite_def await_no_fault)

lemma foldE_inv:
  assumes "foldE f xs s = Inr s'" and "P s"
    and "\<And>x t t'. x \<in> set xs \<Longrightarrow> P t \<Longrightarrow> f x t = Inr t' \<Longrightarrow> P t'"
  shows "P s'"
  using assms
proof (induction xs arbitrary: s)
  case Nil
  then show ?case by simp
next
  case (Cons x xs)
  from Cons.prems(1) obtain t where t: "f x s = Inr t" and r: "foldE f xs t = Inr s'"
    by (auto simp: bindE_Inr_iff)
  have "P t" using Cons.prems(3) [of x s t] Cons.prems(2) t by simp
  moreover have "\<And>y t t'. y \<in> set xs \<Longrightarrow> P t \<Longrightarrow> f y t = Inr t' \<Longrightarrow> P t'"
    using Cons.prems(3) by (meson list.set_intros(2))
  ultimately show ?case using Cons.IH [OF r] by blast
qed

text \<open>The same with the processed prefix as an index of the invariant.\<close>

lemma foldE_prefix_inv:
  assumes "foldE f xs s = Inr s'" and "Q pre s"
    and "\<And>ys x t t'. x \<in> set xs \<Longrightarrow> Q ys t \<Longrightarrow> f x t = Inr t' \<Longrightarrow> Q (ys @ [x]) t'"
  shows "Q (pre @ xs) s'"
  using assms
proof (induction xs arbitrary: s pre)
  case Nil
  then show ?case by simp
next
  case (Cons x xs)
  from Cons.prems(1) obtain t where t: "f x s = Inr t" and r: "foldE f xs t = Inr s'"
    by (auto simp: bindE_Inr_iff)
  have "Q (pre @ [x]) t" using Cons.prems(3) [of x pre s t] Cons.prems(2) t by simp
  moreover have "\<And>ys y t t'. y \<in> set xs \<Longrightarrow> Q ys t \<Longrightarrow> f y t = Inr t' \<Longrightarrow> Q (ys @ [y]) t'"
    using Cons.prems(3) by (meson list.set_intros(2))
  ultimately have "Q ((pre @ [x]) @ xs) s'" using Cons.IH [OF r] by blast
  then show ?case by simp
qed

section \<open>On-demand runs write nothing\<close>

lemma processSubject_read_only:
  "processSubject rt False ws we u st sb s = Inr s' \<Longrightarrow> snd s' = snd s"
  by (cases s) (auto simp: processSubject_def Let_def split: if_splits)

lemma processStudent_read_only:
  assumes "processStudent rt False ws we u st s = Inr s'"
  shows "snd s' = snd s"
proof (cases "student_subjects st = []")
  case True
  with assms show ?thesis by (cases s) (simp add: processStudent_def)
next
  case False
  obtain acc \<sigma> where s: "s = (acc, \<sigma>)" by (cases s)
  from assms False s obtain r where
    r: "foldE (processSubject rt False ws we u st) (student_subjects st) ([], \<sigma>) = Inr r"
    and s': "snd s' = snd r"
    by (auto simp: processStudent_def bindE_Inr_iff split: if_splits prod.splits)
  have "snd r = snd ([]::underTargetSubject list, \<sigma>)"
    by (rule foldE_inv [OF r, where P = "\<lambda>t. snd t = snd ([]::underTargetSubject list, \<sigma>)"])
       (auto dest: processSubject_read_only)
  with s' s show ?thesis by simp
qed

lemma students_read_only:
  assumes "foldE (processStudent rt False ws we u) sts s = Inr s'"
  shows "snd s' = snd s"
  by (rule foldE_inv [OF assms, where P = "\<lambda>t. snd t = snd s"])
     (auto dest: processStudent_read_only)

lemma resetCounter_read_only: "resetCounter False u \<sigma> = Inr \<sigma>' \<Longrightarrow> \<sigma>' = \<sigma>"
  by (simp add: resetCounter_def)

lemma flagUser_read_only:
  "flagUser False ws u j uts s = Inr s' \<Longrightarrow> snd s' = snd s"
  by (cases s) (auto simp: flagUser_def Let_def)

lemma evaluateUser_read_only:
  assumes "evaluateUser rt False ws we u j s = Inr s'"
  shows "snd s' = snd s"
proof -
  obtain ms \<sigma> where s: "s = (ms, \<sigma>)" by (cases s)
  show ?thesis
  proof (cases "user_students u = []")
    case True
    with assms s show ?thesis
      by (auto simp: evaluateUser_def bindE_Inr_iff dest: resetCounter_read_only)
  next
    case False
    with assms s obtain r where
      r: "foldE (processStudent rt False ws we u) (user_students u) ([], \<sigma>) = Inr r"
      and e: "snd s' = snd r"
      by (auto simp: evaluateUser_def bindE_Inr_iff
               split: if_splits prod.splits dest: resetCounter_read_only flagUser_read_only)
    have "snd r = snd ([]::underTargetStudent list, \<sigma>)" using r by (rule students_read_only)
    then show ?thesis using e s by simp
  qed
qed

lemma processUser_Inr:
  assumes "processUser rt c ws we u (ms, \<sigma>) = Inr s'"
  obtains (skipped) \<sigma>1 where "await \<sigma> = Inr \<sigma>1" "s' = (ms, \<sigma>1)"
      "\<forall>j. findOneJoinRequest (trim rt (toLowerCase rt (user_email u))) (joinRequests (fst \<sigma>1)) = Some j
           \<longrightarrow> jr_status j \<noteq> ''Approved''"
    | (evaluated) \<sigma>1 j where "await \<sigma> = Inr \<sigma>1"
      "findOneJoinRequest (trim rt (toLowerCase rt (user_email u))) (joinRequests (fst \<sigma>1)) = Some j"
      "jr_status j = ''Approved''" "evaluateUser rt c ws we u j (ms, \<sigma>1) = Inr s'"
proof -
  from assms obtain \<sigma>1 where a: "await \<sigma> = Inr \<sigma>1"
    and r: "(case findOneJoinRequest (trim rt (toLowerCase rt (user_email u))) (joinRequests (fst \<sigma>1)) of
               None \<Rightarrow> Inr (ms, \<sigma>1)
             | Some j \<Rightarrow> if jr_status j \<noteq> ''Approved'' then Inr (ms, \<sigma>1)
                        else evaluateUser rt c ws we u j (ms, \<sigma>1)) = Inr s'"
    by (auto simp: processUser_def bindE_Inr_iff)
  show ?thesis
  proof (cases "findOneJoinRequest (trim rt (toLowerCase rt (user_email u))) (joinRequests (fst \<sigma>1))")
    case None
    with r a show ?thesis by (auto intro: skipped)
  next
    case (Some j)
    show ?thesis
    proof (cases "jr_status j = ''Approved''")
      case True
      with r a Some show ?thesis by (auto intro: evaluated)
    next
      case False
      with r a Some show ?thesis by (auto intro: skipped)
    qed
  qed
qed

lemma processUser_read_only:
  assumes "processUser rt False ws we u s = Inr s'"
  shows "fst (snd s') = fst (snd s)"
proof -
  obtain ms \<sigma> where s: "s = (ms, \<sigma>)" by (cases s)
  from assms s have "processUser rt False ws we u (ms, \<sigma>) = Inr s'" by simp
  then show ?thesis
  proof (cases rule: processUser_Inr)
    case (skipped \<sigma>1)
    then show ?thesis using s by (auto dest: await_Inr)
  next
    case (evaluated \<sigma>1 j)
    have "snd s' = \<sigma>1" using evaluateUser_read_only [OF evaluated(4)] by simp
    then show ?thesis using await_Inr [OF evaluated(1)] s by simp
  qed
qed

lemma runEvaluation_read_only:
  assumes "runEvaluation rt False now stamp \<sigma> = Inr (res, \<sigma>')"
  shows "fst \<sigma>' = fst \<sigma>"
proof -
  from assms obtain \<sigma>1 r \<sigma>4 where a: "await \<sigma> = Inr \<sigma>1"
    and r: "foldE (processUser rt False (weekStart rt now) (weekEnd rt now))
              (filter (\<lambda>u. user_role u = ''user'') (users (fst \<sigma>1))) ([], \<sigma>1) = Inr r"
    and c: "await (snd r) = Inr \<sigma>4" and e: "\<sigma>' = \<sigma>4"
    by (auto simp: runEvaluation_def bindE_Inr_iff Let_def split: prod.splits)
  have "fst (snd r) = fst (snd ([]::member list, \<sigma>1))"
    by (rule foldE_inv [OF r, where P = "\<lambda>t. fst (snd t) = fst (snd ([]::member list, \<sigma>1))"])
       (auto dest: processUser_read_only)
  then show ?thesis using await_Inr [OF a] await_Inr [OF c] e by simp
qed

lemma checkLowLectureMembers_read_only:
  "snd (checkLowLectureMembers rt False now stamp f db) = db"
  by (auto simp: checkLowLectureMembers_def split: sum.splits prod.splits
           dest: runEvaluation_read_only)

section \<open>What the loops compute\<close>

lemma lectureCount_delivered:
  "lectureCount rt ws we u st sb = deliveredInWeek (sameStudentEmail rt) ws we u st sb"
proof -
  have "lectureMatches rt ws we st sb =
        (\<lambda>l. ws \<le> lecture_createdAt l \<and> lecture_createdAt l \<le> we
             \<and> (sameStudentEmail rt) (lecture_studentEmail l) (student_email st)
             \<and> lecture_subject l = subject_name sb)"
    by (simp add: fun_eq_iff lectureMatches_def sameStudentEmail_def Let_def)
  then show ?thesis by (simp add: lectureCount_def deliveredInWeek_def)
qed

lemma processSubject_list:
  assumes "processSubject rt c ws we u st sb (acc, \<sigma>) = Inr (acc', \<sigma>')"
  shows "acc' = acc @ subjectEntry rt ws we u st sb"
  using assms
  by (auto simp: processSubject_def Let_def lectureCount_delivered subjectEntry_def
        underTargetEntry_def bindE_Inr_iff split: if_splits option.splits)

lemma subjects_list:
  assumes "foldE (processSubject rt c ws we u st) sbs (acc, \<sigma>) = Inr (acc', \<sigma>')"
  shows "acc' = acc @ concat (map (subjectEntry rt ws we u st) sbs)"
proof -
  have "fst (acc', \<sigma>') = acc @ concat (map (subjectEntry rt ws we u st) ([] @ sbs))"
    by (rule foldE_prefix_inv [OF assms,
          where Q = "\<lambda>ys t. fst t = acc @ concat (map (subjectEntry rt ws we u st) ys)"])
       (auto dest: processSubject_list)
  then show ?thesis by simp
qed

lemma concat_map_if: "concat (map (\<lambda>x. if P x then [g x] else []) xs) = map g (filter P xs)"
  by (induction xs) simp_all

lemma subjects_spec:
  "concat (map (subjectEntry rt ws we u st) (student_subjects st))
   = underTargetSubjectsOf (sameStudentEmail rt) ws we u st"
  by (simp add: underTargetSubjectsOf_def subjectEntry_def [abs_def])

lemma processStudent_list:
  assumes "processStudent rt c ws we u st (acc, \<sigma>) = Inr (acc', \<sigma>')"
  shows "acc' = acc @ studentEntry rt ws we u st"
proof (cases "student_subjects st = []")
  case True
  then have "underTargetSubjectsOf (sameStudentEmail rt) ws we u st = []"
    by (simp add: underTargetSubjectsOf_def)
  with assms True show ?thesis by (simp add: processStudent_def studentEntry_def)
next
  case False
  from assms False obtain uts \<sigma>2 where
    r: "foldE (processSubject rt c ws we u st) (student_subjects st) ([], \<sigma>) = Inr (uts, \<sigma>2)"
    and e: "acc' = (if uts \<noteq> [] then acc @
                     [\<lparr>ust_studentName = orElse (student_name st) nameUnavailable,
                       ust_studentEmail = trim rt (toLowerCase rt (student_email st)),
                       ust_academicLevel = orElse (student_academicLevel st) levelUnspecified,
                       ust_underTargetSubjects = uts\<rparr>] else acc)"
    by (auto simp: processStudent_def bindE_Inr_iff split: if_splits)
  have "uts = underTargetSubjectsOf (sameStudentEmail rt) ws we u st"
    using subjects_list [OF r] by (simp add: subjects_spec)
  with e show ?thesis by (simp add: studentEntry_def)
qed

lemma students_list:
  assumes "foldE (processStudent rt c ws we u) sts (acc, \<sigma>) = Inr (acc', \<sigma>')"
  shows "acc' = acc @ concat (map (studentEntry rt ws we u) sts)"
proof -
  have "fst (acc', \<sigma>') = acc @ concat (map (studentEntry rt ws we u) ([] @ sts))"
    by (rule foldE_prefix_inv [OF assms,
          where Q = "\<lambda>ys t. fst t = acc @ concat (map (studentEntry rt ws we u) ys)"])
       (auto dest: processStudent_list)
  then show ?thesis by simp
qed

lemma students_spec:
  "concat (map (studentEntry rt ws we u) (user_students u))
   = underTargetStudentsOf rt (sameStudentEmail rt) ws we u"
  by (simp add: underTargetStudentsOf_def studentEntry_def [abs_def])

lemma notifiedFor_refl: "notifiedFor u db db"
  by (simp add: notifiedFor_def)

lemma notifiedFor_trans:
  assumes "notifiedFor u a b" and "notifiedFor u b c"
  shows "notifiedFor u a c"
proof -
  from assms(1) obtain ns where ns: "notifications b = notifications a @ ns"
    "\<forall>n \<in> set ns. notif_userId n = user_id u \<and> notif_type n = lowLectureType"
    by (auto simp: notifiedFor_def)
  from assms(2) obtain ms where ms: "notifications c = notifications b @ ms"
    "\<forall>n \<in> set ms. notif_userId n = user_id u \<and> notif_type n = lowLectureType"
    by (auto simp: notifiedFor_def)
  have "notifications c = notifications a @ (ns @ ms)" using ns ms by simp
  moreover have "\<forall>n \<in> set (ns @ ms). notif_userId n = user_id u \<and> notif_type n = lowLectureType"
    using ns ms by auto
  ultimately have "\<exists>ks. notifications c = notifications a @ ks
      \<and> (\<forall>n \<in> set ks. notif_userId n = user_id u \<and> notif_type n = lowLectureType)"
    by blast
  then show ?thesis using assms by (simp add: notifiedFor_def)
qed

lemma lowKeys_saveNotification:
  "lowKeys (saveNotification n db) =
     lowKeys db @ (if notif_type n = lowLectureType then [lowKey n] else [])"
  by (simp add: lowKeys_def saveNotification_def)

lemma find_low_None:
  assumes "find (lowNotificationFilter uid subj em) (notifications db) = None"
  shows "(uid, Some subj, Some em) \<notin> set (lowKeys db)"
proof
  assume "(uid, Some subj, Some em) \<in> set (lowKeys db)"
  then obtain n where "n \<in> set (notifications db)" "notif_type n = lowLectureType"
    "lowKey n = (uid, Some subj, Some em)"
    by (auto simp: lowKeys_def)
  then have "n \<in> set (notifications db) \<and> lowNotificationFilter uid subj em n"
    by (simp add: lowNotificationFilter_def lowKey_def)
  with assms show False by (auto simp: find_None_iff)
qed

lemma notifiedFor_saveNotification:
  assumes "find (lowNotificationFilter (user_id u) (subject_name sb)
                   (trim rt (toLowerCase rt (student_email st)))) (notifications db) = None"
  shows "notifiedFor u db (saveNotification (lowLectureNotification rt u st sb k) db)"
proof -
  have key: "lowKey (lowLectureNotification rt u st sb k)
             = (user_id u, Some (subject_name sb), Some (trim rt (toLowerCase rt (student_email st))))"
    by (simp add: lowKey_def lowLectureNotification_def)
  have "distinct (lowKeys db) \<longrightarrow>
        distinct (lowKeys (saveNotification (lowLectureNotification rt u st sb k) db))"
    using find_low_None [OF assms] by (simp add: lowKeys_saveNotification key)
  moreover have "notif_userId (lowLectureNotification rt u st sb k) = user_id u
      \<and> notif_type (lowLectureNotification rt u st sb k) = lowLectureType"
    by (simp add: lowLectureNotification_def)
  ultimately show ?thesis
    by (simp add: notifiedFor_def saveNotification_def)
qed

lemma processSubject_store:
  assumes "processSubject rt c ws we u st sb (acc, \<sigma>) = Inr (acc', \<sigma>')"
  shows "notifiedFor u (fst \<sigma>) (fst \<sigma>')"
proof -
  define k where "k = lectureCount rt ws we u st sb"
  consider (same) "fst \<sigma>' = fst \<sigma>"
    | (saved) \<sigma>1 where "await \<sigma> = Inr \<sigma>1"
        "find (lowNotificationFilter (user_id u) (subject_name sb)
                (trim rt (toLowerCase rt (student_email st)))) (notifications (fst \<sigma>1)) = None"
        "awaitWrite (saveNotification (lowLectureNotification rt u st sb k)) \<sigma>1 = Inr \<sigma>'"
    using assms
    by (auto simp: processSubject_def Let_def k_def bindE_Inr_iff
             split: if_splits option.splits dest: await_Inr)
  then show ?thesis
  proof cases
    case same
    then show ?thesis by (simp add: notifiedFor_refl)
  next
    case saved
    have "fst \<sigma>1 = fst \<sigma>" using saved(1) by (rule await_Inr)
    moreover have "fst \<sigma>' = saveNotification (lowLectureNotification rt u st sb k) (fst \<sigma>1)"
      using saved(3) by (rule awaitWrite_Inr)
    ultimately show ?thesis using notifiedFor_saveNotification [OF saved(2)] by simp
  qed
qed

lemma subjects_store:
  assumes "foldE (processSubject rt c ws we u st) sbs s = Inr s'"
  shows "notifiedFor u (fst (snd s)) (fst (snd s'))"
proof (rule foldE_inv [OF assms, where P = "\<lambda>t. notifiedFor u (fst (snd s)) (fst (snd t))"])
  show "notifiedFor u (fst (snd s)) (fst (snd s))" by (rule notifiedFor_refl)
next
  fix x t t'
  assume p: "notifiedFor u (fst (snd s)) (fst (snd t))"
    and f: "processSubject rt c ws we u st x t = Inr t'"
  have "notifiedFor u (fst (snd t)) (fst (snd t'))"
    using processSubject_store [of rt c ws we u st x "fst t" "snd t" "fst t'" "snd t'"] f by simp
  with p show "notifiedFor u (fst (snd s)) (fst (snd t'))" by (rule notifiedFor_trans)
qed

lemma processStudent_store:
  assumes "processStudent rt c ws we u st s = Inr s'"
  shows "notifiedFor u (fst (snd s)) (fst (snd s'))"
proof (cases "student_subjects st = []")
  case True
  with assms show ?thesis by (cases s) (auto simp: processStudent_def notifiedFor_refl)
next
  case False
  obtain acc \<sigma> where s: "s = (acc, \<sigma>)" by (cases s)
  from assms False s obtain r where
    r: "foldE (processSubject rt c ws we u st) (student_subjects st) ([], \<sigma>) = Inr r"
    and s': "snd s' = snd r"
    by (auto simp: processStudent_def bindE_Inr_iff split: if_splits prod.splits)
  show ?thesis using subjects_store [OF r] s s' by simp
qed

lemma students_store:
  assumes "foldE (processStudent rt c ws we u) sts s = Inr s'"
  shows "notifiedFor u (fst (snd s)) (fst (snd s'))"
proof (rule foldE_inv [OF assms, where P = "\<lambda>t. notifiedFor u (fst (snd s)) (fst (snd t))"])
  show "notifiedFor u (fst (snd s)) (fst (snd s))" by (rule notifiedFor_refl)
next
  fix x t t'
  assume p: "notifiedFor u (fst (snd s)) (fst (snd t))"
    and f: "processStudent rt c ws we u x t = Inr t'"
  show "notifiedFor u (fst (snd s)) (fst (snd t'))"
    using p processStudent_store [OF f] by (rule notifiedFor_trans)
qed

section \<open>One volunteer\<close>

lemma resetCounter_Inr:
  assumes "resetCounter c u \<sigma> = Inr \<sigma>'"
  shows "(c \<and> 0 < user_lowLectureWeekCount u
          \<and> fst \<sigma>' = saveUser (u\<lparr>user_lowLectureWeekCount := 0, user_lastLowLectureWeek := None\<rparr>) (fst \<sigma>))
         \<or> (\<not> (c \<and> 0 < user_lowLectureWeekCount u) \<and> \<sigma>' = \<sigma>)"
  using assms by (auto simp: resetCounter_def dest: awaitWrite_Inr split: if_splits)

lemma flagUser_Inr:
  assumes "flagUser c ws u j uts (ms, \<sigma>) = Inr (ms', \<sigma>')"
  shows "ms' = ms @
           [\<lparr>member_id = user_id u,
             member_name = orElse (jr_name j) (user_email u),
             member_email = user_email u,
             member_lowLectureWeekCount =
               (if c \<and> dueForCount ws u then user_lowLectureWeekCount u + 1
                else user_lowLectureWeekCount u),
             member_underTargetStudents = uts,
             member_lectures = map lectureView (user_lectures u)\<rparr>]"
    and "(c \<and> dueForCount ws u
          \<and> fst \<sigma>' = saveUser (u\<lparr>user_lowLectureWeekCount := user_lowLectureWeekCount u + 1,
                                  user_lastLowLectureWeek := Some ws\<rparr>) (fst \<sigma>))
         \<or> (\<not> (c \<and> dueForCount ws u) \<and> \<sigma>' = \<sigma>)"
  using assms
  by (auto simp: flagUser_def Let_def dueForCount_def bindE_Inr_iff
           dest: awaitWrite_Inr split: if_splits)

lemma evaluateUser_spec:
  assumes "evaluateUser rt c ws we u j (ms, \<sigma>) = Inr (ms', \<sigma>')"
    and j: "membershipOf rt js u = Some j" "jr_status j = ''Approved''"
  shows "ms' = ms @ flaggedMember rt c ws we js u"
    and "userStep u (evaluatedUser rt c ws we js u) (fst \<sigma>) (fst \<sigma>')"
proof -
  have ap: "approved rt js u" using j by (simp add: approved_def)
  obtain uts \<sigma>1 where
    uts: "uts = underTargetStudentsOf rt (sameStudentEmail rt) ws we u"
    and n: "notifiedFor u (fst \<sigma>) (fst \<sigma>1)"
    and r: "if uts \<noteq> [] then flagUser c ws u j uts (ms, \<sigma>1) = Inr (ms', \<sigma>')
            else resetCounter c u \<sigma>1 = Inr \<sigma>' \<and> ms' = ms"
  proof (cases "user_students u = []")
    case True
    then have "underTargetStudentsOf rt (sameStudentEmail rt) ws we u = []"
      by (simp add: underTargetStudentsOf_def)
    moreover have "resetCounter c u \<sigma> = Inr \<sigma>' \<and> ms' = ms"
      using assms(1) True by (auto simp: evaluateUser_def bindE_Inr_iff)
    ultimately show ?thesis using that [of "[]" \<sigma>] by (simp add: notifiedFor_refl)
  next
    case False
    with assms(1) obtain uts \<sigma>1 where
      f: "foldE (processStudent rt c ws we u) (user_students u) ([], \<sigma>) = Inr (uts, \<sigma>1)"
      and r: "if uts \<noteq> [] then flagUser c ws u j uts (ms, \<sigma>1) = Inr (ms', \<sigma>')
              else resetCounter c u \<sigma>1 = Inr \<sigma>' \<and> ms' = ms"
      by (auto simp: evaluateUser_def bindE_Inr_iff split: if_splits)
    have "uts = underTargetStudentsOf rt (sameStudentEmail rt) ws we u"
      using students_list [OF f] by (simp add: students_spec)
    moreover have "notifiedFor u (fst \<sigma>) (fst \<sigma>1)"
      using students_store [OF f] by simp
    ultimately show ?thesis using that r by blast
  qed
  show "ms' = ms @ flaggedMember rt c ws we js u"
  proof (cases "uts = []")
    case True
    with r uts j show ?thesis by (simp add: flaggedMember_def underTarget_def)
  next
    case False
    with r have "flagUser c ws u j uts (ms, \<sigma>1) = Inr (ms', \<sigma>')" by simp
    from flagUser_Inr(1) [OF this] False uts j ap show ?thesis
      by (simp add: flaggedMember_def underTarget_def evaluatedUser_def)
  qed
  show "userStep u (evaluatedUser rt c ws we js u) (fst \<sigma>) (fst \<sigma>')"
  proof (cases "uts = []")
    case True
    with r have "resetCounter c u \<sigma>1 = Inr \<sigma>'" by simp
    from resetCounter_Inr [OF this] True uts ap n show ?thesis
      by (auto simp: userStep_def evaluatedUser_def underTarget_def)
  next
    case False
    with r have "flagUser c ws u j uts (ms, \<sigma>1) = Inr (ms', \<sigma>')" by simp
    from flagUser_Inr(2) [OF this] False uts ap n show ?thesis
      by (auto simp: userStep_def evaluatedUser_def underTarget_def)
  qed
qed

lemma processUser_spec:
  assumes "processUser rt c ws we u (ms, \<sigma>) = Inr (ms', \<sigma>')"
  shows "ms' = ms @ flaggedMember rt c ws we (joinRequests (fst \<sigma>)) u"
    and "userStep u (evaluatedUser rt c ws we (joinRequests (fst \<sigma>)) u) (fst \<sigma>) (fst \<sigma>')"
    and "\<not> approved rt (joinRequests (fst \<sigma>)) u \<longrightarrow> fst \<sigma>' = fst \<sigma>"
proof -
  let ?js = "joinRequests (fst \<sigma>)"
  have "ms' = ms @ flaggedMember rt c ws we ?js u
        \<and> userStep u (evaluatedUser rt c ws we ?js u) (fst \<sigma>) (fst \<sigma>')
        \<and> (\<not> approved rt ?js u \<longrightarrow> fst \<sigma>' = fst \<sigma>)"
    using assms
  proof (cases rule: processUser_Inr)
    case (skipped \<sigma>1)
    have d: "fst \<sigma>1 = fst \<sigma>" using skipped(1) by (rule await_Inr)
    have na: "\<not> approved rt ?js u"
      using skipped(3) d by (auto simp: approved_def membershipOf_def split: option.splits)
    then have "flaggedMember rt c ws we ?js u = []"
      by (auto simp: flaggedMember_def approved_def split: option.splits)
    moreover have "evaluatedUser rt c ws we ?js u = u" using na by (simp add: evaluatedUser_def)
    ultimately show ?thesis
      using skipped(2) d by (auto simp: userStep_def intro: notifiedFor_refl)
  next
    case (evaluated \<sigma>1 j)
    have d: "fst \<sigma>1 = fst \<sigma>" using evaluated(1) by (rule await_Inr)
    have m: "membershipOf rt ?js u = Some j" using evaluated(2) d by (simp add: membershipOf_def)
    have "approved rt ?js u" using m evaluated(3) by (simp add: approved_def)
    then show ?thesis
      using evaluateUser_spec [OF evaluated(4) m evaluated(3)] d by simp
  qed
  then show "ms' = ms @ flaggedMember rt c ws we (joinRequests (fst \<sigma>)) u"
    and "userStep u (evaluatedUser rt c ws we (joinRequests (fst \<sigma>)) u) (fst \<sigma>) (fst \<sigma>')"
    and "\<not> approved rt (joinRequests (fst \<sigma>)) u \<longrightarrow> fst \<sigma>' = fst \<sigma>"
    by simp_all
qed

section \<open>All volunteers\<close>

lemma user_id_evaluatedUser [simp]: "user_id (evaluatedUser rt c ws we js u) = user_id u"
  by (simp add: evaluatedUser_def)

lemma lowKeys_saveUser [simp]: "lowKeys (saveUser u db) = lowKeys db"
  by (simp add: lowKeys_def saveUser_def)

lemma userStep_frame:
  assumes "userStep u u' db db'"
  shows "joinRequests db' = joinRequests db" and "reports db' = reports db"
    and "distinct (lowKeys db) \<longrightarrow> distinct (lowKeys db')"
    and "\<exists>ns. notifications db' = notifications db @ ns
              \<and> (\<forall>n \<in> set ns. notif_userId n = user_id u \<and> notif_type n = lowLectureType)"
    and "(u' = u \<and> users db' = users db) \<or> users db' = users (saveUser u' db)"
proof -
  from assms obtain db1 where n: "notifiedFor u db db1"
    and d: "(u' = u \<and> db' = db1) \<or> db' = saveUser u' db1"
    by (auto simp: userStep_def)
  from d show "joinRequests db' = joinRequests db"
    using n by (auto simp: notifiedFor_def saveUser_def)
  from d show "reports db' = reports db"
    using n by (auto simp: notifiedFor_def saveUser_def)
  from d show "distinct (lowKeys db) \<longrightarrow> distinct (lowKeys db')"
    using n by (auto simp: notifiedFor_def)
  from d show "\<exists>ns. notifications db' = notifications db @ ns
              \<and> (\<forall>n \<in> set ns. notif_userId n = user_id u \<and> notif_type n = lowLectureType)"
    using n by (auto simp: notifiedFor_def saveUser_def)
  from d show "(u' = u \<and> users db' = users db) \<or> users db' = users (saveUser u' db)"
    using n by (auto simp: notifiedFor_def saveUser_def)
qed

lemma save_evaluated:
  assumes d: "distinct (map user_id us)" and x: "x \<in> set us"
    and i: "user_id x' = user_id x"
    and g: "\<And>v. user_id (g v) = user_id v"
  shows "map (\<lambda>v. if user_id v = user_id x' then x' else v) (map g us)
         = map (\<lambda>v. if v = x then x' else g v) us"
proof -
  have inj: "inj_on user_id (set us)" using d by (simp add: distinct_map)
  have "\<And>v. v \<in> set us \<Longrightarrow> (user_id v = user_id x) = (v = x)"
    using inj x by (auto dest: inj_onD)
  then show ?thesis using i g by (simp add: comp_def)
qed

lemma usersInv_step:
  assumes inv: "usersInv rt c ws we db0 ys t"
    and x: "x \<in> set (users db0)"
    and p: "processUser rt c ws we x t = Inr t'"
  shows "usersInv rt c ws we db0 (ys @ [x]) t'"
proof -
  obtain ms \<sigma> where t: "t = (ms, \<sigma>)" by (cases t) 
  obtain ms' \<sigma>' where t': "t' = (ms', \<sigma>')" by (cases t')
  let ?js = "joinRequests db0"
  let ?ev = "evaluatedUser rt c ws we ?js"
  have js: "joinRequests (fst \<sigma>) = ?js" using inv t by (simp add: usersInv_def)
  have p': "processUser rt c ws we x (ms, \<sigma>) = Inr (ms', \<sigma>')" using p t t' by simp
  note spec = processUser_spec [OF p', unfolded js]
  note fr = userStep_frame [OF spec(2)]
  have 1: "ms' = concat (map (flaggedMember rt c ws we ?js) (ys @ [x]))"
    using spec(1) inv t by (simp add: usersInv_def)
  have 2: "joinRequests (fst \<sigma>') = ?js" using fr(1) js by simp
  have 3: "reports (fst \<sigma>') = reports db0" using fr(2) inv t by (simp add: usersInv_def)
  have 4: "users (fst \<sigma>') = map (\<lambda>v. if v \<in> set (ys @ [x]) then ?ev v else v) (users db0)"
    if d: "distinct (map user_id (users db0))"
  proof -
    let ?g = "\<lambda>v. if v \<in> set ys then ?ev v else v"
    have u: "users (fst \<sigma>) = map ?g (users db0)"
      using inv t d by (simp add: usersInv_def)
    have gid: "\<And>v. user_id (?g v) = user_id v" by simp
    from fr(5) show ?thesis
    proof
      assume "?ev x = x \<and> users (fst \<sigma>') = users (fst \<sigma>)"
      then show ?thesis using u by auto
    next
      assume "users (fst \<sigma>') = users (saveUser (?ev x) (fst \<sigma>))"
      then have "users (fst \<sigma>') = map (\<lambda>v. if user_id v = user_id (?ev x) then ?ev x else v)
                                      (map ?g (users db0))"
        using u by (simp add: saveUser_def)
      also have "\<dots> = map (\<lambda>v. if v = x then ?ev x else ?g v) (users db0)"
        by (rule save_evaluated [OF d x _ gid]) simp
      also have "\<dots> = map (\<lambda>v. if v \<in> set (ys @ [x]) then ?ev v else v) (users db0)"
        by (rule map_cong) auto
      finally show ?thesis .
    qed
  qed
  have 5: "\<exists>ns. notifications (fst \<sigma>') = notifications db0 @ ns
             \<and> (\<forall>n \<in> set ns. notif_type n = lowLectureType
                   \<and> (\<exists>u \<in> set (ys @ [x]). approved rt ?js u \<and> notif_userId n = user_id u))"
  proof -
    from inv t obtain ns where ns: "notifications (fst \<sigma>) = notifications db0 @ ns"
      "\<forall>n \<in> set ns. notif_type n = lowLectureType
           \<and> (\<exists>u \<in> set ys. approved rt ?js u \<and> notif_userId n = user_id u)"
      by (auto simp: usersInv_def)
    show ?thesis
    proof (cases "approved rt ?js x")
      case True
      from fr(4) obtain ks where ks: "notifications (fst \<sigma>') = notifications (fst \<sigma>) @ ks"
        "\<forall>n \<in> set ks. notif_userId n = user_id x \<and> notif_type n = lowLectureType"
        by blast
      have "notifications (fst \<sigma>') = notifications db0 @ (ns @ ks)" using ns ks by simp
      moreover have "\<forall>n \<in> set (ns @ ks). notif_type n = lowLectureType
           \<and> (\<exists>u \<in> set (ys @ [x]). approved rt ?js u \<and> notif_userId n = user_id u)"
        using ns(2) ks(2) True by auto
      ultimately show ?thesis by blast
    next
      case False
      then have "fst \<sigma>' = fst \<sigma>" using spec(3) by simp
      then have "notifications (fst \<sigma>') = notifications db0 @ ns" using ns by simp
      moreover have "\<forall>n \<in> set ns. notif_type n = lowLectureType
           \<and> (\<exists>u \<in> set (ys @ [x]). approved rt ?js u \<and> notif_userId n = user_id u)"
        using ns(2) by auto
      ultimately show ?thesis by blast
    qed
  qed
  have 6: "distinct (lowKeys db0) \<longrightarrow> distinct (lowKeys (fst \<sigma>'))"
    using fr(3) inv t by (simp add: usersInv_def)
  show ?thesis
    unfolding usersInv_def t' using 1 2 3 4 5 6 by simp
qed

lemma users_loop:
  assumes "foldE (processUser rt c ws we) xs ([], (db0, f)) = Inr t'"
    and "set xs \<subseteq> set (users db0)"
  shows "usersInv rt c ws we db0 xs t'"
proof -
  have "usersInv rt c ws we db0 ([] @ xs) t'"
  proof (rule foldE_prefix_inv [OF assms(1), where Q = "usersInv rt c ws we db0"])
    show "usersInv rt c ws we db0 [] ([], db0, f)" by (simp add: usersInv_def)
  next
    fix ys x t t'
    assume "x \<in> set xs" "usersInv rt c ws we db0 ys t" "processUser rt c ws we x t = Inr t'"
    then show "usersInv rt c ws we db0 (ys @ [x]) t'"
      using assms(2) usersInv_step by blast
  qed
  then show ?thesis by simp
qed

section \<open>The whole run\<close>

lemma runEvaluation_spec:
  assumes "runEvaluation rt c now stamp (db, f) = Inr (res, \<sigma>')"
  shows "res_members res = flaggedMembers rt c (weekStart rt now) (weekEnd rt now) db"
    and "res_success res"
    and "res_message res = resultMessage (length (res_members res))"
    and "res_debug res =
           \<lparr>debug_totalUsersProcessed = length [u \<leftarrow> users db. user_role u = ''user''],
            debug_weekStart = weekStart rt now, debug_weekEnd = weekEnd rt now,
            debug_membersWithLowLectures = length (res_members res)\<rparr>"
    and "joinRequests (fst \<sigma>') = joinRequests db"
    and "reports (fst \<sigma>') = (if c then reports db @ [weekReport rt c now stamp db] else reports db)"
    and "distinct (map user_id (users db)) \<longrightarrow>
           users (fst \<sigma>') = map (finalUser rt c (weekStart rt now) (weekEnd rt now) (joinRequests db)) (users db)"
    and "\<exists>ns. notifications (fst \<sigma>') = notifications db @ ns
          \<and> (\<forall>n \<in> set ns. notif_type n = lowLectureType
                \<and> (\<exists>u \<in> set (users db). user_role u = ''user'' \<and> approved rt (joinRequests db) u
                       \<and> notif_userId n = user_id u))"
    and "distinct (lowKeys db) \<longrightarrow> distinct (lowKeys (fst \<sigma>'))"
proof -
  let ?ws = "weekStart rt now" and ?we = "weekEnd rt now"
  let ?xs = "[u \<leftarrow> users db. user_role u = ''user'']"
  from assms obtain \<sigma>1 ms \<sigma>2 \<sigma>3 where a: "await (db, f) = Inr \<sigma>1"
    and l: "foldE (processUser rt c ?ws ?we) [u \<leftarrow> users (fst \<sigma>1). user_role u = ''user''] ([], \<sigma>1)
            = Inr (ms, \<sigma>2)"
    and w: "(if c then
               awaitWrite (saveReport
                 \<lparr>report_weekStart = ?ws, report_weekEnd = ?we, report_members = ms,
                  report_totalUsersProcessed = length [u \<leftarrow> users (fst \<sigma>1). user_role u = ''user''],
                  report_membersWithLowLectures = length ms,
                  report_createdAt = stamp\<rparr>) \<sigma>2
             else Inr \<sigma>2) = Inr \<sigma>3"
    and k: "await \<sigma>3 = Inr \<sigma>'"
    and res: "res = \<lparr>res_success = True,
                     res_message = resultMessage (length ms),
                     res_members = ms,
                     res_debug = \<lparr>debug_totalUsersProcessed =
                                    length [u \<leftarrow> users (fst \<sigma>1). user_role u = ''user''],
                                  debug_weekStart = ?ws, debug_weekEnd = ?we,
                                  debug_membersWithLowLectures = length ms\<rparr>\<rparr>"
    by (auto simp: runEvaluation_def bindE_Inr_iff Let_def split: prod.splits)
  have d1: "fst \<sigma>1 = db" using await_Inr [OF a] by simp
  then have s1: "\<sigma>1 = (db, snd \<sigma>1)" by (cases \<sigma>1) simp
  have "foldE (processUser rt c ?ws ?we) ?xs ([], (db, snd \<sigma>1)) = Inr (ms, \<sigma>2)"
    using l d1 s1 by simp
  then have inv: "usersInv rt c ?ws ?we db ?xs (ms, \<sigma>2)"
    by (rule users_loop) auto
  have ms: "ms = flaggedMembers rt c ?ws ?we db"
    using inv by (simp add: usersInv_def flaggedMembers_def)
  have d3: "fst \<sigma>3 = (if c then saveReport (weekReport rt c now stamp db) (fst \<sigma>2) else fst \<sigma>2)"
    using w d1 ms by (auto simp: weekReport_def dest: awaitWrite_Inr split: if_splits)
  have d4: "fst \<sigma>' = fst \<sigma>3" using k by (rule await_Inr)
  show "res_members res = flaggedMembers rt c ?ws ?we db" using res ms by simp
  show "res_success res" using res by simp
  show "res_message res = resultMessage (length (res_members res))" using res by simp
  show "res_debug res =
           \<lparr>debug_totalUsersProcessed = length ?xs,
            debug_weekStart = ?ws, debug_weekEnd = ?we,
            debug_membersWithLowLectures = length (res_members res)\<rparr>"
    using res d1 by simp
  show "joinRequests (fst \<sigma>') = joinRequests db"
    using inv d3 d4 by (simp add: usersInv_def saveReport_def)
  show "reports (fst \<sigma>') = (if c then reports db @ [weekReport rt c now stamp db] else reports db)"
    using inv d3 d4 by (simp add: usersInv_def saveReport_def)
  show "distinct (map user_id (users db)) \<longrightarrow>
           users (fst \<sigma>') = map (finalUser rt c ?ws ?we (joinRequests db)) (users db)"
  proof
    assume "distinct (map user_id (users db))"
    then have "users (fst \<sigma>2) =
        map (\<lambda>v. if v \<in> set ?xs then evaluatedUser rt c ?ws ?we (joinRequests db) v else v) (users db)"
      using inv by (simp add: usersInv_def)
    also have "\<dots> = map (finalUser rt c ?ws ?we (joinRequests db)) (users db)"
      by (rule map_cong) (auto simp: finalUser_def)
    finally show "users (fst \<sigma>') = map (finalUser rt c ?ws ?we (joinRequests db)) (users db)"
      using d3 d4 by (simp add: saveReport_def)
  qed
  show "\<exists>ns. notifications (fst \<sigma>') = notifications db @ ns
          \<and> (\<forall>n \<in> set ns. notif_type n = lowLectureType
                \<and> (\<exists>u \<in> set (users db). user_role u = ''user'' \<and> approved rt (joinRequests db) u
                       \<and> notif_userId n = user_id u))"
  proof -
    from inv obtain ns where ns: "notifications (fst \<sigma>2) = notifications db @ ns"
      "\<forall>n \<in> set ns. notif_type n = lowLectureType
           \<and> (\<exists>u \<in> set ?xs. approved rt (joinRequests db) u \<and> notif_userId n = user_id u)"
      by (auto simp: usersInv_def)
    have "notifications (fst \<sigma>') = notifications db @ ns"
      using ns(1) d3 d4 by (simp add: saveReport_def)
    moreover have "\<forall>n \<in> set ns. notif_type n = lowLectureType
                \<and> (\<exists>u \<in> set (users db). user_role u = ''user'' \<and> approved rt (joinRequests db) u
                       \<and> notif_userId n = user_id u)"
      using ns(2) by auto
    ultimately show ?thesis by blast
  qed
  show "distinct (lowKeys db) \<longrightarrow> distinct (lowKeys (fst \<sigma>'))"
    using inv d3 d4 by (simp add: usersInv_def lowKeys_def saveReport_def)
qed

lemma checkLowLectureMembers_Inr:
  assumes "checkLowLectureMembers rt c now stamp f db = (Inr res, db')"
  obtains f1 \<sigma>' where "runEvaluation rt c now stamp (db, f1) = Inr (res, \<sigma>')" "db' = fst \<sigma>'"
  using assms by (auto simp: checkLowLectureMembers_def split: sum.splits prod.splits)

lemma checkLowLectureMembers_Inl:
  assumes "checkLowLectureMembers rt c now stamp f db = (Inl e, db')"
  shows "db' = db"
  using assms by (auto simp: checkLowLectureMembers_def split: sum.splits prod.splits)

section \<open>A run without a failing store operation returns\<close>

lemma foldE_total:
  assumes "P s" and "\<And>x t. P t \<Longrightarrow> \<exists>t'. f x t = Inr t' \<and> P t'"
  shows "\<exists>s'. foldE f xs s = Inr s' \<and> P s'"
  using assms(1)
proof (induction xs arbitrary: s)
  case Nil
  then show ?case by simp
next
  case (Cons x xs)
  from assms(2) [OF Cons.prems] obtain t where t: "f x s = Inr t" "P t" by blast
  from Cons.IH [OF t(2)] t(1) show ?case by simp
qed

lemma processSubject_total:
  assumes "snd (snd s) = None"
  shows "\<exists>s'. processSubject rt c ws we u st sb s = Inr s' \<and> snd (snd s') = None"
proof -
  obtain acc db where s: "s = (acc, db, None)" using assms by (cases s) auto
  show ?thesis
    unfolding s
    by (simp add: processSubject_def Let_def await_no_fault awaitWrite_no_fault
             split: option.splits)
qed

lemma processStudent_total:
  assumes "snd (snd s) = None"
  shows "\<exists>s'. processStudent rt c ws we u st s = Inr s' \<and> snd (snd s') = None"
proof -
  obtain acc db where s: "s = (acc, db, None)" using assms by (cases s) auto
  have "\<exists>r. foldE (processSubject rt c ws we u st) (student_subjects st) ([], db, None) = Inr r
            \<and> snd (snd r) = None"
    by (rule foldE_total [where P = "\<lambda>t. snd (snd t) = None"], simp)
       (rule processSubject_total)
  then show ?thesis
    unfolding s by (auto simp: processStudent_def split: prod.splits)
qed

lemma resetCounter_total:
  "snd \<sigma> = None \<Longrightarrow> \<exists>\<sigma>'. resetCounter c u \<sigma> = Inr \<sigma>' \<and> snd \<sigma>' = None"
  by (cases \<sigma>) (simp add: resetCounter_def awaitWrite_no_fault)

lemma flagUser_total:
  assumes "snd (snd s) = None"
  shows "\<exists>s'. flagUser c ws u j uts s = Inr s' \<and> snd (snd s') = None"
proof -
  obtain ms db where s: "s = (ms, db, None)" using assms by (cases s) auto
  show ?thesis unfolding s by (simp add: flagUser_def Let_def awaitWrite_no_fault)
qed

lemma evaluateUser_total:
  assumes "snd (snd s) = None"
  shows "\<exists>s'. evaluateUser rt c ws we u j s = Inr s' \<and> snd (snd s') = None"
proof -
  obtain ms db where s: "s = (ms, db, None)" using assms by (cases s) auto
  have l: "\<exists>r. foldE (processStudent rt c ws we u) (user_students u) ([], db, None) = Inr r
            \<and> snd (snd r) = None"
    by (rule foldE_total [where P = "\<lambda>t. snd (snd t) = None"], simp)
       (rule processStudent_total)
  show ?thesis
  proof (cases "user_students u = []")
    case True
    then show ?thesis
      unfolding s using resetCounter_total [of "(db, None)" c u]
      by (auto simp: evaluateUser_def)
  next
    case False
    from l obtain uts \<sigma>1 where r: "foldE (processStudent rt c ws we u) (user_students u) ([], db, None)
        = Inr (uts, \<sigma>1)" "snd \<sigma>1 = None" by auto
    show ?thesis
      unfolding s using False r resetCounter_total [OF r(2), of c u]
        flagUser_total [of "(ms, \<sigma>1)" c ws u j uts]
      by (auto simp: evaluateUser_def)
  qed
qed

lemma processUser_total:
  assumes "snd (snd s) = None"
  shows "\<exists>s'. processUser rt c ws we u s = Inr s' \<and> snd (snd s') = None"
proof -
  obtain ms db where s: "s = (ms, db, None)" using assms by (cases s) auto
  show ?thesis
    unfolding s using evaluateUser_total [of "(ms, db, None)"]
    by (auto simp: processUser_def await_no_fault split: option.splits)
qed

lemma runEvaluation_total: "\<exists>res \<sigma>'. runEvaluation rt c now stamp (db, None) = Inr (res, \<sigma>')"
proof -
  have "\<exists>r. foldE (processUser rt c (weekStart rt now) (weekEnd rt now))
               [u \<leftarrow> users db. user_role u = ''user''] ([], db, None) = Inr r
            \<and> snd (snd r) = None"
    by (rule foldE_total [where P = "\<lambda>t. snd (snd t) = None"], simp)
       (rule processUser_total)
  then obtain ms \<sigma>2 where r: "foldE (processUser rt c (weekStart rt now) (weekEnd rt now))
               [u \<leftarrow> users db. user_role u = ''user''] ([], db, None) = Inr (ms, \<sigma>2)"
    "snd \<sigma>2 = None" by auto
  show ?thesis
    using r by (simp add: runEvaluation_def await_no_fault awaitWrite_no_fault Let_def)
qed

lemma checkLowLectureMembers_total:
  "\<exists>res db'. checkLowLectureMembers rt c now stamp None db = (Inr res, db')"
  using runEvaluation_total [of rt c now stamp db]
  by (auto simp: checkLowLectureMembers_def)

section \<open>Claims about the on-demand path\<close>

text \<open>
  Claim C4.  A run of the evaluator that is not the scheduled one leaves the store as it
  was, whatever the store, the clock and the failing operation are: no counter, no
  notification and no report is written.  The same holds of the route that calls it.
\<close>

theorem on_demand_run_writes_nothing:
  "snd (checkLowLectureMembers rt False now stamp f db) = db
   \<and> snd (getLowLectureMembers rt auth now now' stamp f db) = db"
proof -
  have a: "snd (checkLowLectureMembers rt False now stamp f db) = db" for now stamp f
    by (rule checkLowLectureMembers_read_only)
  have "snd (getLowLectureMembers rt auth now now' stamp f db) = db"
    by (auto simp: getLowLectureMembers_def split: option.splits sum.splits prod.splits)
       (metis a snd_conv)+
  with a show ?thesis by simp
qed

theorem on_demand_run_writes_nothing_witness:
  "snd (checkLowLectureMembers exRuntime False exNow 5 None exStore) = exStore
   \<and> snd (getLowLectureMembers exRuntime (Some (''a1'', ''admin'')) exNow exNow 5 None exStore) = exStore
   \<and> fst (checkLowLectureMembers exRuntime False exNow 5 None exStore) \<noteq> Inl StoreError"
proof -
  have "fst (checkLowLectureMembers exRuntime False exNow 5 None exStore) \<noteq> Inl StoreError"
    by code_simp
  then show ?thesis
    using on_demand_run_writes_nothing [where now = exNow and stamp = 5 and f = None and db = exStore
        and auth = "Some (''a1'', ''admin'')" and now' = exNow]
    by simp
qed

section \<open>The flagged members\<close>

lemma no_students_not_underTarget: "user_students u = [] \<Longrightarrow> \<not> underTarget rt ws we u"
  by (simp add: underTarget_def underTargetStudentsOf_def)

lemma flaggedMember_cases:
  "flaggedMember rt c ws we js u =
     (if approved rt js u \<and> underTarget rt ws we u then
        [\<lparr>member_id = user_id u,
          member_name = orElse (jr_name (the (membershipOf rt js u))) (user_email u),
          member_email = user_email u,
          member_lowLectureWeekCount = user_lowLectureWeekCount (evaluatedUser rt c ws we js u),
          member_underTargetStudents = underTargetStudentsOf rt (sameStudentEmail rt) ws we u,
          member_lectures = map lectureView (user_lectures u)\<rparr>]
      else [])"
  by (auto simp: flaggedMember_def approved_def split: option.splits)

lemma flaggedMembers_member:
  assumes "m \<in> set (flaggedMembers rt c ws we db)"
  obtains u where "u \<in> set (users db)" "user_role u = ''user''" "approved rt (joinRequests db) u"
    "underTarget rt ws we u" "member_id m = user_id u"
    "member_underTargetStudents m = underTargetStudentsOf rt (sameStudentEmail rt) ws we u"
    "member_lectures m = map lectureView (user_lectures u)"
proof -
  from assms obtain u where u: "u \<in> set (users db)" "user_role u = ''user''"
    and m: "m \<in> set (flaggedMember rt c ws we (joinRequests db) u)"
    by (auto simp: flaggedMembers_def)
  from m have "approved rt (joinRequests db) u \<and> underTarget rt ws we u"
    by (auto simp: flaggedMember_cases split: if_splits)
  with m u that show ?thesis by (auto simp: flaggedMember_cases)
qed

lemma checkLowLectureMembers_spec:
  assumes "checkLowLectureMembers rt c now stamp f db = (Inr res, db')"
  shows "res_members res = flaggedMembers rt c (weekStart rt now) (weekEnd rt now) db"
    and "joinRequests db' = joinRequests db"
    and "reports db' = (if c then reports db @ [weekReport rt c now stamp db] else reports db)"
    and "distinct (map user_id (users db)) \<Longrightarrow>
           users db' = map (finalUser rt c (weekStart rt now) (weekEnd rt now) (joinRequests db)) (users db)"
    and "\<exists>ns. notifications db' = notifications db @ ns
          \<and> (\<forall>n \<in> set ns. notif_type n = lowLectureType
                \<and> (\<exists>u \<in> set (users db). user_role u = ''user'' \<and> approved rt (joinRequests db) u
                       \<and> notif_userId n = user_id u))"
    and "distinct (lowKeys db) \<Longrightarrow> distinct (lowKeys db')"
proof -
  from assms obtain f1 \<sigma>' where r: "runEvaluation rt c now stamp (db, f1) = Inr (res, \<sigma>')"
    and d: "db' = fst \<sigma>'"
    by (rule checkLowLectureMembers_Inr)
  note s = runEvaluation_spec [OF r]
  show "res_members res = flaggedMembers rt c (weekStart rt now) (weekEnd rt now) db" by (rule s(1))
  show "joinRequests db' = joinRequests db" using s(5) d by simp
  show "reports db' = (if c then reports db @ [weekReport rt c now stamp db] else reports db)"
    using s(6) d by simp
  show "distinct (map user_id (users db)) \<Longrightarrow>
           users db' = map (finalUser rt c (weekStart rt now) (weekEnd rt now) (joinRequests db)) (users db)"
    using s(7) d by simp
  show "\<exists>ns. notifications db' = notifications db @ ns
          \<and> (\<forall>n \<in> set ns. notif_type n = lowLectureType
                \<and> (\<exists>u \<in> set (users db). user_role u = ''user'' \<and> approved rt (joinRequests db) u
                       \<and> notif_userId n = user_id u))"
    using s(8) d by simp
  show "distinct (lowKeys db) \<Longrightarrow> distinct (lowKeys db')" using s(9) d by simp
qed

text \<open>The run on the small store returns.\<close>

lemma run_returns:
  "checkLowLectureMembers rt c now stamp None db =
     (Inr (projr (fst (checkLowLectureMembers rt c now stamp None db))),
      snd (checkLowLectureMembers rt c now stamp None db))"
proof -
  obtain res db' where "checkLowLectureMembers rt c now stamp None db = (Inr res, db')"
    using checkLowLectureMembers_total by blast
  then show ?thesis by simp
qed

lemma ex_week: "weekStart exRuntime exNow = 770400000" "weekEnd exRuntime exNow = 1375199999"
  by (simp_all add: exNow_def weekStart_def weekEnd_def previousSaturday_def
      daysToPreviousSaturday_def getDay_def addDays_def setHours_def msPerDay_def exRuntime_def
      cairoLocalTime_def cairoUtcTime_def cairoDstStart_def cairoDstEnd_def)

section \<open>Claims about the result of a run\<close>




text \<open>
  Claim C10.  Every member of the result carries all stored lectures of its volunteer,
  each one mapped to its view, whatever their dates.
\<close>

theorem member_lectures_whole_history:
  assumes "checkLowLectureMembers rt c now stamp f db = (Inr res, db')"
  shows "\<forall>m \<in> set (res_members res).
           \<exists>u \<in> set (users db). user_role u = ''user'' \<and> member_id m = user_id u
             \<and> member_lectures m = map lectureView (user_lectures u)"
proof
  fix m
  assume "m \<in> set (res_members res)"
  then have "m \<in> set (flaggedMembers rt c (weekStart rt now) (weekEnd rt now) db)"
    using checkLowLectureMembers_spec(1) [OF assms] by simp
  then show "\<exists>u \<in> set (users db). user_role u = ''user'' \<and> member_id m = user_id u
             \<and> member_lectures m = map lectureView (user_lectures u)"
    by (rule flaggedMembers_member) blast
qed

theorem member_lectures_whole_history_witness:
  "map (\<lambda>m. map lv_createdAt (member_lectures m))
       (res_members (projr (fst (checkLowLectureMembers exRuntime False exNow 5 None exStore))))
   = [[770399999, 770400000, 1375199999]]"
proof -
  let ?res = "projr (fst (checkLowLectureMembers exRuntime False exNow 5 None exStore))"
  have one: "map member_id (res_members ?res) = [''u1'']"
    by code_simp
  then obtain m where m: "res_members ?res = [m]" by auto
  from member_lectures_whole_history [OF run_returns, of exRuntime False exNow 5 exStore] m
  have "member_lectures m = map lectureView (user_lectures exUser)"
    by (simp add: exStore_def)
  then show ?thesis
    using m by (simp add: exUser_def exLecture_def lectureView_def)
qed

section \<open>Claims about the rolling counter\<close>

lemma underTargetStudentsOf_cong:
  assumes "user_students u' = user_students u" and "user_lectures u' = user_lectures u"
  shows "underTargetStudentsOf rt same ws we u' = underTargetStudentsOf rt same ws we u"
proof -
  have d: "deliveredInWeek same ws we u' = deliveredInWeek same ws we u"
    using assms(2) by (simp add: deliveredInWeek_def fun_eq_iff)
  have "underTargetSubjectsOf same ws we u' = underTargetSubjectsOf same ws we u"
    by (simp only: underTargetSubjectsOf_def [abs_def] d)
  then show ?thesis by (simp only: underTargetStudentsOf_def assms(1))
qed

lemma evaluatedUser_frame [simp]:
  "user_email (evaluatedUser rt c ws we js u) = user_email u"
  "user_role (evaluatedUser rt c ws we js u) = user_role u"
  "user_students (evaluatedUser rt c ws we js u) = user_students u"
  "user_lectures (evaluatedUser rt c ws we js u) = user_lectures u"
  by (simp_all add: evaluatedUser_def)

lemma underTarget_cong:
  assumes "user_students u' = user_students u" and "user_lectures u' = user_lectures u"
  shows "underTarget rt ws we u' = underTarget rt ws we u"
  using underTargetStudentsOf_cong [OF assms] by (simp add: underTarget_def)

lemma underTarget_evaluatedUser [simp]:
  "underTarget rt ws we (evaluatedUser rt c ws' we' js u) = underTarget rt ws we u"
  by (rule underTarget_cong) simp_all

lemma approved_evaluatedUser [simp]:
  "approved rt js (evaluatedUser rt c ws we js' u) = approved rt js u"
  by (simp add: approved_def membershipOf_def)

lemma evaluatedUser_idem:
  "evaluatedUser rt True ws we js (evaluatedUser rt True ws we js u) = evaluatedUser rt True ws we js u"
proof (cases "approved rt js u")
  case False
  then show ?thesis by (simp add: evaluatedUser_def)
next
  case True
  show ?thesis
  proof (cases "underTarget rt ws we u")
    case True
    have "evaluatedUser rt True ws we js u
          = (if dueForCount ws u
             then u\<lparr>user_lowLectureWeekCount := user_lowLectureWeekCount u + 1,
                    user_lastLowLectureWeek := Some ws\<rparr> else u)"
      using True \<open>approved rt js u\<close> by (simp add: evaluatedUser_def)
    moreover have "evaluatedUser rt True ws we js (evaluatedUser rt True ws we js u)
          = (if dueForCount ws (evaluatedUser rt True ws we js u)
             then (evaluatedUser rt True ws we js u)
                    \<lparr>user_lowLectureWeekCount :=
                       user_lowLectureWeekCount (evaluatedUser rt True ws we js u) + 1,
                     user_lastLowLectureWeek := Some ws\<rparr>
             else evaluatedUser rt True ws we js u)"
      using True \<open>approved rt js u\<close> by (subst evaluatedUser_def) simp
    ultimately show ?thesis by (simp add: dueForCount_def)
  next
    case False
    have "evaluatedUser rt True ws we js u
          = (if 0 < user_lowLectureWeekCount u
             then u\<lparr>user_lowLectureWeekCount := 0, user_lastLowLectureWeek := None\<rparr> else u)"
      using False \<open>approved rt js u\<close> by (simp add: evaluatedUser_def)
    moreover have "evaluatedUser rt True ws we js (evaluatedUser rt True ws we js u)
          = (if 0 < user_lowLectureWeekCount (evaluatedUser rt True ws we js u)
             then (evaluatedUser rt True ws we js u)
                    \<lparr>user_lowLectureWeekCount := 0, user_lastLowLectureWeek := None\<rparr>
             else evaluatedUser rt True ws we js u)"
      using False \<open>approved rt js u\<close> by (subst evaluatedUser_def) simp
    ultimately show ?thesis by simp
  qed
qed

lemma finalUser_idem:
  "finalUser rt True ws we js (finalUser rt True ws we js u) = finalUser rt True ws we js u"
  by (simp add: finalUser_def evaluatedUser_idem)

lemma user_id_finalUser [simp]: "user_id (finalUser rt c ws we js u) = user_id u"
  by (simp add: finalUser_def)

lemma finalUser_counted:
  assumes "user_role u = ''user''" "approved rt js u" "underTarget rt ws we u" "dueForCount ws u"
  shows "finalUser rt True ws we js u
         = u\<lparr>user_lowLectureWeekCount := user_lowLectureWeekCount u + 1,
             user_lastLowLectureWeek := Some ws\<rparr>"
  using assms by (simp add: finalUser_def evaluatedUser_def)

lemma finalUser_compliant:
  assumes "user_role u = ''user''" "approved rt js u" "\<not> underTarget rt ws we u"
  shows "finalUser rt True ws we js u
         = (if 0 < user_lowLectureWeekCount u
            then u\<lparr>user_lowLectureWeekCount := 0, user_lastLowLectureWeek := None\<rparr> else u)"
  using assms by (simp add: finalUser_def evaluatedUser_def)

lemma finalUser_skipped:
  assumes "\<not> approved rt js u"
  shows "finalUser rt c ws we js u = u"
  using assms by (simp add: finalUser_def evaluatedUser_def)

lemma two_scheduled_runs:
  assumes d: "distinct (map user_id (users db))"
    and r1: "checkLowLectureMembers rt True now1 stamp1 f1 db = (Inr res1, db1)"
    and r2: "checkLowLectureMembers rt True now2 stamp2 f2 db1 = (Inr res2, db2)"
  shows "regularZone rt \<and> weekStart rt now2 = weekStart rt now1 \<longrightarrow>
           users db2 = users db1
           \<and> map user_lowLectureWeekCount (users db2) = map user_lowLectureWeekCount (users db1)"
    and "\<forall>u \<in> set (users db1).
           user_role u = ''user'' \<and> approved rt (joinRequests db1) u
           \<and> underTarget rt (weekStart rt now2) (weekEnd rt now2) u \<and> dueForCount (weekStart rt now2) u
           \<longrightarrow> u\<lparr>user_lowLectureWeekCount := user_lowLectureWeekCount u + 1,
                  user_lastLowLectureWeek := Some (weekStart rt now2)\<rparr> \<in> set (users db2)"
    and "weekStart rt now1 < weekStart rt now2 \<longrightarrow>
         (\<forall>u \<in> set (users db).
           user_role u = ''user'' \<and> approved rt (joinRequests db) u
           \<and> underTarget rt (weekStart rt now1) (weekEnd rt now1) u \<and> dueForCount (weekStart rt now1) u
           \<and> underTarget rt (weekStart rt now2) (weekEnd rt now2) u
           \<longrightarrow> u\<lparr>user_lowLectureWeekCount := user_lowLectureWeekCount u + 2,
                  user_lastLowLectureWeek := Some (weekStart rt now2)\<rparr> \<in> set (users db2))"
    and "weekStart rt now2 = weekStart rt now1 \<longrightarrow>
         (\<forall>u \<in> set (users db).
           user_role u = ''user'' \<and> approved rt (joinRequests db) u
           \<and> underTarget rt (weekStart rt now1) (weekEnd rt now1) u
           \<and> underTarget rt (weekStart rt now2) (weekEnd rt now2) u
           \<longrightarrow> finalUser rt True (weekStart rt now1) (weekEnd rt now1) (joinRequests db) u
                  \<in> set (users db1)
               \<and> finalUser rt True (weekStart rt now1) (weekEnd rt now1) (joinRequests db) u
                  \<in> set (users db2))"
proof -
  let ?js = "joinRequests db"
  let ?f1 = "finalUser rt True (weekStart rt now1) (weekEnd rt now1) ?js"
  let ?f2 = "finalUser rt True (weekStart rt now2) (weekEnd rt now2) ?js"
  have u1: "users db1 = map ?f1 (users db)"
    using checkLowLectureMembers_spec(4) [OF r1 d] .
  have j1: "joinRequests db1 = ?js"
    using checkLowLectureMembers_spec(2) [OF r1] .
  have d1: "distinct (map user_id (users db1))"
    using d u1 by (simp add: comp_def)
  have u2: "users db2 = map ?f2 (users db1)"
    using checkLowLectureMembers_spec(4) [OF r2 d1] j1 by simp
  show "regularZone rt \<and> weekStart rt now2 = weekStart rt now1 \<longrightarrow>
           users db2 = users db1
           \<and> map user_lowLectureWeekCount (users db2) = map user_lowLectureWeekCount (users db1)"
  proof
    assume z: "regularZone rt \<and> weekStart rt now2 = weekStart rt now1"
    then have e: "weekStart rt now2 = weekStart rt now1" by simp
    from z have "regularZone rt" by simp
    then have "weekEnd rt now2 = weekEnd rt now1" using e by (rule weekEnd_weekStart)
    with e have "users db2 = users db1"
      using u1 u2 by (simp add: finalUser_idem)
    then show "users db2 = users db1
           \<and> map user_lowLectureWeekCount (users db2) = map user_lowLectureWeekCount (users db1)"
      by simp
  qed
  show b: "\<forall>u \<in> set (users db1).
           user_role u = ''user'' \<and> approved rt (joinRequests db1) u
           \<and> underTarget rt (weekStart rt now2) (weekEnd rt now2) u \<and> dueForCount (weekStart rt now2) u
           \<longrightarrow> u\<lparr>user_lowLectureWeekCount := user_lowLectureWeekCount u + 1,
                  user_lastLowLectureWeek := Some (weekStart rt now2)\<rparr> \<in> set (users db2)"
  proof (intro ballI impI)
    fix u
    assume u: "u \<in> set (users db1)"
      and h: "user_role u = ''user'' \<and> approved rt (joinRequests db1) u
           \<and> underTarget rt (weekStart rt now2) (weekEnd rt now2) u \<and> dueForCount (weekStart rt now2) u"
    have "?f2 u = u\<lparr>user_lowLectureWeekCount := user_lowLectureWeekCount u + 1,
                    user_lastLowLectureWeek := Some (weekStart rt now2)\<rparr>"
      using h j1 by (simp add: finalUser_counted)
    moreover have "?f2 u \<in> set (users db2)" using u u2 by simp
    ultimately show "u\<lparr>user_lowLectureWeekCount := user_lowLectureWeekCount u + 1,
                  user_lastLowLectureWeek := Some (weekStart rt now2)\<rparr> \<in> set (users db2)"
      by simp
  qed
  show "weekStart rt now1 < weekStart rt now2 \<longrightarrow>
         (\<forall>u \<in> set (users db).
           user_role u = ''user'' \<and> approved rt (joinRequests db) u
           \<and> underTarget rt (weekStart rt now1) (weekEnd rt now1) u \<and> dueForCount (weekStart rt now1) u
           \<and> underTarget rt (weekStart rt now2) (weekEnd rt now2) u
           \<longrightarrow> u\<lparr>user_lowLectureWeekCount := user_lowLectureWeekCount u + 2,
                  user_lastLowLectureWeek := Some (weekStart rt now2)\<rparr> \<in> set (users db2))"
  proof (intro impI ballI)
    fix u
    assume lt: "weekStart rt now1 < weekStart rt now2" and u: "u \<in> set (users db)"
      and h: "user_role u = ''user'' \<and> approved rt (joinRequests db) u
           \<and> underTarget rt (weekStart rt now1) (weekEnd rt now1) u \<and> dueForCount (weekStart rt now1) u
           \<and> underTarget rt (weekStart rt now2) (weekEnd rt now2) u"
    define v where "v = u\<lparr>user_lowLectureWeekCount := user_lowLectureWeekCount u + 1,
                          user_lastLowLectureWeek := Some (weekStart rt now1)\<rparr>"
    have "?f1 u = v" using h by (simp add: finalUser_counted v_def)
    then have v: "v \<in> set (users db1)" using u u1 by force
    have "underTarget rt (weekStart rt now2) (weekEnd rt now2) v = underTarget rt (weekStart rt now2) (weekEnd rt now2) u"
      by (rule underTarget_cong) (simp_all add: v_def)
    then have "underTarget rt (weekStart rt now2) (weekEnd rt now2) v" using h by simp
    moreover have "approved rt (joinRequests db1) v"
      using h j1 by (simp add: v_def approved_def membershipOf_def)
    moreover have "dueForCount (weekStart rt now2) v" using lt by (simp add: v_def dueForCount_def)
    moreover have "user_role v = ''user''" using h by (simp add: v_def)
    ultimately have "v\<lparr>user_lowLectureWeekCount := user_lowLectureWeekCount v + 1,
                  user_lastLowLectureWeek := Some (weekStart rt now2)\<rparr> \<in> set (users db2)"
      using b v by blast
    then show "u\<lparr>user_lowLectureWeekCount := user_lowLectureWeekCount u + 2,
                  user_lastLowLectureWeek := Some (weekStart rt now2)\<rparr> \<in> set (users db2)"
      by (simp add: v_def)
  qed
  show "weekStart rt now2 = weekStart rt now1 \<longrightarrow>
         (\<forall>u \<in> set (users db).
           user_role u = ''user'' \<and> approved rt (joinRequests db) u
           \<and> underTarget rt (weekStart rt now1) (weekEnd rt now1) u
           \<and> underTarget rt (weekStart rt now2) (weekEnd rt now2) u
           \<longrightarrow> ?f1 u \<in> set (users db1) \<and> ?f1 u \<in> set (users db2))"
  proof (intro impI ballI)
    fix u
    assume e: "weekStart rt now2 = weekStart rt now1" and u: "u \<in> set (users db)"
      and h: "user_role u = ''user'' \<and> approved rt (joinRequests db) u
           \<and> underTarget rt (weekStart rt now1) (weekEnd rt now1) u
           \<and> underTarget rt (weekStart rt now2) (weekEnd rt now2) u"
    define v where "v = evaluatedUser rt True (weekStart rt now1) (weekEnd rt now1) ?js u"
    have fv: "?f1 u = v" using h by (simp add: finalUser_def v_def)
    have v1: "?f1 u \<in> set (users db1)" using u u1 by simp
    have role: "user_role v = ''user''" using h by (simp add: v_def)
    have ap: "approved rt ?js v" using h by (simp add: v_def)
    have ut: "underTarget rt (weekStart rt now2) (weekEnd rt now2) v"
      using h by (simp add: v_def)
    have nd: "\<not> dueForCount (weekStart rt now2) v"
      using h e by (simp add: v_def evaluatedUser_def dueForCount_def)
    have "evaluatedUser rt True (weekStart rt now2) (weekEnd rt now2) ?js v = v"
      using ap ut nd by (subst evaluatedUser_def) simp
    then have "?f2 v = v" using role by (simp add: finalUser_def)
    then have "?f2 (?f1 u) = ?f1 u" by (simp only: fv)
    moreover have "?f2 (?f1 u) \<in> set (users db2)" using v1 u2 by simp
    ultimately show "?f1 u \<in> set (users db1) \<and> ?f1 u \<in> set (users db2)" using v1 by simp
  qed
qed

text \<open>
  Claim C3.  Two scheduled runs that return, one after the other, on a store whose
  volunteers have distinct ids.  If the second run computes the same \<open>weekStart\<close> as the
  first, then in a regular zone, where the start of the window fixes its end, it leaves
  every volunteer document, hence every \<open>lowLectureWeekCount\<close>, as the first run left
  it; and in every zone the document that the first run left of a volunteer it flagged
  is still the document of that volunteer after the second run, when the second run
  finds the volunteer under target too.  If a volunteer that the second run evaluates is
  under target in its week and has no \<open>lastLowLectureWeek\<close> or an earlier one than its
  \<open>weekStart\<close>, the second run adds exactly 1 to the counter and stores its \<open>weekStart\<close>;
  in particular a volunteer counted by the first run and still under target in a later
  week is counted once more.
\<close>

theorem counter_once_per_week:
  assumes "distinct (map user_id (users db))"
    and "checkLowLectureMembers rt True now1 stamp1 f1 db = (Inr res1, db1)"
    and "checkLowLectureMembers rt True now2 stamp2 f2 db1 = (Inr res2, db2)"
  shows "(regularZone rt \<and> weekStart rt now2 = weekStart rt now1 \<longrightarrow>
           users db2 = users db1
           \<and> map user_lowLectureWeekCount (users db2) = map user_lowLectureWeekCount (users db1))
    \<and> (\<forall>u \<in> set (users db1).
           user_role u = ''user'' \<and> approved rt (joinRequests db1) u
           \<and> underTarget rt (weekStart rt now2) (weekEnd rt now2) u \<and> dueForCount (weekStart rt now2) u
           \<longrightarrow> u\<lparr>user_lowLectureWeekCount := user_lowLectureWeekCount u + 1,
                  user_lastLowLectureWeek := Some (weekStart rt now2)\<rparr> \<in> set (users db2))
    \<and> (weekStart rt now1 < weekStart rt now2 \<longrightarrow>
         (\<forall>u \<in> set (users db).
           user_role u = ''user'' \<and> approved rt (joinRequests db) u
           \<and> underTarget rt (weekStart rt now1) (weekEnd rt now1) u \<and> dueForCount (weekStart rt now1) u
           \<and> underTarget rt (weekStart rt now2) (weekEnd rt now2) u
           \<longrightarrow> u\<lparr>user_lowLectureWeekCount := user_lowLectureWeekCount u + 2,
                  user_lastLowLectureWeek := Some (weekStart rt now2)\<rparr> \<in> set (users db2)))
    \<and> (weekStart rt now2 = weekStart rt now1 \<longrightarrow>
         (\<forall>u \<in> set (users db).
           user_role u = ''user'' \<and> approved rt (joinRequests db) u
           \<and> underTarget rt (weekStart rt now1) (weekEnd rt now1) u
           \<and> underTarget rt (weekStart rt now2) (weekEnd rt now2) u
           \<longrightarrow> finalUser rt True (weekStart rt now1) (weekEnd rt now1) (joinRequests db) u
                  \<in> set (users db1)
               \<and> finalUser rt True (weekStart rt now1) (weekEnd rt now1) (joinRequests db) u
                  \<in> set (users db2)))"
  using two_scheduled_runs [OF assms] by (intro conjI)

lemma ex_next_week: "weekStart exRuntime (exNow + 7 * msPerDay) = 1375200000"
  "weekEnd exRuntime (exNow + 7 * msPerDay) = 1979999999"
  by (simp_all add: exNow_def weekStart_def weekEnd_def previousSaturday_def
      daysToPreviousSaturday_def getDay_def addDays_def setHours_def msPerDay_def exRuntime_def
      cairoLocalTime_def cairoUtcTime_def cairoDstStart_def cairoDstEnd_def)

theorem counter_once_per_week_witness:
  "distinct (map user_id (users exStore))
   \<and> map user_lowLectureWeekCount (users exOnce) = [1]
   \<and> users exAgain = users exOnce
   \<and> exUser\<lparr>user_lowLectureWeekCount := 2, user_lastLowLectureWeek := Some 1375200000\<rparr>
        \<in> set (users exNext)"
proof -
  have d: "distinct (map user_id (users exStore))" by (simp add: exStore_def)
  have r1: "checkLowLectureMembers exRuntime True exNow 5 None exStore
            = (Inr (projr (fst (checkLowLectureMembers exRuntime True exNow 5 None exStore))), exOnce)"
    unfolding exOnce_def by (rule run_returns)
  have r2: "checkLowLectureMembers exRuntime True exNow 6 None exOnce
            = (Inr (projr (fst (checkLowLectureMembers exRuntime True exNow 6 None exOnce))), exAgain)"
    unfolding exAgain_def by (rule run_returns)
  have r3: "checkLowLectureMembers exRuntime True (exNow + 7 * msPerDay) 7 None exOnce
            = (Inr (projr (fst (checkLowLectureMembers exRuntime True (exNow + 7 * msPerDay) 7 None exOnce))),
               exNext)"
    unfolding exNext_def by (rule run_returns)
  have once: "map user_lowLectureWeekCount (users exOnce) = [1]" by code_simp
  have same: "users exAgain = users exOnce"
    using counter_once_per_week [OF d r1 r2] regularZone_exRuntime by simp
  have u: "exUser \<in> set (users exStore)" by (simp add: exStore_def)
  have h: "user_role exUser = ''user'' \<and> approved exRuntime (joinRequests exStore) exUser
           \<and> underTarget exRuntime 770400000 1375199999 exUser \<and> dueForCount 770400000 exUser
           \<and> underTarget exRuntime 1375200000 1979999999 exUser"
    by code_simp
  have "\<forall>u \<in> set (users exStore).
          user_role u = ''user'' \<and> approved exRuntime (joinRequests exStore) u
          \<and> underTarget exRuntime 770400000 1375199999 u \<and> dueForCount 770400000 u
          \<and> underTarget exRuntime 1375200000 1979999999 u
          \<longrightarrow> u\<lparr>user_lowLectureWeekCount := user_lowLectureWeekCount u + 2,
                 user_lastLowLectureWeek := Some 1375200000\<rparr> \<in> set (users exNext)"
    using counter_once_per_week [OF d r1 r3, unfolded ex_week ex_next_week] by simp
  with u h have "exUser\<lparr>user_lowLectureWeekCount := user_lowLectureWeekCount exUser + 2,
                 user_lastLowLectureWeek := Some 1375200000\<rparr> \<in> set (users exNext)"
    by blast
  moreover have "user_lowLectureWeekCount exUser + 2 = 2" by (simp add: exUser_def)
  ultimately have "exUser\<lparr>user_lowLectureWeekCount := 2,
                 user_lastLowLectureWeek := Some 1375200000\<rparr> \<in> set (users exNext)"
    by (simp only:)
  with d once same show ?thesis by simp
qed

lemma flagged_member_of_user:
  assumes d: "distinct (map user_id (users db))" and u: "u \<in> set (users db)"
    and m: "m \<in> set (flaggedMembers rt c ws we db)" and i: "member_id m = user_id u"
  shows "approved rt (joinRequests db) u \<and> underTarget rt ws we u"
proof -
  from m obtain v where v: "v \<in> set (users db)" "approved rt (joinRequests db) v"
    "underTarget rt ws we v" "member_id m = user_id v"
    by (rule flaggedMembers_member)
  have "inj_on user_id (set (users db))" using d by (simp add: distinct_map)
  then have "v = u" using v(1,4) u i by (auto dest: inj_onD)
  with v show ?thesis by simp
qed

text \<open>
  Claim C6.  After a scheduled run that returns, on a store whose volunteers have distinct
  ids, every evaluated volunteer (role \<open>user\<close>, approved join request) without an
  under-target pair, in particular every one without students, is in no result list,
  and its document has \<open>lowLectureWeekCount\<close> 0 and \<open>lastLowLectureWeek\<close> null if the
  counter was positive, and is unchanged otherwise.
\<close>

theorem compliant_counter_reset:
  assumes "distinct (map user_id (users db))"
    and "checkLowLectureMembers rt True now stamp f db = (Inr res, db')"
  shows "\<forall>u \<in> set (users db).
           user_role u = ''user'' \<and> approved rt (joinRequests db) u
           \<and> (user_students u = [] \<or> \<not> underTarget rt (weekStart rt now) (weekEnd rt now) u)
           \<longrightarrow> (if 0 < user_lowLectureWeekCount u
                 then u\<lparr>user_lowLectureWeekCount := 0, user_lastLowLectureWeek := None\<rparr>
                 else u) \<in> set (users db')
               \<and> (\<forall>m \<in> set (res_members res). member_id m \<noteq> user_id u)"
proof (intro ballI impI)
  fix u
  assume u: "u \<in> set (users db)"
    and h: "user_role u = ''user'' \<and> approved rt (joinRequests db) u
           \<and> (user_students u = [] \<or> \<not> underTarget rt (weekStart rt now) (weekEnd rt now) u)"
  let ?ws = "weekStart rt now" and ?we = "weekEnd rt now"
  have nu: "\<not> underTarget rt ?ws ?we u" using h no_students_not_underTarget by blast
  have "users db' = map (finalUser rt True ?ws ?we (joinRequests db)) (users db)"
    using checkLowLectureMembers_spec(4) [OF assms(2) assms(1)] .
  then have "finalUser rt True ?ws ?we (joinRequests db) u \<in> set (users db')" using u by simp
  then have a: "(if 0 < user_lowLectureWeekCount u
                 then u\<lparr>user_lowLectureWeekCount := 0, user_lastLowLectureWeek := None\<rparr>
                 else u) \<in> set (users db')"
    using h nu by (simp add: finalUser_compliant)
  have b: "\<forall>m \<in> set (res_members res). member_id m \<noteq> user_id u"
  proof
    fix m
    assume "m \<in> set (res_members res)"
    then have "m \<in> set (flaggedMembers rt True ?ws ?we db)"
      using checkLowLectureMembers_spec(1) [OF assms(2)] by simp
    then show "member_id m \<noteq> user_id u"
      using flagged_member_of_user [OF assms(1) u] nu by blast
  qed
  from a b show "(if 0 < user_lowLectureWeekCount u
                 then u\<lparr>user_lowLectureWeekCount := 0, user_lastLowLectureWeek := None\<rparr>
                 else u) \<in> set (users db')
               \<and> (\<forall>m \<in> set (res_members res). member_id m \<noteq> user_id u)"
    by simp
qed

theorem compliant_counter_reset_witness:
  "distinct (map user_id (users exStore3))
   \<and> user_lowLectureWeekCount exIdle = 2 \<and> user_students exIdle = []
   \<and> exIdle\<lparr>user_lowLectureWeekCount := 0, user_lastLowLectureWeek := None\<rparr>
        \<in> set (users (snd (checkLowLectureMembers exRuntime True exNow 5 None exStore3)))
   \<and> ''u2'' \<notin> set (map member_id
                       (res_members (projr (fst (checkLowLectureMembers exRuntime True exNow 5 None exStore3)))))"
proof -
  have d: "distinct (map user_id (users exStore3))" by code_simp
  have u: "exIdle \<in> set (users exStore3)" by (simp add: exStore3_def)
  have h: "user_role exIdle = ''user'' \<and> approved exRuntime (joinRequests exStore3) exIdle
           \<and> user_students exIdle = [] \<and> user_lowLectureWeekCount exIdle = 2
           \<and> user_id exIdle = ''u2''"
    by code_simp
  from compliant_counter_reset [OF d run_returns, of exRuntime exNow 5] u h
  have "(if 0 < user_lowLectureWeekCount exIdle
         then exIdle\<lparr>user_lowLectureWeekCount := 0, user_lastLowLectureWeek := None\<rparr>
         else exIdle) \<in> set (users (snd (checkLowLectureMembers exRuntime True exNow 5 None exStore3)))
        \<and> (\<forall>m \<in> set (res_members (projr (fst (checkLowLectureMembers exRuntime True exNow 5 None exStore3)))).
              member_id m \<noteq> user_id exIdle)"
    by blast
  with d h show ?thesis by auto
qed

section \<open>Claims about volunteers that are not evaluated\<close>

text \<open>
  Claim C9.  A volunteer with role \<open>user\<close> whose join request is missing or not
  \<open>Approved\<close>, in a store whose volunteers have distinct ids, is skipped by a run in
  either mode, whatever operation fails: its document is in the store after the run as
  it was before, the notifications of the volunteer are the same, no member of a result
  is the volunteer, and the run returns a result unless a store operation fails.
\<close>

theorem unapproved_volunteer_skipped:
  assumes "distinct (map user_id (users db))"
    and "u \<in> set (users db)" and "user_role u = ''user''"
    and "\<not> approved rt (joinRequests db) u"
  shows "u \<in> set (users (snd (checkLowLectureMembers rt c now stamp f db)))
     \<and> [n \<leftarrow> notifications (snd (checkLowLectureMembers rt c now stamp f db)). notif_userId n = user_id u]
         = [n \<leftarrow> notifications db. notif_userId n = user_id u]
     \<and> (\<forall>res. fst (checkLowLectureMembers rt c now stamp f db) = Inr res
            \<longrightarrow> (\<forall>m \<in> set (res_members res). member_id m \<noteq> user_id u))
     \<and> (f = None \<longrightarrow> \<not> isl (fst (checkLowLectureMembers rt c now stamp f db)))"
proof -
  obtain r db' where run: "checkLowLectureMembers rt c now stamp f db = (r, db')"
    by (cases "checkLowLectureMembers rt c now stamp f db")
  have ret: "f = None \<longrightarrow> \<not> isl r"
    using checkLowLectureMembers_total [of rt c now stamp db] run by auto
  show ?thesis
  proof (cases r)
    case (Inl e)
    then have "db' = db" using run checkLowLectureMembers_Inl by blast
    moreover have "f \<noteq> None" using ret Inl by auto
    ultimately show ?thesis using run Inl assms(2) by auto
  next
    case (Inr res)
    let ?ws = "weekStart rt now" and ?we = "weekEnd rt now"
    have run': "checkLowLectureMembers rt c now stamp f db = (Inr res, db')" using run Inr by simp
    note spec = checkLowLectureMembers_spec [OF run']
    have inj: "inj_on user_id (set (users db))" using assms(1) by (simp add: distinct_map)
    have "finalUser rt c ?ws ?we (joinRequests db) u \<in> set (users db')"
      using spec(4) [OF assms(1)] assms(2) by simp
    then have 1: "u \<in> set (users db')" using assms(4) by (simp add: finalUser_skipped)
    from spec(5) obtain ns where ns: "notifications db' = notifications db @ ns"
      "\<forall>n \<in> set ns. \<exists>v \<in> set (users db). approved rt (joinRequests db) v \<and> notif_userId n = user_id v"
      by blast
    have "\<forall>n \<in> set ns. notif_userId n \<noteq> user_id u"
    proof
      fix n
      assume "n \<in> set ns"
      with ns(2) obtain v where v: "v \<in> set (users db)" "approved rt (joinRequests db) v"
        "notif_userId n = user_id v" by blast
      show "notif_userId n \<noteq> user_id u"
      proof
        assume "notif_userId n = user_id u"
        then have "v = u" using v(1,3) assms(2) inj by (auto dest: inj_onD)
        with v(2) assms(4) show False by simp
      qed
    qed
    then have "[n \<leftarrow> ns. notif_userId n = user_id u] = []" by (simp add: filter_empty_conv)
    then have 2: "[n \<leftarrow> notifications db'. notif_userId n = user_id u]
                  = [n \<leftarrow> notifications db. notif_userId n = user_id u]"
      using ns(1) by simp
    have 3: "\<forall>m \<in> set (res_members res). member_id m \<noteq> user_id u"
    proof
      fix m
      assume "m \<in> set (res_members res)"
      then have "m \<in> set (flaggedMembers rt c ?ws ?we db)" using spec(1) by simp
      then show "member_id m \<noteq> user_id u"
        using flagged_member_of_user [OF assms(1) assms(2)] assms(4) by blast
    qed
    from 1 2 3 ret show ?thesis using run Inr by auto
  qed
qed

theorem unapproved_volunteer_skipped_witness:
  "distinct (map user_id (users exStore3))
   \<and> \<not> approved exRuntime (joinRequests exStore3) exPending \<and> \<not> approved exRuntime (joinRequests exStore3) exOrphan
   \<and> exPending \<in> set (users (snd (checkLowLectureMembers exRuntime True exNow 5 None exStore3)))
   \<and> exOrphan \<in> set (users (snd (checkLowLectureMembers exRuntime True exNow 5 None exStore3)))
   \<and> [n \<leftarrow> notifications (snd (checkLowLectureMembers exRuntime True exNow 5 None exStore3)).
         notif_userId n = ''u3''] = []
   \<and> \<not> isl (fst (checkLowLectureMembers exRuntime True exNow 5 None exStore3))
   \<and> exPending \<in> set (users (snd (checkLowLectureMembers exRuntime True exNow 5 (Some 4) exStore3)))"
proof -
  have d: "distinct (map user_id (users exStore3))" by code_simp
  have p: "exPending \<in> set (users exStore3)" "exOrphan \<in> set (users exStore3)"
    by (simp_all add: exStore3_def)
  have h: "user_role exPending = ''user''" "\<not> approved exRuntime (joinRequests exStore3) exPending"
    "user_role exOrphan = ''user''" "\<not> approved exRuntime (joinRequests exStore3) exOrphan"
    by code_simp+
  have e: "user_id exPending = ''u3''" "[n \<leftarrow> notifications exStore3. notif_userId n = ''u3''] = []"
    by (simp_all add: exPending_def exStore3_def)
  note a = unapproved_volunteer_skipped [OF d p(1) h(1) h(2), of True exNow 5 None]
  note b = unapproved_volunteer_skipped [OF d p(2) h(3) h(4), of True exNow 5 None]
  note c = unapproved_volunteer_skipped [OF d p(1) h(1) h(2), of True exNow 5 "Some 4"]
  from a b c d h e show ?thesis by simp
qed

section \<open>Claims about the on-demand route\<close>

lemma latestReport_None: "latestReport rs = None \<longleftrightarrow> rs = []"
  by (induction rs) (auto split: option.splits)

lemma latestReport_Some:
  assumes "latestReport rs = Some r"
  shows "r \<in> set rs \<and> (\<forall>r' \<in> set rs. report_createdAt r' \<le> report_createdAt r)"
  using assms
proof (induction rs arbitrary: r)
  case Nil
  then show ?case by simp
next
  case (Cons x xs)
  show ?case
  proof (cases "latestReport xs")
    case None
    then have "xs = []" by (simp add: latestReport_None)
    with Cons.prems show ?thesis by simp
  next
    case (Some y)
    from Cons.IH [OF Some] have y: "y \<in> set xs" "\<forall>r' \<in> set xs. report_createdAt r' \<le> report_createdAt y"
      by simp_all
    show ?thesis
    proof (cases "report_createdAt x < report_createdAt y")
      case True
      with Cons.prems Some have "r = y" by simp
      with y True show ?thesis by auto
    next
      case False
      with Cons.prems Some have "r = x" by simp
      with y False show ?thesis by force
    qed
  qed
qed

lemma findLatestReport_Some:
  assumes "findLatestReport ws rs = Some r"
  shows "r \<in> set rs \<and> report_weekStart r = ws
         \<and> (\<forall>r' \<in> set rs. report_weekStart r' = ws \<longrightarrow> report_createdAt r' \<le> report_createdAt r)"
  using latestReport_Some [OF assms [unfolded findLatestReport_def]] by auto

lemma findLatestReport_None:
  "findLatestReport ws rs = None \<longleftrightarrow> (\<forall>r \<in> set rs. report_weekStart r \<noteq> ws)"
  by (simp add: findLatestReport_def latestReport_None filter_empty_conv)

text \<open>
  Claim C7.  When the lookup of the route does not fail, an administrator gets: if a
  report with the \<open>weekStart\<close> of the current window is stored, the members, counts and
  week bounds of the one created last among these, and the evaluator is not run; if none
  is stored, the result of the evaluator run in non-scheduled mode (or its error).  In
  both cases the store is left as it was.
\<close>

theorem cached_report_or_live_result:
  assumes "storeOp f = Inr f1"
  shows "getLowLectureMembers rt (Some (uid, ''admin'')) now now' stamp f db =
           (case findLatestReport (weekStart rt now) (reports db) of
              Some r \<Rightarrow>
                (Json \<lparr>res_success = True,
                       res_message = resultMessage (length (report_members r)),
                       res_members = report_members r,
                       res_debug = \<lparr>debug_totalUsersProcessed = report_totalUsersProcessed r,
                                    debug_weekStart = report_weekStart r,
                                    debug_weekEnd = report_weekEnd r,
                                    debug_membersWithLowLectures = report_membersWithLowLectures r\<rparr>\<rparr>,
                 db)
            | None \<Rightarrow>
                (case fst (checkLowLectureMembers rt False now' stamp f1 db) of
                   Inl e \<Rightarrow> ServerError e
                 | Inr res \<Rightarrow> Json res, db))
     \<and> (\<forall>r. findLatestReport (weekStart rt now) (reports db) = Some r \<longrightarrow>
            r \<in> set (reports db) \<and> report_weekStart r = weekStart rt now
            \<and> (\<forall>r' \<in> set (reports db). report_weekStart r' = weekStart rt now
                   \<longrightarrow> report_createdAt r' \<le> report_createdAt r))
     \<and> (findLatestReport (weekStart rt now) (reports db) = None
          \<longleftrightarrow> (\<forall>r \<in> set (reports db). report_weekStart r \<noteq> weekStart rt now))"
proof -
  obtain r db' where run: "checkLowLectureMembers rt False now' stamp f1 db = (r, db')"
    by (cases "checkLowLectureMembers rt False now' stamp f1 db")
  have "db' = db" using checkLowLectureMembers_read_only [of rt now' stamp f1 db] run by simp
  then have "getLowLectureMembers rt (Some (uid, ''admin'')) now now' stamp f db =
           (case findLatestReport (weekStart rt now) (reports db) of
              Some r \<Rightarrow>
                (Json \<lparr>res_success = True,
                       res_message = resultMessage (length (report_members r)),
                       res_members = report_members r,
                       res_debug = \<lparr>debug_totalUsersProcessed = report_totalUsersProcessed r,
                                    debug_weekStart = report_weekStart r,
                                    debug_weekEnd = report_weekEnd r,
                                    debug_membersWithLowLectures = report_membersWithLowLectures r\<rparr>\<rparr>,
                 db)
            | None \<Rightarrow>
                (case fst (checkLowLectureMembers rt False now' stamp f1 db) of
                   Inl e \<Rightarrow> ServerError e
                 | Inr res \<Rightarrow> Json res, db))"
    using assms run
    by (simp add: getLowLectureMembers_def routeWeekStart_weekStart
             split: option.splits sum.splits)
  then show ?thesis
    using findLatestReport_Some [of "weekStart rt now" "reports db"]
      findLatestReport_None [of "weekStart rt now" "reports db"]
    by blast
qed

theorem cached_report_or_live_result_witness:
  "fst (getLowLectureMembers exRuntime (Some (''a1'', ''admin'')) exNow exNow 5 None exCached)
     = Json \<lparr>res_success = True, res_message = allMeetMsg, res_members = [],
              res_debug = \<lparr>debug_totalUsersProcessed = 7, debug_weekStart = 770400000,
                           debug_weekEnd = 1375199999, debug_membersWithLowLectures = 0\<rparr>\<rparr>
   \<and> getLowLectureMembers exRuntime (Some (''a1'', ''admin'')) exNow exNow 5 None exStore
     = (Json (projr (fst (checkLowLectureMembers exRuntime False exNow 5 None exStore))), exStore)
   \<and> map member_id (res_members (projr (fst (checkLowLectureMembers exRuntime False exNow 5 None exStore))))
     = [''u1'']"
proof -
  have s: "storeOp None = Inr None" by simp
  have c: "findLatestReport 770400000 (reports exCached) = Some (exReport 770400000 30 7)"
    by code_simp
  have n: "findLatestReport 770400000 (reports exStore) = None"
    by code_simp
  have l: "\<not> isl (fst (checkLowLectureMembers exRuntime False exNow 5 None exStore))"
    "map member_id (res_members (projr (fst (checkLowLectureMembers exRuntime False exNow 5 None exStore))))
     = [''u1'']"
    by code_simp+
  have m: "resultMessage 0 = allMeetMsg" by (simp add: resultMessage_def)
  have e: "770400000 + 7 * msPerDay - 1 = 1375199999" by (simp add: msPerDay_def)
  from cached_report_or_live_result [OF s, of exRuntime "''a1''" exNow exNow 5 exCached, unfolded ex_week]
  have "fst (getLowLectureMembers exRuntime (Some (''a1'', ''admin'')) exNow exNow 5 None exCached)
     = Json \<lparr>res_success = True, res_message = allMeetMsg, res_members = [],
              res_debug = \<lparr>debug_totalUsersProcessed = 7, debug_weekStart = 770400000,
                           debug_weekEnd = 1375199999, debug_membersWithLowLectures = 0\<rparr>\<rparr>"
    by (simp add: c exReport_def m e)
  moreover
  from cached_report_or_live_result [OF s, of exRuntime "''a1''" exNow exNow 5 exStore, unfolded ex_week]
  have "getLowLectureMembers exRuntime (Some (''a1'', ''admin'')) exNow exNow 5 None exStore
     = (Json (projr (fst (checkLowLectureMembers exRuntime False exNow 5 None exStore))), exStore)"
    using l(1) by (simp add: n split: sum.splits)
  ultimately show ?thesis using l(2) by simp
qed

section \<open>Claims about the under-target notifications\<close>

lemma reject_not_committed: "reject r \<sigma> \<noteq> Inr (Inr x)"
  by (auto simp: reject_def bindE_Inr_iff)

lemma lecture_added_not_low: "notif_type (lectureAddedNotification uid u req e) \<noteq> lowLectureType"
  by (simp add: lectureAddedNotification_def lowLectureType_def)

text \<open>The notifications of the session when a submission commits.\<close>

lemma postLecture_committed:
  assumes "postLecture rt v uid req newId t (db, k) = Inr (Inr (r, \<sigma>'))"
  shows "\<exists>n. notif_type n \<noteq> lowLectureType
          \<and> notifications (fst \<sigma>') =
              [m \<leftarrow> notifications db.
                 \<not> lowNotificationFilter uid (req_subject req)
                      (trim rt (toLowerCase rt (req_studentEmail req))) m] @ [n]"
    and "\<exists>l c h. r = LectureAdded l c h"
proof -
  let ?e = "trim rt (toLowerCase rt (req_studentEmail req))"
  from assms obtain \<sigma>1 u where a1: "await (db, k) = Inr \<sigma>1"
    and fu: "find (\<lambda>u. user_id u = uid) (users (fst \<sigma>1)) = Some u"
    and r1: "bindE (await \<sigma>1) (\<lambda>\<sigma>2.
               case findOneJoinRequest (trim rt (toLowerCase rt (user_email u))) (joinRequests (fst \<sigma>2)) of
                 None \<Rightarrow> reject (NotFound JoinRequestMissing) \<sigma>2
               | Some joinRequest \<Rightarrow>
                   bindE (awaitWrite (deleteLowNotifications uid (req_subject req) ?e) \<sigma>2) (\<lambda>\<sigma>3.
                   bindE (awaitWrite (saveNotification (lectureAddedNotification uid u req ?e)) \<sigma>3)
                     (\<lambda>\<sigma>4.
                   bindE (awaitWrite (saveUser
                            (u\<lparr>user_lectures := user_lectures u @
                                 [\<lparr>lecture_id = newId, lecture_link = req_link req,
                                   lecture_name = req_name req, lecture_subject = req_subject req,
                                   lecture_studentEmail = Some ?e, lecture_createdAt = t\<rparr>],
                               user_lectureCount := user_lectureCount u + 1\<rparr>)) \<sigma>4) (\<lambda>\<sigma>5.
                   bindE (awaitWrite (saveJoinRequest
                            (joinRequest\<lparr>jr_volunteerHours := jr_volunteerHours joinRequest + 2\<rparr>))
                            \<sigma>5) (\<lambda>\<sigma>6.
                   bindE (await \<sigma>6) (\<lambda>\<sigma>7.
                     Inr (Inr (LectureAdded
                                 \<lparr>lecture_id = newId, lecture_link = req_link req,
                                  lecture_name = req_name req, lecture_subject = req_subject req,
                                  lecture_studentEmail = Some ?e, lecture_createdAt = t\<rparr>
                                 (user_lectureCount u + 1)
                                 (jr_volunteerHours joinRequest + 2), \<sigma>7))))))))
             = Inr (Inr (r, \<sigma>'))"
    unfolding postLecture_def Let_def
    by (auto simp: bindE_Inr_iff reject_not_committed split: if_splits option.splits)
  from r1 obtain \<sigma>2 j \<sigma>3 \<sigma>4 \<sigma>5 \<sigma>6 where a2: "await \<sigma>1 = Inr \<sigma>2"
    and w3: "awaitWrite (deleteLowNotifications uid (req_subject req) ?e) \<sigma>2 = Inr \<sigma>3"
    and w4: "awaitWrite (saveNotification (lectureAddedNotification uid u req ?e)) \<sigma>3 = Inr \<sigma>4"
    and w5: "awaitWrite (saveUser
                            (u\<lparr>user_lectures := user_lectures u @
                                 [\<lparr>lecture_id = newId, lecture_link = req_link req,
                                   lecture_name = req_name req, lecture_subject = req_subject req,
                                   lecture_studentEmail = Some ?e, lecture_createdAt = t\<rparr>],
                               user_lectureCount := user_lectureCount u + 1\<rparr>)) \<sigma>4 = Inr \<sigma>5"
    and w6: "awaitWrite (saveJoinRequest (j\<lparr>jr_volunteerHours := jr_volunteerHours j + 2\<rparr>)) \<sigma>5
             = Inr \<sigma>6"
    and a7: "await \<sigma>6 = Inr \<sigma>'"
    and rr: "r = LectureAdded
                 \<lparr>lecture_id = newId, lecture_link = req_link req,
                  lecture_name = req_name req, lecture_subject = req_subject req,
                  lecture_studentEmail = Some ?e, lecture_createdAt = t\<rparr>
                 (user_lectureCount u + 1) (jr_volunteerHours j + 2)"
    by (auto simp: bindE_Inr_iff reject_not_committed split: option.splits)
  have "fst \<sigma>2 = db" using await_Inr [OF a1] await_Inr [OF a2] by simp
  then have "notifications (fst \<sigma>') =
              [m \<leftarrow> notifications db. \<not> lowNotificationFilter uid (req_subject req) ?e m]
              @ [lectureAddedNotification uid u req ?e]"
    using awaitWrite_Inr [OF w3] awaitWrite_Inr [OF w4] awaitWrite_Inr [OF w5]
      awaitWrite_Inr [OF w6] await_Inr [OF a7]
    by (simp add: deleteLowNotifications_def saveNotification_def saveUser_def saveJoinRequest_def)
  then show "\<exists>n. notif_type n \<noteq> lowLectureType
          \<and> notifications (fst \<sigma>') =
              [m \<leftarrow> notifications db.
                 \<not> lowNotificationFilter uid (req_subject req)
                      (trim rt (toLowerCase rt (req_studentEmail req))) m] @ [n]"
    using lecture_added_not_low by blast
  show "\<exists>l c h. r = LectureAdded l c h" using rr by blast
qed

lemma reject_Inl: "reject r \<sigma> = Inr (Inl r') \<Longrightarrow> r' = r"
  by (auto simp: reject_def bindE_Inr_iff)

lemma postLecture_rejected:
  assumes "postLecture rt v uid req newId t \<sigma> = Inr (Inl r)"
  shows "(\<exists>x. r = BadRequest x) \<or> (\<exists>x. r = NotFound x)"
  using assms unfolding postLecture_def Let_def
  by (auto simp: bindE_Inr_iff dest!: reject_Inl split: if_splits option.splits)

lemma lowKeys_after_submission:
  assumes "notif_type n \<noteq> lowLectureType"
    and "notifications db' = [m \<leftarrow> notifications db. \<not> lowNotificationFilter uid subj e m] @ [n]"
  shows "lowKeys db' = [x \<leftarrow> lowKeys db. x \<noteq> (uid, Some subj, Some e)]"
proof -
  have "\<And>m. notif_type m = lowLectureType \<Longrightarrow>
          (\<not> lowNotificationFilter uid subj e m) = (lowKey m \<noteq> (uid, Some subj, Some e))"
    by (auto simp: lowNotificationFilter_def lowKey_def)
  then have "[m \<leftarrow> notifications db. notif_type m = lowLectureType \<and> \<not> lowNotificationFilter uid subj e m]
        = [m \<leftarrow> notifications db. notif_type m = lowLectureType \<and> lowKey m \<noteq> (uid, Some subj, Some e)]"
    by (intro filter_cong) auto
  then show ?thesis
    using assms by (simp add: lowKeys_def filter_map comp_def conj_commute)
qed

lemma addLecture_store:
  "(snd (addLecture rt v auth req newId t g db) = db
    \<and> (\<forall>l n h. fst (addLecture rt v auth req newId t g db) \<noteq> LectureAdded l n h))
   \<or> (\<exists>uid role l n h db'. auth = Some (uid, role)
        \<and> addLecture rt v auth req newId t g db = (LectureAdded l n h, db')
        \<and> lowKeys db' = [x \<leftarrow> lowKeys db.
                            x \<noteq> (uid, Some (req_subject req),
                                   Some (trim rt (toLowerCase rt (req_studentEmail req))))])"
proof (cases auth)
  case None
  then show ?thesis by (simp add: addLecture_def)
next
  case (Some a)
  obtain uid role where a: "a = (uid, role)" by (cases a)
  show ?thesis
  proof (cases "storeOp g")
    case (Inl e)
    with Some a show ?thesis by (simp add: addLecture_def)
  next
    case (Inr g0)
    show ?thesis
    proof (cases "postLecture rt v uid req newId t (db, g0)")
      case (Inl e)
      with Some a Inr show ?thesis by (simp add: addLecture_def)
    next
      case inr: (Inr y)
      show ?thesis
      proof (cases y)
        case (Inl r)
        have "\<forall>l n h. r \<noteq> LectureAdded l n h"
          using postLecture_rejected [of rt v uid req newId t "(db, g0)" r] inr Inl by auto
        with Some a Inr inr Inl show ?thesis by (simp add: addLecture_def)
      next
        case (Inr z)
        obtain r \<sigma>' where z: "z = (r, \<sigma>')" by (cases z)
        have p: "postLecture rt v uid req newId t (db, g0) = Inr (Inr (r, \<sigma>'))"
          using inr Inr z by simp
        from postLecture_committed(1) [OF p] obtain n where n: "notif_type n \<noteq> lowLectureType"
          "notifications (fst \<sigma>') =
              [m \<leftarrow> notifications db.
                 \<not> lowNotificationFilter uid (req_subject req)
                      (trim rt (toLowerCase rt (req_studentEmail req))) m] @ [n]"
          by blast
        have k: "lowKeys (fst \<sigma>') = [x \<leftarrow> lowKeys db.
                            x \<noteq> (uid, Some (req_subject req),
                                   Some (trim rt (toLowerCase rt (req_studentEmail req))))]"
          using n by (rule lowKeys_after_submission)
        from postLecture_committed(2) [OF p] obtain l c h where "r = LectureAdded l c h" by blast
        moreover have "addLecture rt v auth req newId t g db = (r, fst \<sigma>')"
          using Some a \<open>storeOp g = Inr g0\<close> p by (simp add: addLecture_def)
        ultimately show ?thesis using Some a k by auto
      qed
    qed
  qed
qed

text \<open>
  Claim C5.  Let no two stored \<open>low_lecture_count_per_subject\<close> notifications have the
  same volunteer, subject and student.  Then the same holds after a run of the evaluator
  (in either mode, failing or not): a run that returns only appends notifications to the
  stored ones, each of this type and for a tuple that had none.  And the same holds after
  a lecture submission, whatever it answers; when the submission commits, no notification
  of this type is left for the volunteer, subject and normalised student address of the
  lecture.
\<close>

theorem one_notification_per_tuple:
  assumes "distinct (lowKeys db)"
  shows "distinct (lowKeys (snd (checkLowLectureMembers rt c now stamp f db)))
     \<and> (\<forall>res db'. checkLowLectureMembers rt c now stamp f db = (Inr res, db') \<longrightarrow>
          (\<exists>ns. notifications db' = notifications db @ ns
             \<and> (\<forall>n \<in> set ns. notif_type n = lowLectureType \<and> lowKey n \<notin> set (lowKeys db))))
     \<and> distinct (lowKeys (snd (addLecture rt v auth req newId t g db)))
     \<and> (\<forall>uid role l n h db'.
          addLecture rt v (Some (uid, role)) req newId t g db = (LectureAdded l n h, db') \<longrightarrow>
            (uid, Some (req_subject req), Some (trim rt (toLowerCase rt (req_studentEmail req))))
              \<notin> set (lowKeys db')
            \<and> [m \<leftarrow> notifications db'.
                  lowNotificationFilter uid (req_subject req)
                    (trim rt (toLowerCase rt (req_studentEmail req))) m] = [])"
proof -
  obtain r d where run: "checkLowLectureMembers rt c now stamp f db = (r, d)"
    by (cases "checkLowLectureMembers rt c now stamp f db")
  have 1: "distinct (lowKeys (snd (checkLowLectureMembers rt c now stamp f db)))"
  proof (cases r)
    case (Inl e)
    then have "d = db" using run checkLowLectureMembers_Inl by blast
    with run assms show ?thesis by simp
  next
    case (Inr res)
    then show ?thesis using checkLowLectureMembers_spec(6) [of rt c now stamp f db res d] run assms
      by simp
  qed
  have 2: "\<forall>res db'. checkLowLectureMembers rt c now stamp f db = (Inr res, db') \<longrightarrow>
          (\<exists>ns. notifications db' = notifications db @ ns
             \<and> (\<forall>n \<in> set ns. notif_type n = lowLectureType \<and> lowKey n \<notin> set (lowKeys db)))"
  proof (intro allI impI)
    fix res db'
    assume r': "checkLowLectureMembers rt c now stamp f db = (Inr res, db')"
    from checkLowLectureMembers_spec(5) [OF r'] obtain ns where
      ns: "notifications db' = notifications db @ ns" "\<forall>n \<in> set ns. notif_type n = lowLectureType"
      by blast
    have "[n \<leftarrow> ns. notif_type n = lowLectureType] = ns" using ns(2) by (simp add: filter_id_conv)
    then have "lowKeys db' = lowKeys db @ map lowKey ns" using ns(1) by (simp add: lowKeys_def)
    moreover have "distinct (lowKeys db')" using checkLowLectureMembers_spec(6) [OF r' assms] .
    ultimately have "\<forall>n \<in> set ns. lowKey n \<notin> set (lowKeys db)" by auto
    with ns show "\<exists>ns. notifications db' = notifications db @ ns
             \<and> (\<forall>n \<in> set ns. notif_type n = lowLectureType \<and> lowKey n \<notin> set (lowKeys db))"
      by blast
  qed
  note st = addLecture_store [of rt v _ req newId t g db]
  have 3: "distinct (lowKeys (snd (addLecture rt v auth req newId t g db)))"
    using st [of auth] assms by (auto simp: distinct_filter)
  have 4: "\<forall>uid role l n h db'.
          addLecture rt v (Some (uid, role)) req newId t g db = (LectureAdded l n h, db') \<longrightarrow>
            (uid, Some (req_subject req), Some (trim rt (toLowerCase rt (req_studentEmail req))))
              \<notin> set (lowKeys db')
            \<and> [m \<leftarrow> notifications db'.
                  lowNotificationFilter uid (req_subject req)
                    (trim rt (toLowerCase rt (req_studentEmail req))) m] = []"
  proof (intro allI impI)
    fix uid role :: string and l n h db'
    let ?key = "(uid, Some (req_subject req), Some (trim rt (toLowerCase rt (req_studentEmail req))))"
    assume a: "addLecture rt v (Some (uid, role)) req newId t g db = (LectureAdded l n h, db')"
    with st [of "Some (uid, role)"] have k: "lowKeys db' = [x \<leftarrow> lowKeys db. x \<noteq> ?key]"
      by auto
    then have notin: "?key \<notin> set (lowKeys db')" by simp
    have "\<forall>m \<in> set (notifications db').
            \<not> lowNotificationFilter uid (req_subject req)
                 (trim rt (toLowerCase rt (req_studentEmail req))) m"
    proof
      fix m
      assume m: "m \<in> set (notifications db')"
      show "\<not> lowNotificationFilter uid (req_subject req)
                 (trim rt (toLowerCase rt (req_studentEmail req))) m"
      proof
        assume "lowNotificationFilter uid (req_subject req)
                 (trim rt (toLowerCase rt (req_studentEmail req))) m"
        then have "notif_type m = lowLectureType \<and> lowKey m = ?key"
          by (simp add: lowNotificationFilter_def lowKey_def)
        with m have "?key \<in> set (lowKeys db')" by (force simp: lowKeys_def)
        with notin show False by simp
      qed
    qed
    then have "[m \<leftarrow> notifications db'.
                  lowNotificationFilter uid (req_subject req)
                    (trim rt (toLowerCase rt (req_studentEmail req))) m] = []"
      by (simp add: filter_empty_conv)
    with notin show "?key \<notin> set (lowKeys db')
            \<and> [m \<leftarrow> notifications db'.
                  lowNotificationFilter uid (req_subject req)
                    (trim rt (toLowerCase rt (req_studentEmail req))) m] = []"
      by simp
  qed
  from 1 2 3 4 show ?thesis by blast
qed

text \<open>
  On the small store: the scheduled run creates the notification of the pair, a second
  run creates no other, and the submission of a lecture for the pair deletes it.
\<close>

theorem one_notification_per_tuple_witness:
  "distinct (lowKeys exStore)
   \<and> lowKeys exOnce = [(''u1'', Some ''Math'', Some ''s@x.com'')]
   \<and> distinct (lowKeys exAgain)
   \<and> lowKeys exAgain = [(''u1'', Some ''Math'', Some ''s@x.com'')]
   \<and> (''u1'', Some ''Math'', Some ''s@x.com'')
        \<notin> set (lowKeys (snd (addLecture exRuntime exValidators (Some (''u1'', ''user'')) exRequest ''l3''
                                    exNow None exOnce)))
   \<and> length (user_lectures (hd (users (snd (addLecture exRuntime exValidators (Some (''u1'', ''user''))
                                                exRequest ''l3'' exNow None exOnce))))) = 4"
proof -
  have d0: "distinct (lowKeys exStore)" by code_simp
  have k1: "lowKeys exOnce = [(''u1'', Some ''Math'', Some ''s@x.com'')]" by code_simp
  then have d1: "distinct (lowKeys exOnce)" by simp
  have k2: "lowKeys exAgain = [(''u1'', Some ''Math'', Some ''s@x.com'')]" by code_simp
  have d2: "distinct (lowKeys exAgain)"
    using one_notification_per_tuple [OF d1, of exRuntime True exNow 6 None] by (simp add: exAgain_def)
  have e: "req_subject exRequest = ''Math''"
    "trim exRuntime (toLowerCase exRuntime (req_studentEmail exRequest)) = ''s@x.com''"
    by code_simp+
  have c: "case fst (addLecture exRuntime exValidators (Some (''u1'', ''user'')) exRequest ''l3''
                         exNow None exOnce) of LectureAdded l n h \<Rightarrow> True | _ \<Rightarrow> False"
    "length (user_lectures (hd (users (snd (addLecture exRuntime exValidators (Some (''u1'', ''user''))
                                                exRequest ''l3'' exNow None exOnce))))) = 4"
    by code_simp+
  from c(1) obtain l n h where "fst (addLecture exRuntime exValidators (Some (''u1'', ''user'')) exRequest ''l3''
                         exNow None exOnce) = LectureAdded l n h"
    by (cases "fst (addLecture exRuntime exValidators (Some (''u1'', ''user'')) exRequest ''l3''
                         exNow None exOnce)") simp_all
  then have a: "addLecture exRuntime exValidators (Some (''u1'', ''user'')) exRequest ''l3''
                         exNow None exOnce
        = (LectureAdded l n h, snd (addLecture exRuntime exValidators (Some (''u1'', ''user'')) exRequest
                                      ''l3'' exNow None exOnce))"
    by (metis prod.collapse)
  have "(''u1'', Some ''Math'', Some ''s@x.com'')
        \<notin> set (lowKeys (snd (addLecture exRuntime exValidators (Some (''u1'', ''user'')) exRequest ''l3''
                                    exNow None exOnce)))"
    using one_notification_per_tuple [OF d1, of exRuntime True exNow 6 None exValidators
        "Some (''u1'', ''user'')" exRequest "''l3''" exNow None] a e
    by metis
  with d0 k1 d2 k2 c(2) show ?thesis by simp
qed

end
